(* ===== verification/Prelude.thy ===== *)
theory Prelude
  imports Main "HOL-Library.Word" "HOL-Library.Monad_Syntax"
begin

unbundle bit_operations_syntax

text \<open>
  The prelude of the YiOS development: the machine integer types of the source, the collections
  that carry the automation of the component theories, the faults an operation can end in, and
  the generic lemmas on words and lists that every component uses.

  The integer types are those of \<^verbatim>\<open>arch/arm64/include/asm/asm_types.h\<close> (LP64: \<^verbatim>\<open>unsigned long\<close> has
  64 bits, \<^verbatim>\<open>unsigned int\<close> 32). A signed C integer of width \<open>w\<close> is either a word read with
  \<^const>\<open>sint\<close> or an \<^typ>\<open>int\<close> with the range check written out.
\<close>

section \<open>Types and collections\<close>

type_synonym u8 = "8 word"
type_synonym u16 = "16 word"
type_synonym u32 = "32 word"
type_synonym u64 = "64 word"

named_theorems yios_consts \<open>the numeric constants (C macros) of the source\<close>
named_theorems word_nat \<open>rules that turn word operations into operations on nat\<close>
named_theorems mem_laws \<open>laws of loads after stores\<close>
named_theorems wf_rules \<open>an operation keeps a well-formedness invariant\<close>

text \<open>
  What can go wrong in a C operation and is not a value the code returns: an access outside an
  array, a read of an indeterminate variable, a null or otherwise invalid dereference, the
  overflow of a signed integer, a variadic argument that is not there, a loop that never ends.
\<close>

datatype fault =
    Out_Of_Bounds
  | Uninitialised
  | Bad_Pointer
  | Signed_Overflow
  | Missing_Arg
  | Diverges

fun ebind :: "fault + 'a \<Rightarrow> ('a \<Rightarrow> fault + 'b) \<Rightarrow> fault + 'b" where
  "ebind (Inl e) k = Inl e"
| "ebind (Inr x) k = k x"

definition of_opt :: "fault \<Rightarrow> 'a option \<Rightarrow> fault + 'a" where
  "of_opt e r = (case r of None \<Rightarrow> Inl e | Some x \<Rightarrow> Inr x)"

text \<open>A C \<^verbatim>\<open>int\<close> result: the value when it fits 32 bits, the overflow fault otherwise.\<close>

definition int32 :: "int \<Rightarrow> fault + int" where
  "int32 i = (if - (2 ^ 31) \<le> i \<and> i < 2 ^ 31 then Inr i else Inl Signed_Overflow)"

text \<open>
  The messages given to \<^verbatim>\<open>printk\<close>: a format and its arguments. The theory \<open>Printk\<close> says what bytes
  they become.
\<close>

type_synonym klog = "(string \<times> u64 list) list"

section \<open>Words\<close>

lemma unat_drop_bit [word_nat]: "unat (drop_bit k (x :: 'a::len word)) = unat x div 2 ^ k"
  by (simp add: unat_drop_bit_eq drop_bit_eq_div [where 'a = nat])

lemma unat_take_bit [word_nat]: "unat (take_bit n (x :: 'a::len word)) = unat x mod 2 ^ n"
  by (simp add: unsigned_take_bit_eq take_bit_eq_mod [where 'a = nat])

lemma unat_and_mask [word_nat]: "unat ((x :: 'a::len word) AND mask n) = unat x mod 2 ^ n"
  using unat_take_bit [of n x] by (simp add: take_bit_eq_mask)

lemma and_not_mask_eq_push: "(x :: 'a::len word) AND NOT (mask n) = push_bit n (drop_bit n x)"
  by (rule bit_eqI) (auto simp: bit_simps)

lemma and_not_mask_eq_sub: "(x :: 'a::len word) AND NOT (mask n) = x - take_bit n x"
  using bits_ident [of n x] by (simp add: and_not_mask_eq_push algebra_simps eq_diff_eq)

lemma take_bit_le_self: "take_bit n (x :: 'a::len word) \<le> x"
  unfolding word_le_nat_alt by (simp only: unat_take_bit mod_less_eq_dividend)

lemma unat_and_not_mask [word_nat]:
  "unat ((x :: 'a::len word) AND NOT (mask n)) = unat x - unat x mod 2 ^ n"
  unfolding and_not_mask_eq_sub by (simp only: unat_sub [OF take_bit_le_self] unat_take_bit)

lemma unat_and_not_mask_div:
  "unat ((x :: 'a::len word) AND NOT (mask n)) = 2 ^ n * (unat x div 2 ^ n)"
  by (simp add: unat_and_not_mask minus_mod_eq_mult_div)

lemma and_not_mask_le: "(x :: 'a::len word) AND NOT (mask n) \<le> x"
  by (simp add: word_le_nat_alt unat_and_not_mask)

lemma unat_add_no_wrap:
  "unat x + unat y < 2 ^ LENGTH('a) \<Longrightarrow> unat (x + y :: 'a::len word) = unat x + unat y"
  by (simp add: unat_add_lem)

lemma unat_sub_le: "y \<le> x \<Longrightarrow> unat (x - y :: 'a::len word) = unat x - unat y"
  by (rule unat_sub)

lemma unat_of_nat_64: "n < 2 ^ 64 \<Longrightarrow> unat (of_nat n :: u64) = n"
  by (simp add: unat_of_nat take_bit_nat_eq_self)

lemma unat_lt_64 [simp]: "unat (x :: u64) < 18446744073709551616"
  using unsigned_less [of x, where ?'a = nat] by simp

lemma take_bit_add_word:
  "take_bit k (x + y :: 'a::len word) = take_bit k (take_bit k x + take_bit k y)"
proof (cases "k \<le> LENGTH('a)")
  case True
  then have d: "2 ^ k dvd (2 :: nat) ^ LENGTH('a)"
    by (rule le_imp_power_dvd)
  show ?thesis
    by (simp only: word_unat_eq_iff unat_take_bit unat_word_ariths(1) mod_mod_cancel [OF d] mod_add_eq)
next
  case False
  then show ?thesis
    by (simp add: take_bit_word_eq_self)
qed

lemma take_bit_2p_eq_0: "k \<le> m \<Longrightarrow> take_bit k (2 ^ m :: 'a::len word) = 0"
  by (rule bit_eqI) (auto simp: bit_simps)

lemma or_eq_add_disjoint: "(x :: 'a::len word) AND y = 0 \<Longrightarrow> x OR y = x + y"
  by (simp add: disjunctive_add_eq_or)

lemma unat_ucast_32_64 [simp]: "unat (ucast (x :: u32) :: u64) = unat x"
proof -
  have "unat x < 2 ^ 32"
    using unsigned_less [of x, where ?'a = nat] by simp
  then show ?thesis
    by (simp add: unsigned_ucast_eq take_bit_nat_eq_self)
qed

section \<open>Characters\<close>

text \<open>A \<^verbatim>\<open>char\<close> of the target is an unsigned byte; storing one into a wider integer zero-extends it.\<close>

definition chr :: "'a::len word \<Rightarrow> char" where
  "chr w = char_of (unat w)"

definition ord :: "char \<Rightarrow> 'a::len word" where
  "ord c = of_nat (of_char c)"

lemma of_char_lt_256: "of_char c < (256 :: nat)"
proof -
  have "char_of (of_char c :: nat) = c"
    by simp
  then show ?thesis
    by (metis of_char_of mod_less_divisor zero_less_numeral)
qed

lemma chr_ord [simp]: "8 \<le> LENGTH('a::len) \<Longrightarrow> chr (ord c :: 'a word) = c"
proof -
  assume "8 \<le> LENGTH('a)"
  then have "(2 :: nat) ^ 8 \<le> 2 ^ LENGTH('a)"
    by (rule power_increasing) simp
  moreover have "of_char c < (2 :: nat) ^ 8"
    using of_char_lt_256 [of c] by simp
  ultimately have "of_char c < (2 :: nat) ^ LENGTH('a)"
    by (rule less_le_trans [rotated])
  then show ?thesis
    by (simp add: chr_def ord_def unat_of_nat take_bit_nat_eq_self)
qed

lemma ord_chr [simp]: "ord (chr w) = (w :: u8)"
proof -
  have "unat w < 256"
    using unsigned_less [of w, where ?'a = nat] by simp
  then show ?thesis
    by (simp add: chr_def ord_def)
qed

lemma ebind_Inr [simp]: "ebind m Inr = m"
  by (cases m) auto

lemma ebind_assoc: "ebind (ebind m k) k' = ebind m (\<lambda>x. ebind (k x) k')"
  by (cases m) auto

lemma ebind_cong [fundef_cong]:
  "m = m' \<Longrightarrow> (\<And>x. m' = Inr x \<Longrightarrow> k x = k' x) \<Longrightarrow> ebind m k = ebind m' k'"
  by (cases m') auto

end
