(* ===== verification/C_Types.thy ===== *)
theory C_Types
  imports Prelude
begin

text \<open>
  The bit and alignment macros of \<^verbatim>\<open>include/yios/types.h\<close>, at the type \<^verbatim>\<open>unsigned long\<close> at which the
  kernel uses them. \<open>ALIGN\<close> and \<open>BALIGN\<close> round down and up to a power of two; the lemmas below
  say so in terms of the numbers the words denote.
\<close>

section \<open>The macros\<close>

definition BITS_PER_BYTE :: u64 where [yios_consts]: "BITS_PER_BYTE = 8"

definition BITS_PER_LONG :: u64 where [yios_consts]: "BITS_PER_LONG = 64"

definition BIT :: "nat \<Rightarrow> u64" where
  "BIT nr = push_bit nr 1"

definition DIV_ROUND_UP :: "u64 \<Rightarrow> u64 \<Rightarrow> u64" where
  "DIV_ROUND_UP n d = (n + d - 1) div d"

definition BITS_TO_LONGS :: "u64 \<Rightarrow> u64" where
  "BITS_TO_LONGS nr = DIV_ROUND_UP nr (BITS_PER_BYTE * 8)"

definition BIT_MASK :: "u64 \<Rightarrow> u64" where
  "BIT_MASK nr = push_bit (unat (nr mod BITS_PER_LONG)) 1"

definition BIT_WORD :: "u64 \<Rightarrow> u64" where
  "BIT_WORD nr = nr div BITS_PER_LONG"

definition round_mask :: "u64 \<Rightarrow> u64" where
  "round_mask y = y - 1"

definition round_up :: "u64 \<Rightarrow> u64 \<Rightarrow> u64" where
  "round_up x y = ((x - 1) OR round_mask y) + 1"

definition round_down :: "u64 \<Rightarrow> u64 \<Rightarrow> u64" where
  "round_down x y = x AND NOT (round_mask y)"

definition ALIGN :: "u64 \<Rightarrow> u64 \<Rightarrow> u64" where
  "ALIGN x y = x AND NOT (round_mask y)"

definition BALIGN :: "u64 \<Rightarrow> u64 \<Rightarrow> u64" where
  "BALIGN x y = (x + y - 1) AND NOT (round_mask y)"

definition IN_RANGE_UNSIGNED :: "u64 \<Rightarrow> u64 \<Rightarrow> u64 \<Rightarrow> bool" where
  "IN_RANGE_UNSIGNED v base sz \<longleftrightarrow> v \<ge> base \<and> v < base + sz"

definition GENMASK :: "nat \<Rightarrow> nat \<Rightarrow> u64" where
  "GENMASK h l = push_bit l (NOT 0) AND drop_bit (64 - 1 - h) (NOT 0)"

definition BIT_ULL :: "nat \<Rightarrow> u64" where
  "BIT_ULL nr = push_bit nr 1"

definition GENMASK_ULL :: "nat \<Rightarrow> nat \<Rightarrow> u64" where
  "GENMASK_ULL h l = push_bit l (NOT 0) AND drop_bit (64 - 1 - h) (NOT 0)"

text \<open>
  Bytes and halfwords put together, at the unsigned types of the names. The operands are promoted to
  \<^verbatim>\<open>int\<close>, so a last byte from 128 on reaches the sign bit; the 32-bit pattern is the same.
\<close>

definition u8_to_u16 :: "u8 \<Rightarrow> u8 \<Rightarrow> u32" where
  "u8_to_u16 low high = push_bit 8 (ucast high) OR ucast low"

definition u8_to_u32 :: "u8 \<Rightarrow> u8 \<Rightarrow> u8 \<Rightarrow> u8 \<Rightarrow> u32" where
  "u8_to_u32 u1 u2 u3 u4 = push_bit 24 (ucast u4) OR push_bit 16 (ucast u3) OR push_bit 8 (ucast u2) OR ucast u1"

definition u16_to_u32 :: "u16 \<Rightarrow> u16 \<Rightarrow> u32" where
  "u16_to_u32 low high = push_bit 16 (ucast high) OR ucast low"

definition SIZE_1G :: u64 where [yios_consts]: "SIZE_1G = 0x40000000"
definition SIZE_4K :: u64 where [yios_consts]: "SIZE_4K = 0x1000"
definition SIZE_1M :: u64 where [yios_consts]: "SIZE_1M = 0x100000"
definition SIZE_1K :: u64 where [yios_consts]: "SIZE_1K = 0x400"
definition SIZE_16K :: u64 where [yios_consts]: "SIZE_16K = 16 * SIZE_1K"
definition SIZE_32M :: u64 where [yios_consts]: "SIZE_32M = 32 * SIZE_1M"
definition SIZE_64K :: u64 where [yios_consts]: "SIZE_64K = 64 * SIZE_1K"
definition SIZE_512M :: u64 where [yios_consts]: "SIZE_512M = 512 * SIZE_1M"
definition SIZE_2M :: u64 where [yios_consts]: "SIZE_2M = 2 * 1024 * 1024"
definition SIZE_8M :: u64 where [yios_consts]: "SIZE_8M = 8 * 1024 * 1024"
definition INVALID_ADDRESS :: u64 where [yios_consts]: "INVALID_ADDRESS = 0xffffffffffffffff"
definition INT_MAX :: int where [yios_consts]: "INT_MAX = 2147483647"
definition INT_MIN :: int where [yios_consts]: "INT_MIN = - 2147483648"

text \<open>Bit masks of which no two share a bit.\<close>

fun disjoint_masks :: "u64 list \<Rightarrow> bool" where
  "disjoint_masks [] \<longleftrightarrow> True"
| "disjoint_masks (m # ms) \<longleftrightarrow> list_all (\<lambda>m'. m AND m' = 0) ms \<and> disjoint_masks ms"

section \<open>Rounding to a power of two\<close>

lemma round_mask_2p: "round_mask (2 ^ k) = mask k"
  by (simp add: round_mask_def mask_eq_exp_minus_1)

lemma unat_ALIGN: "unat (ALIGN x (2 ^ k)) = 2 ^ k * (unat x div 2 ^ k)"
  by (simp add: ALIGN_def round_mask_2p unat_and_not_mask_div)

lemma round_down_eq_ALIGN: "round_down = ALIGN"
  by (simp add: fun_eq_iff round_down_def ALIGN_def)

lemma unat_add_2p_minus_1:
  assumes "unat (x :: u64) + (2 ^ k - 1) < 2 ^ 64"
  shows "unat (x + 2 ^ k - 1) = unat x + (2 ^ k - 1)"
proof -
  define n :: nat where "n = 2 ^ k - 1"
  have n: "unat (of_nat n :: u64) = n"
    using assms by (intro unat_of_nat_64) (simp add: n_def)
  have "x + 2 ^ k - 1 = x + of_nat n"
    by (simp add: n_def of_nat_diff)
  also have "unat \<dots> = unat x + n"
    using assms unfolding n_def [symmetric] by (subst unat_add_no_wrap) (simp_all add: n)
  finally show ?thesis
    by (simp add: n_def)
qed

lemma unat_BALIGN:
  assumes "unat x + (2 ^ k - 1) < 2 ^ 64"
  shows "unat (BALIGN x (2 ^ k)) = 2 ^ k * ((unat x + (2 ^ k - 1)) div 2 ^ k)"
  unfolding BALIGN_def round_mask_2p unat_and_not_mask_div
  by (simp only: unat_add_2p_minus_1 [OF assms])

lemma round_up_eq_BALIGN: "round_up x (2 ^ k) = BALIGN x (2 ^ k)"
proof -
  define y where "y = x - 1"
  have "y OR mask k = y AND NOT (mask k) OR mask k"
    by (rule bit_eqI) (auto simp: bit_simps)
  also have "\<dots> = (y AND NOT (mask k)) + mask k"
    by (rule or_eq_add_disjoint, rule bit_eqI) (auto simp: bit_simps)
  finally have "(y OR mask k) + 1 = (y AND NOT (mask k)) + 2 ^ k"
    by (simp add: mask_eq_exp_minus_1)
  moreover have "(y + 2 ^ k) AND NOT (mask k) = (y AND NOT (mask k)) + 2 ^ k"
    by (simp add: and_not_mask_eq_sub take_bit_add_word [of k y] take_bit_2p_eq_0)
  ultimately show ?thesis
    by (simp add: round_up_def BALIGN_def round_mask_2p y_def algebra_simps)
qed

lemma bit_GENMASK: "h < 64 \<Longrightarrow> bit (GENMASK h l) n \<longleftrightarrow> l \<le> n \<and> n \<le> h"
  by (auto simp: GENMASK_def bit_simps)

text \<open>The sizes are the powers of two their names say, and \<^verbatim>\<open>INT_MIN\<close> and \<^verbatim>\<open>INT_MAX\<close> are the bounds of a C \<^verbatim>\<open>int\<close>.\<close>

lemma sizes:
  "SIZE_1K = 2 ^ 10" "SIZE_4K = 2 ^ 12" "SIZE_16K = 2 ^ 14" "SIZE_64K = 2 ^ 16" "SIZE_1M = 2 ^ 20" "SIZE_2M = 2 ^ 21" "SIZE_8M = 2 ^ 23"
  "SIZE_32M = 2 ^ 25" "SIZE_512M = 2 ^ 29" "SIZE_1G = 2 ^ 30"
  by (simp_all add: yios_consts)

lemma int32_range: "int32 i = Inr i \<longleftrightarrow> INT_MIN \<le> i \<and> i \<le> INT_MAX"
  by (auto simp: int32_def yios_consts)

lemma u32_halves: "u8_to_u32 u1 u2 u3 u4 = u16_to_u32 (ucast (u8_to_u16 u1 u2)) (ucast (u8_to_u16 u3 u4))"
  by (rule bit_eqI) (auto simp: u8_to_u32_def u16_to_u32_def u8_to_u16_def bit_simps dest: bit_imp_le_length)

section \<open>Properties\<close>

text \<open>
  For a power of two \<open>2\<^sup>k\<close>, \<^verbatim>\<open>ALIGN\<close> gives the largest multiple not above \<open>x\<close> and \<^verbatim>\<open>BALIGN\<close> (with
  \<^verbatim>\<open>round_up\<close>, which agrees with it) the smallest one not below, as long as that one fits 64 bits.
\<close>

theorem align_extremal:
  assumes "k < 64" and "unat x + (2 ^ k - 1) < 2 ^ 64"
  shows "2 ^ k dvd unat (ALIGN x (2 ^ k)) \<and> ALIGN x (2 ^ k) \<le> x \<and> unat x < unat (ALIGN x (2 ^ k)) + 2 ^ k \<and>
    2 ^ k dvd unat (BALIGN x (2 ^ k)) \<and> x \<le> BALIGN x (2 ^ k) \<and> unat (BALIGN x (2 ^ k)) < unat x + 2 ^ k \<and>
    round_up x (2 ^ k) = BALIGN x (2 ^ k) \<and> round_down x (2 ^ k) = ALIGN x (2 ^ k)"
proof -
  define S :: nat where "S = 2 ^ k"
  have S: "0 < S" by (simp add: S_def)
  have a: "unat (ALIGN x (2 ^ k)) = S * (unat x div S)"
    by (simp add: unat_ALIGN S_def)
  define c where "c = (unat x + (S - 1)) div S"
  have b: "unat (BALIGN x (2 ^ k)) = S * c"
    using unat_BALIGN [OF assms(2)] by (simp add: S_def c_def)
  have "S * (unat x div S) \<le> unat x" and "unat x < S * (unat x div S) + S"
    using dividend_less_times_div [OF S, of "unat x"] by (simp_all add: algebra_simps)
  moreover have "unat x \<le> S * c" and "S * c < unat x + S"
    using dividend_less_times_div [OF S, of "unat x + (S - 1)"] times_div_less_eq_dividend [of S "unat x + (S - 1)"] S
    unfolding c_def by linarith+
  ultimately show ?thesis
    using round_up_eq_BALIGN [of x k] round_down_eq_ALIGN
    by (simp add: word_le_nat_alt a b S_def [symmetric])
qed

theorem align_extremal_witness:
  "ALIGN 0x12345 0x1000 \<le> 0x12345 \<and> 0x12345 \<le> BALIGN 0x12345 0x1000 \<and> round_up 0x12345 0x1000 = 0x13000"
  using align_extremal [of 12 "0x12345"] by (simp add: BALIGN_def round_mask_def)

end
