(* ===== verification/Memory.thy ===== *)
theory Memory
  imports C_Types
begin

text \<open>
  Byte-addressed physical memory, and the string routines of the kernel on it: \<^verbatim>\<open>strlen\<close> and
  \<^verbatim>\<open>memcpy\<close> of \<^verbatim>\<open>lib/string.c\<close>, \<^verbatim>\<open>memset\<close> of \<^verbatim>\<open>arch/arm64/lib/memset.S\<close>. Memory is a function from
  64-bit addresses to bytes; a store of \<open>k\<close> bytes is little-endian, as on the target.

  The locale \<open>dword_store\<close> states what the page-table code relies on: a doubleword load sees the
  last doubleword store to the same aligned address and no other. It is interpreted on the byte
  memory.
\<close>

section \<open>Loads and stores\<close>

type_synonym mem = "u64 \<Rightarrow> u8"

definition store :: "nat \<Rightarrow> mem \<Rightarrow> u64 \<Rightarrow> u64 \<Rightarrow> mem" where
  "store k m a v =
     (\<lambda>x. if unat (x - a) < k then ucast (drop_bit (8 * unat (x - a)) v) else m x)"

abbreviation st64 :: "mem \<Rightarrow> u64 \<Rightarrow> u64 \<Rightarrow> mem" where
  "st64 \<equiv> store 8"

fun ld_bytes :: "nat \<Rightarrow> mem \<Rightarrow> u64 \<Rightarrow> u64" where
  "ld_bytes 0 m a = 0"
| "ld_bytes (Suc k) m a = push_bit 8 (ld_bytes k m (a + 1)) OR ucast (m a)"

abbreviation ld64 :: "mem \<Rightarrow> u64 \<Rightarrow> u64" where
  "ld64 \<equiv> ld_bytes 8"

text \<open>The byte order of the macros in \<^verbatim>\<open>types.h\<close> is the one of the target.\<close>

lemma u8_to_u32_load: "ucast (u8_to_u32 (m a) (m (a + 1)) (m (a + 2)) (m (a + 3))) = ld_bytes 4 m a"
proof -
  have a: "a + 1 + 1 = a + 2" "a + 2 + 1 = a + 3"
    by simp_all
  have "ld_bytes 4 m a = ld_bytes (Suc (Suc (Suc (Suc 0)))) m a"
    by (simp add: numeral_eq_Suc)
  also have "\<dots> = push_bit 8 (push_bit 8 (push_bit 8 (push_bit 8 0 OR ucast (m (a + 3))) OR ucast (m (a + 2))) OR ucast (m (a + 1))) OR
      ucast (m a)"
    by (simp only: ld_bytes.simps a)
  also have "\<dots> = ucast (u8_to_u32 (m a) (m (a + 1)) (m (a + 2)) (m (a + 3)))"
  proof -
    have p: "(ucast (push_bit k (ucast x :: u32)) :: u64) = push_bit k (ucast x)" if "k \<le> 24" for k and x :: u8
      using that by (intro bit_eqI) (auto simp: bit_simps dest: bit_imp_le_length)
    have z: "(ucast (ucast x :: u32) :: u64) = ucast x" for x :: u8
      using p [of 0 x] by simp
    show ?thesis
      unfolding u8_to_u32_def unsigned_or_eq by (simp only: p z push_bit_or push_bit_push_bit push_bit_of_0 or.left_neutral or.assoc) simp
  qed
  finally show ?thesis
    by (rule sym)
qed

definition aligned8 :: "u64 \<Rightarrow> bool" where
  "aligned8 a \<longleftrightarrow> unat a mod 8 = 0"

section \<open>The string routines\<close>

text \<open>\<^verbatim>\<open>strlen\<close>: the loop over \<^verbatim>\<open>sc\<close> returns only if it meets a NUL byte.\<close>

partial_function (option) strlen_loop :: "mem \<Rightarrow> u64 \<Rightarrow> u64 option" where
  "strlen_loop m sc = (if m sc \<noteq> 0 then strlen_loop m (sc + 1) else Some sc)"

declare strlen_loop.simps [code]

definition strlen :: "mem \<Rightarrow> u64 \<Rightarrow> u64 option" where
  "strlen m s = do { sc \<leftarrow> strlen_loop m s; Some (sc - s) }"

text \<open>\<^verbatim>\<open>memcpy\<close>: \<^verbatim>\<open>while (count--) *tmp++ = *s++;\<close> byte by byte, upwards.\<close>

fun memcpy_loop :: "nat \<Rightarrow> mem \<Rightarrow> u64 \<Rightarrow> u64 \<Rightarrow> mem" where
  "memcpy_loop 0 m tmp s = m"
| "memcpy_loop (Suc count) m tmp s = memcpy_loop count (m(tmp := m s)) (tmp + 1) (s + 1)"

definition memcpy :: "mem \<Rightarrow> u64 \<Rightarrow> u64 \<Rightarrow> u64 \<Rightarrow> u64 \<times> mem" where
  "memcpy m dest src count = (dest, memcpy_loop (unat count) m dest src)"

text \<open>
  \<^verbatim>\<open>memset\<close>: \<open>neg x\<close> is the N flag the \<^verbatim>\<open>subs\<close> or \<^verbatim>\<open>adds\<close> before a \<^verbatim>\<open>b.mi\<close>/\<^verbatim>\<open>b.pl\<close> sets. Label 1 is
  \<open>memset_dwords\<close>; labels 2, 3 and 4 store the remaining word, halfword and byte, each only if
  its size still fits.
\<close>

definition neg :: "u64 \<Rightarrow> bool" where
  "neg x \<longleftrightarrow> bit x 63"

lemma neg_iff: "neg x \<longleftrightarrow> 2 ^ 63 \<le> unat x"
proof -
  have "neg x \<longleftrightarrow> bit (unat x) 63"
    by (simp add: neg_def bit_unsigned_iff)
  then have "neg x \<longleftrightarrow> odd (unat x div 2 ^ 63)"
    by (simp only: bit_iff_odd)
  moreover have "unat x div 2 ^ 63 < 2"
    by (rule less_mult_imp_div_less) simp
  ultimately show ?thesis
    by (auto simp: less_2_cases_iff div_eq_0_iff)
qed

lemma memset_measure: "\<not> neg (x - 8) \<Longrightarrow> unat (x - 8) < unat x"
  using unat_lt_64 [of x] by (auto simp: neg_iff unat_sub_if' split: if_splits)

function memset_dwords :: "mem \<Rightarrow> u64 \<Rightarrow> u64 \<Rightarrow> u64 \<Rightarrow> mem \<times> u64 \<times> u64" where
  "memset_dwords m x1 x4 x2 =
     (let m' = store 8 m x4 x1; x4' = x4 + 8; x2' = x2 - 8 in
      if \<not> neg x2' then memset_dwords m' x1 x4' x2' else (m', x4', x2'))"
  by pat_completeness auto
termination
  by (relation "measure (\<lambda>(m, x1, x4, x2). unat x2)") (auto simp: memset_measure)

declare memset_dwords.simps [simp del]

definition memset_tail :: "nat \<Rightarrow> u64 \<Rightarrow> mem \<times> u64 \<times> u64 \<Rightarrow> mem \<times> u64 \<times> u64" where
  "memset_tail k x1 = (\<lambda>(m, x4, x2).
     let y = x2 + of_nat k in
     if neg y then (m, x4, y) else (store k m x4 x1, x4 + of_nat k, y - of_nat k))"

definition memset_byte :: "u64 \<Rightarrow> mem \<times> u64 \<times> u64 \<Rightarrow> mem" where
  "memset_byte x1 = (\<lambda>(m, x4, x2). if neg (x2 + 1) then m else store 1 m x4 x1)"

definition memset :: "mem \<Rightarrow> u64 \<Rightarrow> u8 \<Rightarrow> u64 \<Rightarrow> mem" where
  "memset m buf c n =
     (let w1 = ucast c :: u64;
          w1 = w1 OR push_bit 8 w1;
          w1 = w1 OR push_bit 16 w1;
          x1 = w1 OR push_bit 32 w1;
          x2 = n - 8;
          s1 = (if neg x2 then (m, buf, x2) else memset_dwords m x1 buf x2)
      in memset_byte x1 (memset_tail 2 x1 (memset_tail 4 x1 s1)))"

section \<open>Loads after stores\<close>

lemma bit_ld_bytes:
  "bit (ld_bytes k m a) n \<longleftrightarrow> n < 64 \<and> n div 8 < k \<and> bit (m (a + of_nat (n div 8))) (n mod 8)"
proof (induction k arbitrary: a n)
  case 0
  then show ?case by simp
next
  case (Suc k)
  show ?case
  proof (cases "n < 8")
    case True
    then show ?thesis
      by (auto simp: bit_simps)
  next
    case False
    then have "n div 8 = Suc ((n - 8) div 8)" and "n mod 8 = (n - 8) mod 8"
      by (simp_all add: le_div_geq le_mod_geq)
    moreover have "bit (m a) n = False"
      using False by (auto dest: bit_imp_le_length)
    ultimately show ?thesis
      using False by (auto simp: bit_simps Suc.IH algebra_simps)
  qed
qed

lemma ld_bytes_cong:
  "(\<And>i. i < k \<Longrightarrow> m' (a + of_nat i) = m (a + of_nat i)) \<Longrightarrow> ld_bytes k m' a = ld_bytes k m a"
  by (rule bit_eqI) (auto simp: bit_ld_bytes)

lemma ld64_st64_same: "ld64 (st64 m a v) a = v"
proof (rule bit_eqI)
  fix n
  show "bit (ld64 (st64 m a v) a) n = bit v n"
  proof (cases "n < 64")
    case True
    then have "n div 8 < 8"
      by (simp add: less_mult_imp_div_less)
    with True show ?thesis
      by (simp add: bit_ld_bytes store_def bit_simps unat_of_nat_64)
  qed (auto simp: bit_ld_bytes dest: bit_imp_le_length)
qed

lemma aligned8_other:
  assumes "aligned8 a" and "aligned8 b" and "a \<noteq> b" and "i < 8"
  shows "8 \<le> unat (b + of_nat i - a)"
proof -
  obtain p q where p: "unat a = 8 * p" and q: "unat b = 8 * q"
    using assms(1,2) by (auto simp: aligned8_def elim!: dvdE)
  then have "p \<noteq> q" and pq: "p < 2 ^ 61" "q < 2 ^ 61"
    using assms(3) unat_lt_64 [of a] unat_lt_64 [of b] by (auto simp: word_unat_eq_iff)
  have "unat (b + of_nat i) = 8 * q + i"
    using assms(4) pq q by (subst unat_add_no_wrap) (simp_all add: unat_of_nat_64)
  then show ?thesis
    using \<open>p \<noteq> q\<close> assms(4) pq p by (auto simp: unat_sub_if')
qed

lemma ld64_st64_other:
  "aligned8 a \<Longrightarrow> aligned8 b \<Longrightarrow> a \<noteq> b \<Longrightarrow> ld64 (st64 m a v) b = ld64 m b"
  by (rule ld_bytes_cong) (simp add: store_def aligned8_other leD)

locale dword_store =
  fixes ld :: "'m \<Rightarrow> u64 \<Rightarrow> u64"
    and st :: "'m \<Rightarrow> u64 \<Rightarrow> u64 \<Rightarrow> 'm"
    and slot :: "u64 \<Rightarrow> bool"
  assumes ld_st_same: "slot a \<Longrightarrow> ld (st m a v) a = v"
    and ld_st_other: "slot a \<Longrightarrow> slot b \<Longrightarrow> a \<noteq> b \<Longrightarrow> ld (st m a v) b = ld m b"
begin

lemma ld_st: "slot a \<Longrightarrow> slot b \<Longrightarrow> ld (st m a v) b = (if a = b then v else ld m b)"
  by (simp add: ld_st_same ld_st_other)

lemma ld_st_swap:
  "slot a \<Longrightarrow> slot b \<Longrightarrow> slot c \<Longrightarrow> a \<noteq> b \<Longrightarrow> ld (st (st m a v) b w) c = ld (st (st m b w) a v) c"
  by (auto simp: ld_st)

end

interpretation dw: dword_store ld64 st64 aligned8
  by unfold_locales (simp_all add: ld64_st64_same ld64_st64_other)

section \<open>memset\<close>

definition fill :: "mem \<Rightarrow> u64 \<Rightarrow> nat \<Rightarrow> u8 \<Rightarrow> mem" where
  "fill m a k c = (\<lambda>x. if unat (x - a) < k then c else m x)"

definition spread :: "u8 \<Rightarrow> u64 \<Rightarrow> bool" where
  "spread c x1 \<longleftrightarrow> (\<forall>n < 64. bit x1 n = bit c (n mod 8))"

lemma store_spread: "spread c x1 \<Longrightarrow> k \<le> 8 \<Longrightarrow> store k m a x1 = fill m a k c"
proof -
  assume s: "spread c x1" and k: "k \<le> 8"
  have "ucast (drop_bit (8 * j) x1) = c" if "j < k" for j
  proof (rule bit_eqI)
    fix n
    assume "possible_bit TYPE(8 word) n"
    then have "n < 8" by simp
    moreover from this that k have "8 * j + n < 64" by simp
    ultimately show "bit (ucast (drop_bit (8 * j) x1) :: u8) n = bit c n"
      using s by (simp add: bit_simps spread_def)
  qed
  then show ?thesis
    by (auto simp: store_def fill_def)
qed

lemma fill_0 [simp]: "fill m a 0 c = m"
  by (simp add: fill_def)

lemma window_split:
  assumes "j + k < 2 ^ 64"
  shows "unat (d - of_nat j :: u64) < k \<or> unat d < j \<longleftrightarrow> unat d < j + k"
proof -
  have "unat (of_nat j :: u64) = j"
    using assms by (simp add: unat_of_nat_64)
  then show ?thesis
    using assms by (auto simp: unat_sub_if' split: if_splits)
qed

lemma fill_fill:
  assumes "j + k < 2 ^ 64"
  shows "fill (fill m a j c) (a + of_nat j) k c = fill m a (j + k) c"
  using window_split [OF assms, of "x - a" for x]
  by (auto simp: fill_def fun_eq_iff diff_diff_eq)

lemma memset_dwords_spec:
  assumes "spread c x1" and "\<not> neg x2"
  shows "memset_dwords m x1 x4 x2 =
    (let N = unat x2 + 8; q = 8 * (N div 8) in
     (fill m x4 q c, x4 + of_nat q, of_nat (N mod 8) - 8))"
  using assms
proof (induction m x1 x4 x2 rule: memset_dwords.induct [case_names step])
  case (step m x1 x4 x2)
  have st: "store 8 m x4 x1 = fill m x4 8 c"
    using step.prems(1) by (simp add: store_spread)
  show ?case
  proof (cases "neg (x2 - 8)")
    case True
    then have "unat x2 < 8"
      using step.prems(2) by (auto simp: neg_iff unat_sub_if' split: if_splits)
    then have "(unat x2 + 8) div 8 = 1"
      by simp
    with True \<open>unat x2 < 8\<close> show ?thesis
      by (simp add: memset_dwords.simps [of m] st Let_def)
  next
    case False
    then have le: "8 \<le> unat x2" and lt: "unat x2 < 2 ^ 63"
      using step.prems(2) by (auto simp: neg_iff unat_sub_if' split: if_splits)
    define q where "q = 8 * (unat x2 div 8)"
    have q: "8 + q < 2 ^ 64"
      using lt by (simp add: q_def)
    have "unat (x2 - 8) + 8 = unat x2"
      using le by (simp add: unat_sub_if')
    with step.IH [OF refl refl refl False step.prems(1) False]
    have "memset_dwords (fill m x4 8 c) x1 (x4 + 8) (x2 - 8) =
        (fill (fill m x4 8 c) (x4 + 8) q c, x4 + 8 + of_nat q, of_nat (unat x2 mod 8) - 8)"
      by (simp add: st Let_def q_def)
    moreover have "fill (fill m x4 8 c) (x4 + 8) q c = fill m x4 (8 + q) c"
      using fill_fill [of 8 q m x4 c] q by simp
    moreover have "8 * ((unat x2 + 8) div 8) = 8 + q" and "(unat x2 + 8) mod 8 = unat x2 mod 8"
      by (simp_all add: q_def div_add_self2)
    ultimately show ?thesis
      using False by (simp add: memset_dwords.simps [of m] st Let_def algebra_simps del: of_nat_mult)
  qed
qed

lemma memset_tail_spec:
  assumes "spread c x1" and "0 < k" and "k \<le> 4" and "r < 2 * k"
  shows "memset_tail k x1 (m, x4, of_nat r - of_nat (2 * k)) =
    (fill m x4 (k * (r div k)) c, x4 + of_nat (k * (r div k)), of_nat (r mod k) - of_nat k)"
proof -
  have y: "of_nat r - of_nat (2 * k) + of_nat k = (of_nat r - of_nat k :: u64)"
    by simp
  show ?thesis
  proof (cases "r < k")
    case True
    with assms have "neg (of_nat r - of_nat k)"
      by (simp add: neg_iff unat_sub_if' unat_of_nat_64)
    with True show ?thesis
      unfolding memset_tail_def by (simp add: y)
  next
    case False
    then have "of_nat r - of_nat k = (of_nat (r - k) :: u64)"
      by (simp add: of_nat_diff)
    moreover have "unat (of_nat (r - k) :: u64) = r - k"
      using assms by (intro unat_of_nat_64) simp
    ultimately have "\<not> neg (of_nat r - of_nat k)"
      using assms by (simp add: neg_iff)
    moreover have "r div k = 1" "r mod k = r - k"
      using False assms(4) by (simp_all add: div_nat_eqI mod_nat_eqI le_mod_geq)
    ultimately show ?thesis
      using False assms(3) unfolding memset_tail_def
      by (simp add: y store_spread [OF assms(1)] of_nat_diff)
  qed
qed

definition spread_upto :: "nat \<Rightarrow> u8 \<Rightarrow> u64 \<Rightarrow> bool" where
  "spread_upto k c w \<longleftrightarrow> (\<forall>n < 64. bit w n = (n < k \<and> bit c (n mod 8)))"

lemma spread_upto_double:
  assumes "spread_upto (8 * k) c w"
  shows "spread_upto (16 * k) c (w OR push_bit (8 * k) w)"
proof -
  have "(n - 8 * k) mod 8 = n mod 8" if "8 * k \<le> n" for n
    using that by (metis le_add_diff_inverse2 mod_mult_self2)
  then show ?thesis
    using assms unfolding spread_upto_def by (auto simp: bit_simps)
qed

lemma spread_memset:
  fixes c :: u8
  defines "w0 \<equiv> ucast c :: u64"
  defines "w1 \<equiv> w0 OR push_bit 8 w0"
  defines "w2 \<equiv> w1 OR push_bit 16 w1"
  shows "spread c (w2 OR push_bit 32 w2)"
proof -
  have "spread_upto 8 c w0"
    using bit_imp_le_length [of c] by (force simp: spread_upto_def w0_def bit_simps)
  then have "spread_upto 64 c (w2 OR push_bit 32 w2)"
    using spread_upto_double [of 1 c w0] spread_upto_double [of 2 c w1] spread_upto_double [of 4 c w2]
    by (simp add: w1_def w2_def)
  then show ?thesis
    by (simp add: spread_def spread_upto_def)
qed

lemma neg_sub8: "unat n < 2 ^ 63 \<Longrightarrow> neg (n - 8) \<longleftrightarrow> unat n < 8"
  by (auto simp: neg_iff unat_sub_if' split: if_splits)

lemma memset_head_spec:
  assumes sp: "spread c x1" and n: "unat n < 2 ^ 63"
  shows "(if neg (n - 8) then (m, buf, n - 8) else memset_dwords m x1 buf (n - 8)) =
    (fill m buf (8 * (unat n div 8)) c, buf + of_nat (8 * (unat n div 8)), of_nat (unat n mod 8) - 8)"
proof (cases "unat n < 8")
  case True
  then show ?thesis
    by (simp add: neg_sub8 [OF n])
next
  case False
  then have "unat (n - 8) + 8 = unat n"
    by (simp add: unat_sub_if')
  moreover have "\<not> neg (n - 8)"
    using False by (simp add: neg_sub8 [OF n])
  ultimately show ?thesis
    by (simp add: memset_dwords_spec [OF sp] Let_def)
qed

lemma memset_fill:
  assumes n: "unat n < 2 ^ 63"
  shows "memset m buf c n = fill m buf (unat n) c"
proof -
  define w0 :: u64 where "w0 = ucast c"
  define w1 where "w1 = w0 OR push_bit 8 w0"
  define w2 where "w2 = w1 OR push_bit 16 w1"
  define x1 where "x1 = w2 OR push_bit 32 w2"
  have sp: "spread c x1"
    unfolding x1_def w2_def w1_def w0_def by (rule spread_memset)
  define q where "q = 8 * (unat n div 8)"
  define r where "r = unat n mod 8"
  have r: "r < 8" and qr: "unat n = q + r"
    by (simp_all add: r_def q_def)
  then have bd: "q + r < 2 ^ 63"
    using n by simp
  have t4: "memset_tail 4 x1 (fill m buf q c, buf + of_nat q, of_nat r - 8) =
      (fill m buf (q + 4 * (r div 4)) c, buf + of_nat (q + 4 * (r div 4)), of_nat (r mod 4) - 4)"
    using memset_tail_spec [OF sp, of 4 r "fill m buf q c" "buf + of_nat q"]
      fill_fill [of q "4 * (r div 4)" m buf c] r bd by (simp add: add.assoc)
  have t2: "memset_tail 2 x1 (fill m buf j c, buf + of_nat j, of_nat (r mod 4) - 4) =
      (fill m buf (j + 2 * (r mod 4 div 2)) c, buf + of_nat (j + 2 * (r mod 4 div 2)), of_nat (r mod 2) - 2)"
    if "j \<le> q + r" for j
    using memset_tail_spec [OF sp, of 2 "r mod 4" "fill m buf j c" "buf + of_nat j"]
      fill_fill [of j "2 * (r mod 4 div 2)" m buf c] that bd
    by (simp add: add.assoc mod_mod_cancel)
  have t1: "memset_byte x1 (fill m buf j c, buf + of_nat j, of_nat (r mod 2) - 2) =
      fill m buf (j + r mod 2) c" if "j \<le> q + r" for j
    using fill_fill [of j "r mod 2" m buf c] that bd
    by (cases "even r")
       (simp_all add: memset_byte_def neg_iff store_spread [OF sp] mod2_eq_if unsigned_minus_1_eq_mask mask_eq_exp_minus_1)
  have "r = 4 * (r div 4) + (2 * (r mod 4 div 2) + r mod 2)"
    by presburger
  then have "memset_byte x1 (memset_tail 2 x1 (memset_tail 4 x1
      (fill m buf q c, buf + of_nat q, of_nat r - 8))) = fill m buf (q + r) c"
    using r unfolding t4 by (subst t2, simp) (subst t1, simp, simp add: add.assoc)
  moreover have "memset m buf c n = memset_byte x1 (memset_tail 2 x1 (memset_tail 4 x1
      (fill m buf q c, buf + of_nat q, of_nat r - 8)))"
    unfolding memset_def Let_def w0_def [symmetric] w1_def [symmetric] w2_def [symmetric]
      x1_def [symmetric] memset_head_spec [OF sp n] q_def r_def by (rule refl)
  ultimately show ?thesis
    by (simp add: qr)
qed

lemma ld64_fill_zero:
  assumes "\<And>i. i < 8 \<Longrightarrow> unat (b + of_nat i - a) < k"
  shows "ld64 (fill m a k 0) b = 0"
  by (rule bit_eqI) (simp add: bit_ld_bytes fill_def assms less_mult_imp_div_less)

lemma ld64_fill_other:
  assumes "\<And>i. i < 8 \<Longrightarrow> k \<le> unat (b + of_nat i - a)"
  shows "ld64 (fill m a k c) b = ld64 m b"
  by (rule ld_bytes_cong) (simp add: fill_def leD assms)

section \<open>memcpy and strlen\<close>

lemma memcpy_loop_spec:
  assumes "k < 2 ^ 64" and "unat (d - s) = 0 \<or> k \<le> unat (d - s)"
  shows "memcpy_loop k m d s = (\<lambda>x. if unat (x - d) < k then m (s + (x - d)) else m x)"
  using assms
proof (induction k arbitrary: m d s)
  case 0
  then show ?case by simp
next
  case (Suc k)
  let ?m = "m(d := m s)"
  have IH: "memcpy_loop k ?m (d + 1) (s + 1) =
      (\<lambda>x. if unat (x - (d + 1)) < k then ?m (s + 1 + (x - (d + 1))) else ?m x)"
    using Suc.prems by (intro Suc.IH) auto
  show ?case
  proof
    fix x
    define e where "e = x - d"
    have x: "x = d + e" "x - (d + 1) = e - 1" "s + 1 + (x - (d + 1)) = s + e"
      by (simp_all add: e_def)
    have e1: "unat (e - 1) < k \<longleftrightarrow> e \<noteq> 0 \<and> unat e < Suc k"
    proof (cases "e = 0")
      case True
      then show ?thesis
        using Suc.prems(1) by (simp add: unsigned_minus_1_eq_mask mask_eq_exp_minus_1)
    next
      case False
      then have "0 < unat e"
        by (simp add: unat_gt_0)
      with False show ?thesis
        by (auto simp: unat_minus_one)
    qed
    have "s + e \<noteq> d" if "e \<noteq> 0" "unat e < Suc k"
      using Suc.prems(2) that by (auto simp: unat_eq_0)
    then show "memcpy_loop (Suc k) m d s x = (if unat (x - d) < Suc k then m (s + (x - d)) else m x)"
      using IH e1 unfolding memcpy_loop.simps x
      by (cases "e = 0") (auto simp: e_def [symmetric])
  qed
qed

lemma strlen_loop_run:
  assumes "\<forall>i < n. m (a + of_nat i) \<noteq> 0" and "m (a + of_nat n) = 0"
  shows "strlen_loop m a = Some (a + of_nat n)"
  using assms
proof (induction n arbitrary: a)
  case 0
  then show ?case by (simp add: strlen_loop.simps)
next
  case (Suc n)
  have "\<forall>i < n. m (a + 1 + of_nat i) \<noteq> 0"
    using Suc.prems(1) by (auto dest: spec [of _ "Suc i" for i] simp: add.assoc)
  moreover have "m (a + 1 + of_nat n) = 0"
    using Suc.prems(2) by (simp add: add.assoc)
  ultimately have "strlen_loop m (a + 1) = Some (a + 1 + of_nat n)"
    by (rule Suc.IH)
  moreover have "m a \<noteq> 0"
    using Suc.prems(1) by (auto dest: spec [of _ 0])
  ultimately show ?case
    by (simp add: strlen_loop.simps [of m a] add.assoc)
qed

lemma strlen_loop_NUL: "strlen_loop m a = Some r \<Longrightarrow> m r = 0"
  by (rule strlen_loop.raw_induct [where P = "\<lambda>m a r. m r = 0"]) (auto split: if_splits)

section \<open>Properties\<close>

text \<open>
  C29: The assembly \<^verbatim>\<open>memset\<close>, with its doubleword loop and its word, halfword and byte tails, writes the
  byte \<open>c\<close> to exactly the \<open>n\<close> addresses from \<open>buf\<close> and changes no other byte, for every length
  below \<open>2\<^sup>6\<^sup>3\<close>.
\<close>

theorem memset_exact:
  assumes "unat n < 2 ^ 63"
  shows "memset m buf c n = (\<lambda>x. if unat (x - buf) < unat n then c else m x)"
  using memset_fill [OF assms] by (simp add: fill_def)

theorem memset_exact_witness:
  "memset (\<lambda>_. 7) 0x1001 0xab 15 0x100f = 0xab \<and> memset (\<lambda>_. 7) 0x1001 0xab 15 0x1010 = 7"
  using memset_exact [of 15 "\<lambda>_. 7" "0x1001" "0xab"] by simp

text \<open>
  \<^verbatim>\<open>memcpy\<close> returns the destination and copies \<open>count\<close> bytes unchanged whenever the destination does
  not lie inside the source range after its start (the ascending copy handles an overlap in the
  other direction); no other byte changes.
\<close>

theorem memcpy_copies:
  assumes "unat (dest - src) = 0 \<or> unat count \<le> unat (dest - src)"
  shows "memcpy m dest src count =
    (dest, \<lambda>x. if unat (x - dest) < unat count then m (src + (x - dest)) else m x)"
  using memcpy_loop_spec [of "unat count" dest src m] assms by (simp add: memcpy_def)

theorem memcpy_copies_witness:
  "snd (memcpy (\<lambda>a. ucast a) 0x1000 0x1004 16) 0x100f = 0x13 \<and> snd (memcpy (\<lambda>a. ucast a) 0x1000 0x1004 16) 0x1010 = 0x10"
  using memcpy_copies [of "0x1000" "0x1004" 16 "\<lambda>a. ucast a"] by simp

text \<open>
  \<^verbatim>\<open>strlen\<close> returns \<open>n\<close> for a string whose first NUL is \<open>n\<close> bytes after its start; and when it
  returns, a NUL is what it found.
\<close>

theorem strlen_correct:
  assumes "\<forall>i < n. m (s + of_nat i) \<noteq> 0" and "m (s + of_nat n) = 0"
  shows "strlen m s = Some (of_nat n) \<and> (\<forall>r. strlen m s = Some r \<longrightarrow> m (s + r) = 0)"
  using strlen_loop_run [OF assms] assms(2) by (simp add: strlen_def)

theorem strlen_correct_witness: "strlen (\<lambda>a. if a = 0x1002 then 0 else 0x41) 0x1000 = Some 2"
proof -
  have "\<forall>i < 2. (if (0x1000 :: u64) + of_nat i = 0x1002 then 0 else 0x41 :: u8) \<noteq> 0"
    by (auto dest!: less_2_cases)
  then show ?thesis
    using strlen_correct [of 2 "\<lambda>a. if a = 0x1002 then 0 else 0x41" "0x1000"] by simp
qed

end
