(* ===== verification/Device.thy ===== *)
theory Device
  imports Memory
begin

text \<open>
  Device access: the register macros of \<^verbatim>\<open>asm/io.h\<close>, the peripheral addresses of \<^verbatim>\<open>asm/base.h\<close> and the
  system registers the timer code uses.

  The hardware is not part of the source. It is a parameter of the machine: what a register read
  returns is a function of everything that happened on the bus before, so a device may answer
  each read differently. The code's own effect is the trace it leaves on the bus, in order.
\<close>

section \<open>The machine\<close>

datatype sysreg = CNTP_CTL_EL0 | CNTP_TVAL_EL0 | CNTFRQ_EL0 | FAR_EL1

datatype io =
    Rd u64 u32
  | Wr u64 u32
  | Msr sysreg u64

record device =
  dev_read :: "io list \<Rightarrow> u64 \<Rightarrow> u32"
  dev_mrs :: "io list \<Rightarrow> sysreg \<Rightarrow> u64"

record machine =
  dev :: device
  trace :: "io list"
  ram :: mem

definition readl :: "u64 \<Rightarrow> machine \<Rightarrow> u32 \<times> machine" where
  "readl c s = (let v = dev_read (dev s) (trace s) c in (v, s\<lparr>trace := trace s @ [Rd c v]\<rparr>))"

definition writel :: "u32 \<Rightarrow> u64 \<Rightarrow> machine \<Rightarrow> machine" where
  "writel v c s = s\<lparr>trace := trace s @ [Wr c v]\<rparr>"

definition read_sysreg :: "sysreg \<Rightarrow> machine \<Rightarrow> u64" where
  "read_sysreg r s = dev_mrs (dev s) (trace s) r"

definition write_sysreg :: "u64 \<Rightarrow> sysreg \<Rightarrow> machine \<Rightarrow> machine" where
  "write_sysreg v r s = s\<lparr>trace := trace s @ [Msr r v]\<rparr>"

definition PBASE :: u64 where [yios_consts]: "PBASE = 0xFE000000"
definition ARM_LOCAL_BASE :: u64 where [yios_consts]: "ARM_LOCAL_BASE = 0xff800000"
definition DEVICE_SIZE :: u64 where [yios_consts]: "DEVICE_SIZE = 0x2000000"
definition GIC400_DISTRIBUTOR_BASE :: u64 where [yios_consts]: "GIC400_DISTRIBUTOR_BASE = 0x1000"
definition GIC400_CPU_INTERFACE_BASE :: u64 where [yios_consts]: "GIC400_CPU_INTERFACE_BASE = 0x2000"
definition GIC_V2_DISTRIBUTOR_BASE :: u64 where [yios_consts]: "GIC_V2_DISTRIBUTOR_BASE = ARM_LOCAL_BASE + 0x00041000"
definition GIC_V2_CPU_INTERFACE_BASE :: u64 where [yios_consts]: "GIC_V2_CPU_INTERFACE_BASE = ARM_LOCAL_BASE + 0x00042000"

lemma writel_simps [simp]:
  "dev (writel v c s) = dev s" "ram (writel v c s) = ram s" "trace (writel v c s) = trace s @ [Wr c v]"
  by (simp_all add: writel_def)

lemma write_sysreg_simps [simp]:
  "dev (write_sysreg v r s) = dev s" "ram (write_sysreg v r s) = ram s"
  "trace (write_sysreg v r s) = trace s @ [Msr r v]"
  by (simp_all add: write_sysreg_def)

section \<open>Polling\<close>

text \<open>
  \<^verbatim>\<open>while (readl(reg) & bits) ;\<close> returns only if the device clears the bits at some time. \<open>polled k\<close>
  is the machine after \<open>k\<close> reads of the register.
\<close>

partial_function (option) poll_clear :: "u64 \<Rightarrow> u32 \<Rightarrow> machine \<Rightarrow> machine option" where
  "poll_clear c bits s =
     (let (v, s) = readl c s in if v AND bits \<noteq> 0 then poll_clear c bits s else Some s)"

declare poll_clear.simps [code]

primrec polled :: "u64 \<Rightarrow> nat \<Rightarrow> machine \<Rightarrow> machine" where
  "polled c 0 s = s"
| "polled c (Suc k) s = polled c k (snd (readl c s))"

lemma polled_simps [simp]: "dev (polled c k s) = dev s" "ram (polled c k s) = ram s"
  by (induction k arbitrary: s) (simp_all add: readl_def Let_def)

lemma polled_trace: "\<exists>vs. trace (polled c k s) = trace s @ map (Rd c) vs"
proof (induction k arbitrary: s)
  case 0
  show ?case by (rule exI [of _ "[]"]) simp
next
  case (Suc k)
  obtain vs where "trace (polled c k (snd (readl c s))) = trace (snd (readl c s)) @ map (Rd c) vs"
    using Suc by blast
  then show ?case
    by (intro exI [of _ "dev_read (dev s) (trace s) c # vs"]) (simp add: readl_def Let_def)
qed

lemma poll_clear_returns:
  assumes "fst (readl c (polled c k s)) AND bits = 0"
  shows "\<exists>j. poll_clear c bits s = Some (polled c j s)"
  using assms
proof (induction k arbitrary: s)
  case 0
  then have "poll_clear c bits s = Some (polled c 1 s)"
    by (simp add: poll_clear.simps [of c bits s] case_prod_beta)
  then show ?case by blast
next
  case (Suc k)
  show ?case
  proof (cases "fst (readl c s) AND bits = 0")
    case True
    then have "poll_clear c bits s = Some (polled c 1 s)"
      by (simp add: poll_clear.simps [of c bits s] case_prod_beta)
    then show ?thesis by blast
  next
    case False
    then have "poll_clear c bits s = poll_clear c bits (snd (readl c s))"
      by (simp add: poll_clear.simps [of c bits s] case_prod_beta)
    moreover obtain j where "poll_clear c bits (snd (readl c s)) = Some (polled c j (snd (readl c s)))"
      using Suc by auto
    ultimately have "poll_clear c bits s = Some (polled c (Suc j) s)"
      by simp
    then show ?thesis by blast
  qed
qed

section \<open>Sinks for characters\<close>

text \<open>
  What the console promises its clients: as long as \<open>ok\<close> holds, which every \<open>put\<close> keeps, a character
  is accepted, \<open>sent\<close> grows by its encoding, and \<open>rest\<close>, all else a client may rely on, stays.
\<close>

primrec put_each :: "('c \<Rightarrow> 's \<Rightarrow> fault + 's) \<Rightarrow> 'c list \<Rightarrow> 's \<Rightarrow> fault + 's" where
  "put_each put [] s = Inr s"
| "put_each put (c # cs) s = ebind (put c s) (put_each put cs)"

lemma put_each_one [simp]: "put_each put [c] = put c"
proof
  show "put_each put [c] s = put c s" for s
    by (cases "put c s") auto
qed

lemma put_each_append: "put_each put (xs @ ys) s = ebind (put_each put xs s) (put_each put ys)"
proof (induction xs arbitrary: s)
  case (Cons x xs)
  then show ?case by (cases "put x s") simp_all
qed simp

locale char_sink =
  fixes ok :: "'s \<Rightarrow> bool"
    and put :: "char \<Rightarrow> 's \<Rightarrow> fault + 's"
    and enc :: "char \<Rightarrow> string"
    and sent :: "'s \<Rightarrow> string"
    and rest :: "'s \<Rightarrow> 'r"
  assumes put_ok: "ok s \<Longrightarrow> \<exists>s'. put c s = Inr s' \<and> ok s' \<and> sent s' = sent s @ enc c \<and> rest s' = rest s"
begin

lemma put_each_ok:
  "ok s \<Longrightarrow> \<exists>s'. put_each put cs s = Inr s' \<and> ok s' \<and> sent s' = sent s @ concat (map enc cs) \<and> rest s' = rest s"
proof (induction cs arbitrary: s)
  case Nil
  then show ?case by simp
next
  case (Cons c cs)
  obtain s1 where s1: "put c s = Inr s1" "ok s1" "sent s1 = sent s @ enc c" "rest s1 = rest s"
    using put_ok [OF Cons.prems] by blast
  from Cons.IH [OF s1(2)] s1 show ?case
    by auto
qed

end

end
