(* ===== verification/Uart.thy ===== *)
theory Uart
  imports Device
begin

text \<open>
  The PL011 serial driver: \<^verbatim>\<open>drivers/serial/pl_uart.c\<close> with the registers of \<^verbatim>\<open>asm/pl_uart.h\<close> and
  \<^verbatim>\<open>asm/gpio.h\<close>. A C \<^verbatim>\<open>char\<close> is unsigned on the target. The console is a sink for characters:
  \<open>char_sink\<close> is interpreted on \<^verbatim>\<open>uart_send\<close> and on \<^verbatim>\<open>putchar\<close>, for devices whose transmit queue always
  drains in the end.
\<close>

section \<open>Registers\<close>

definition GPFSEL1 :: u64 where [yios_consts]: "GPFSEL1 = PBASE + 0x00200004"
definition GPSET0 :: u64 where [yios_consts]: "GPSET0 = PBASE + 0x0020001C"
definition GPCLR0 :: u64 where [yios_consts]: "GPCLR0 = PBASE + 0x00200028"
definition GPPUD :: u64 where [yios_consts]: "GPPUD = PBASE + 0x00200094"
definition GPPUDCLK0 :: u64 where [yios_consts]: "GPPUDCLK0 = PBASE + 0x00200098"
definition GPIO_PUP_PDN_CNTRL_REG0 :: u64 where [yios_consts]: "GPIO_PUP_PDN_CNTRL_REG0 = PBASE + 0x002000E4"

definition U_BASE :: u64 where [yios_consts]: "U_BASE = PBASE + 0x00201000"
definition U_DATA_REG :: u64 where [yios_consts]: "U_DATA_REG = U_BASE"
definition U_FR_REG :: u64 where [yios_consts]: "U_FR_REG = U_BASE + 0x18"
definition U_IBRD_REG :: u64 where [yios_consts]: "U_IBRD_REG = U_BASE + 0x24"
definition U_FBRD_REG :: u64 where [yios_consts]: "U_FBRD_REG = U_BASE + 0x28"
definition U_LCRH_REG :: u64 where [yios_consts]: "U_LCRH_REG = U_BASE + 0x2C"
definition U_CR_REG :: u64 where [yios_consts]: "U_CR_REG = U_BASE + 0x30"
definition U_IMSC_REG :: u64 where [yios_consts]: "U_IMSC_REG = U_BASE + 0x38"

section \<open>The driver\<close>

definition uart_send :: "char \<Rightarrow> machine \<Rightarrow> fault + machine" where
  "uart_send c s =
     ebind (of_opt Diverges (poll_clear U_FR_REG (push_bit 5 1) s)) (\<lambda>s.
       Inr (writel (ord c) U_DATA_REG s))"

definition uart_recv :: "machine \<Rightarrow> fault + char \<times> machine" where
  "uart_recv s =
     ebind (of_opt Diverges (poll_clear U_FR_REG (push_bit 4 1) s)) (\<lambda>s.
       let (v, s) = readl U_DATA_REG s in Inr (chr (v AND 0xFF), s))"

text \<open>The index of \<^verbatim>\<open>uart_send_string\<close> is an \<^verbatim>\<open>int\<close>, which a string without NUL makes overflow.\<close>

function uart_send_string_from :: "int \<Rightarrow> u64 \<Rightarrow> machine \<Rightarrow> fault + machine" where
  "uart_send_string_from i str s =
     (let c = ram s (str + of_int i) in
      if c \<noteq> 0
      then ebind (uart_send (chr c) s) (\<lambda>s.
             if i + 1 < 2 ^ 31 then uart_send_string_from (i + 1) str s else Inl Signed_Overflow)
      else Inr s)"
  by pat_completeness auto
termination
  by (relation "measure (\<lambda>(i, str, s). nat (2 ^ 31 - i))") auto

declare uart_send_string_from.simps [simp del]

definition uart_send_string :: "u64 \<Rightarrow> machine \<Rightarrow> fault + machine" where
  "uart_send_string str s = uart_send_string_from 0 str s"

definition uart_init :: "machine \<Rightarrow> machine" where
  "uart_init s =
     (let (selector, s) = readl GPFSEL1 s;
          selector = selector AND NOT (push_bit 12 7);
          selector = selector OR push_bit 12 4;
          selector = selector AND NOT (push_bit 15 7);
          selector = selector OR push_bit 15 4;
          s = writel selector GPFSEL1 s;
          (selector, s) = readl GPIO_PUP_PDN_CNTRL_REG0 s;
          selector = selector OR (push_bit 30 0x2 OR push_bit 28 0x2);
          s = writel selector GPIO_PUP_PDN_CNTRL_REG0 s;
          s = writel 0 U_CR_REG s;
          s = writel 26 U_IBRD_REG s;
          s = writel 3 U_FBRD_REG s;
          s = writel (push_bit 4 1 OR push_bit 5 3) U_LCRH_REG s;
          s = writel 0 U_IMSC_REG s
      in writel (1 OR push_bit 8 1 OR push_bit 9 1) U_CR_REG s)"

definition putchar :: "char \<Rightarrow> machine \<Rightarrow> fault + machine" where
  "putchar c s =
     ebind (if c = CHR ''\<newline>'' then uart_send (CHR 0x0D) s else Inr s) (uart_send c)"

section \<open>The console as a sink\<close>

text \<open>
  The transmit queue drains: however the bus was used before, repeated reads of the flag register
  show room at some time (PL011: TXFF is cleared as characters leave the FIFO).
\<close>

definition tx_ready :: "machine \<Rightarrow> bool" where
  "tx_ready s \<longleftrightarrow> (\<forall>tr m. \<exists>k. fst (readl U_FR_REG (polled U_FR_REG k \<lparr>dev = dev s, trace = tr, ram = m\<rparr>)) AND push_bit 5 1 = 0)"

text \<open>What the serial line carries, and the bus traffic that is not the console's.\<close>

definition uart_out :: "io list \<Rightarrow> string" where
  "uart_out tr = concat (map (\<lambda>e. case e of Wr a v \<Rightarrow> if a = U_DATA_REG then [chr v] else [] | _ \<Rightarrow> []) tr)"

definition console_io :: "io \<Rightarrow> bool" where
  "console_io e = (case e of Rd a v \<Rightarrow> a = U_FR_REG | Wr a v \<Rightarrow> a = U_DATA_REG | Msr r v \<Rightarrow> False)"

definition bus :: "io list \<Rightarrow> io list" where
  "bus tr = filter (\<lambda>e. \<not> console_io e) tr"

definition uart_rest :: "machine \<Rightarrow> device \<times> mem \<times> io list" where
  "uart_rest s = (dev s, ram s, bus (trace s))"

lemma uart_out_simps [simp]:
  "uart_out [] = []" "uart_out (xs @ ys) = uart_out xs @ uart_out ys" "uart_out (map (Rd a) vs) = []"
  "uart_out (Wr a v # xs) = (if a = U_DATA_REG then chr v # uart_out xs else uart_out xs)"
  "uart_out (Rd a v # xs) = uart_out xs" "uart_out (Msr r w # xs) = uart_out xs"
  by (simp_all add: uart_out_def comp_def)

lemma bus_simps [simp]:
  "bus [] = []" "bus (xs @ ys) = bus xs @ bus ys" "bus (map (Rd U_FR_REG) vs) = []"
  "bus (Wr a v # xs) = (if a = U_DATA_REG then bus xs else Wr a v # bus xs)"
  "bus (Rd a v # xs) = (if a = U_FR_REG then bus xs else Rd a v # bus xs)" "bus (Msr r w # xs) = Msr r w # bus xs"
  by (simp_all add: bus_def console_io_def filter_empty_conv)

lemma tx_ready_dev: "dev s = dev s' \<Longrightarrow> tx_ready s = tx_ready s'"
  by (simp add: tx_ready_def)

lemma uart_send_ok:
  assumes "tx_ready s"
  shows "\<exists>s'. uart_send c s = Inr s' \<and> tx_ready s' \<and> uart_out (trace s') = uart_out (trace s) @ [c] \<and>
    uart_rest s' = uart_rest s"
proof -
  have "s = \<lparr>dev = dev s, trace = trace s, ram = ram s\<rparr>"
    by simp
  then obtain k where "fst (readl U_FR_REG (polled U_FR_REG k s)) AND push_bit 5 1 = 0"
    using assms unfolding tx_ready_def by metis
  then obtain j where j: "poll_clear U_FR_REG (push_bit 5 1) s = Some (polled U_FR_REG j s)"
    using poll_clear_returns by blast
  obtain vs where "trace (polled U_FR_REG j s) = trace s @ map (Rd U_FR_REG) vs"
    using polled_trace by blast
  moreover have "uart_send c s = Inr (writel (ord c) U_DATA_REG (polled U_FR_REG j s))"
    by (simp only: uart_send_def j of_opt_def option.case ebind.simps)
  moreover have "tx_ready (writel (ord c) U_DATA_REG (polled U_FR_REG j s))"
    by (rule iffD1 [OF tx_ready_dev assms]) simp
  ultimately show ?thesis
    by (simp add: uart_rest_def)
qed

definition crlf :: "char \<Rightarrow> string" where
  "crlf c = (if c = CHR ''\<newline>'' then [CHR 0x0D, c] else [c])"

interpretation us: char_sink tx_ready uart_send "\<lambda>c. [c]" "\<lambda>s. uart_out (trace s)" uart_rest
  by unfold_locales (rule uart_send_ok)

interpretation pc: char_sink tx_ready putchar crlf "\<lambda>s. uart_out (trace s)" uart_rest
proof unfold_locales
  fix s c
  assume ok: "tx_ready s"
  show "\<exists>s'. putchar c s = Inr s' \<and> tx_ready s' \<and> uart_out (trace s') = uart_out (trace s) @ crlf c \<and>
    uart_rest s' = uart_rest s"
  proof (cases "c = CHR ''\<newline>''")
    case True
    then show ?thesis
      using us.put_each_ok [OF ok, of "[CHR 0x0D] @ [c]"] by (auto simp: putchar_def crlf_def put_each_append)
  next
    case False
    then show ?thesis
      using uart_send_ok [OF ok, of c] by (auto simp: putchar_def crlf_def)
  qed
qed

section \<open>Strings\<close>

text \<open>\<open>c_str m a cs\<close>: memory holds the characters \<open>cs\<close>, none of them NUL, at \<open>a\<close>, and a NUL behind them.\<close>

definition c_str :: "mem \<Rightarrow> u64 \<Rightarrow> string \<Rightarrow> bool" where
  "c_str m a cs \<longleftrightarrow> CHR 0x00 \<notin> set cs \<and> length cs < 2 ^ 31 \<and>
     (\<forall>i < length cs. m (a + of_nat i) = ord (cs ! i)) \<and> m (a + of_nat (length cs)) = 0"

lemma ord_eq_0 [simp]: "ord c = (0 :: u8) \<longleftrightarrow> c = CHR 0x00"
proof -
  have "ord c = (0 :: u8) \<Longrightarrow> c = chr (0 :: u8)"
    using chr_ord [of c, where 'a = 8] by simp
  moreover have "char_of (0 :: nat) = CHR 0x00"
    by code_simp
  ultimately show ?thesis
    by (auto simp: chr_def ord_def)
qed

lemma uart_rest_eqD:
  "uart_rest s' = uart_rest s \<Longrightarrow> ram s' = ram s \<and> dev s' = dev s \<and> bus (trace s') = bus (trace s)"
  by (simp add: uart_rest_def)

lemma uart_send_string_from_each:
  assumes "tx_ready s" and "c_str (ram s) str cs" and "i \<le> length cs"
  shows "uart_send_string_from (int i) str s = put_each uart_send (drop i cs) s"
  using assms
proof (induction "length cs - i" arbitrary: i s)
  case 0
  then show ?case
    by (simp add: uart_send_string_from.simps c_str_def)
next
  case (Suc n)
  then have i: "i < length cs"
    by simp
  then have d: "drop i cs = cs ! i # drop (Suc i) cs"
    by (simp add: Cons_nth_drop_Suc)
  have c: "ram s (str + of_nat i) = ord (cs ! i)" "cs ! i \<noteq> CHR 0x00" "int i + 1 < 2 ^ 31"
    using Suc.prems(2) i nth_mem [OF i] unfolding c_str_def by (simp, metis, simp)
  obtain s1 where s1: "uart_send (cs ! i) s = Inr s1" "tx_ready s1" "uart_rest s1 = uart_rest s"
    using uart_send_ok [OF Suc.prems(1)] by blast
  have "uart_send_string_from (int (Suc i)) str s1 = put_each uart_send (drop (Suc i) cs) s1"
    using Suc.prems(2) i uart_rest_eqD [OF s1(3)] by (intro Suc.hyps(1)) (use Suc.hyps(2) s1 in auto)
  then show ?case
    using c by (simp add: uart_send_string_from.simps [of "int i"] d s1 add.commute)
qed

section \<open>Properties\<close>

text \<open>
  On a line that drains, \<^verbatim>\<open>uart_send_string\<close> terminates and sends exactly the characters of the string,
  in order and without its NUL; it touches no register but the console's and no memory.
\<close>

theorem uart_send_string_sends:
  assumes "tx_ready s" and "c_str (ram s) str cs"
  shows "\<exists>s'. uart_send_string str s = Inr s' \<and> uart_out (trace s') = uart_out (trace s) @ cs \<and>
    bus (trace s') = bus (trace s) \<and> ram s' = ram s"
  using us.put_each_ok [OF assms(1), of cs] uart_send_string_from_each [OF assms, of 0]
  by (auto simp: uart_send_string_def uart_rest_def)

definition idle_dev :: device where
  "idle_dev = \<lparr>dev_read = (\<lambda>_ _. 0), dev_mrs = (\<lambda>_ _. 54000000)\<rparr>"

definition hi_machine :: machine where
  "hi_machine = \<lparr>dev = idle_dev, trace = [], ram = (\<lambda>a. if a = 0x1000 then ord (CHR ''H'') else if a = 0x1001 then ord (CHR ''i'') else 0)\<rparr>"

lemma idle_tx_ready: "dev s = idle_dev \<Longrightarrow> tx_ready s"
  by (auto simp: tx_ready_def readl_def idle_dev_def Let_def)

theorem uart_send_string_sends_witness:
  "\<exists>s'. uart_send_string 0x1000 hi_machine = Inr s' \<and> uart_out (trace s') = ''Hi''"
proof -
  have "c_str (ram hi_machine) 0x1000 ''Hi''"
    by (auto simp: c_str_def hi_machine_def less_Suc_eq)
  moreover have "tx_ready hi_machine"
    by (rule idle_tx_ready) (simp add: hi_machine_def)
  ultimately show ?thesis
    using uart_send_string_sends [of hi_machine "0x1000" "''Hi''"] by (auto simp: hi_machine_def)
qed

text \<open>
  \<^verbatim>\<open>uart_init\<close> selects the alternate function 0 (code 4) for pins 14 and 15 and leaves the other
  pins of the register as they were, then programs the UART only while it is disabled: it is
  switched off first, gets its divisor (26 + 3/64), frame format and interrupt mask, and is
  enabled, for receive and transmit, by the last write.
\<close>

theorem uart_init_configures:
  "\<exists>g p p'. trace (uart_init s) = trace s @
     [Rd GPFSEL1 (dev_read (dev s) (trace s) GPFSEL1), Wr GPFSEL1 g, Rd GPIO_PUP_PDN_CNTRL_REG0 p, Wr GPIO_PUP_PDN_CNTRL_REG0 p',
      Wr U_CR_REG 0, Wr U_IBRD_REG 26, Wr U_FBRD_REG 3, Wr U_LCRH_REG 0x70, Wr U_IMSC_REG 0, Wr U_CR_REG 0x301] \<and>
     take_bit 3 (drop_bit 12 g) = 4 \<and> take_bit 3 (drop_bit 15 g) = 4 \<and>
     (\<forall>n. n \<notin> {12..<18} \<longrightarrow> bit g n = bit (dev_read (dev s) (trace s) GPFSEL1) n) \<and>
     bit p' 29 \<and> bit p' 31 \<and> (\<forall>n. n \<noteq> 29 \<and> n \<noteq> 31 \<longrightarrow> bit p' n = bit p n)"
proof -
  define v where "v = dev_read (dev s) (trace s) GPFSEL1"
  define g where "g = (((v AND NOT (push_bit 12 7)) OR push_bit 12 4) AND NOT (push_bit 15 7)) OR push_bit 15 4"
  define p where "p = dev_read (dev s) (trace s @ [Rd GPFSEL1 v, Wr GPFSEL1 g]) GPIO_PUP_PDN_CNTRL_REG0"
  define p' where "p' = p OR (push_bit 30 0x2 OR push_bit 28 0x2)"
  have b7: "bit (7 :: u32) n \<longleftrightarrow> n < 3" and b4: "bit (4 :: u32) n \<longleftrightarrow> n = 2" and b2: "bit (2 :: u32) n \<longleftrightarrow> n = 1" for n
    using bit_mask_iff [of 3 n, where 'a = u32] bit_exp_iff [of 2 n, where 'a = u32] bit_exp_iff [of 1 n, where 'a = u32]
    by (auto simp: mask_eq_exp_minus_1)
  have bg: "bit g n \<longleftrightarrow> n < 32 \<and> (n = 14 \<or> n = 17 \<or> n \<notin> {12..<18} \<and> bit v n)" for n
    unfolding g_def bit_or_iff bit_and_iff bit_not_iff bit_push_bit_iff b7 b4
    by (auto dest: bit_imp_le_length)
  have "trace (uart_init s) = trace s @
     [Rd GPFSEL1 v, Wr GPFSEL1 g, Rd GPIO_PUP_PDN_CNTRL_REG0 p, Wr GPIO_PUP_PDN_CNTRL_REG0 p',
      Wr U_CR_REG 0, Wr U_IBRD_REG 26, Wr U_FBRD_REG 3, Wr U_LCRH_REG 0x70, Wr U_IMSC_REG 0, Wr U_CR_REG 0x301]"
    by (simp add: uart_init_def readl_def Let_def v_def g_def p_def p'_def)
  moreover have "take_bit 3 (drop_bit 12 g) = 4" "take_bit 3 (drop_bit 15 g) = 4"
    by (rule bit_eqI, unfold bit_take_bit_iff bit_drop_bit_eq comp_def bg b4, fastforce)+
  moreover have "\<forall>n. n \<notin> {12..<18} \<longrightarrow> bit g n = bit v n"
    by (auto simp: bg dest: bit_imp_le_length)
  moreover have "bit p' 29 \<and> bit p' 31 \<and> (\<forall>n. n \<noteq> 29 \<and> n \<noteq> 31 \<longrightarrow> bit p' n = bit p n)"
    unfolding p'_def bit_or_iff bit_push_bit_iff b2 by auto
  ultimately show ?thesis
    unfolding v_def by blast
qed

theorem uart_init_configures_witness:
  "\<exists>g. Wr GPFSEL1 g \<in> set (trace (uart_init hi_machine)) \<and> take_bit 3 (drop_bit 12 g) = 4 \<and> \<not> bit g 0"
  using uart_init_configures [of hi_machine] by (auto simp: hi_machine_def idle_dev_def)

end
