(* ===== verification/Printk.thy ===== *)
theory Printk
  imports Uart
begin

text \<open>
  The formatted output of \<^verbatim>\<open>kernel/printk.c\<close>: \<^verbatim>\<open>number\<close>, the conversions of \<^verbatim>\<open>myprintf\<close>, and \<^verbatim>\<open>printk\<close> on top of
  the console.

  A pointer into the format is the rest of the format string, with NUL behind its end; the output
  pointer is the list of characters written so far. Arguments are the 64-bit slots \<^verbatim>\<open>va_arg\<close> reads
  from. C \<^verbatim>\<open>int\<close>s are \<^typ>\<open>int\<close> with the overflow fault written out. The variable \<^verbatim>\<open>base\<close> of \<^verbatim>\<open>myprintf\<close> is
  declared outside the loop without a value and only set by some conversions: it is \<^const>\<open>None\<close> until
  then and keeps its value from one conversion to the next.
\<close>

section \<open>Numbers\<close>

definition CONSOLE_PRINT_BUFFER_SIZE :: nat where [yios_consts]: "CONSOLE_PRINT_BUFFER_SIZE = 1024"

definition ZEROPAD :: u32 where "ZEROPAD = 1"
definition SIGN :: u32 where "SIGN = 2"
definition PLUS :: u32 where "PLUS = 4"
definition SPACE :: u32 where "SPACE = 8"
definition LEFT :: u32 where "LEFT = 16"
definition SPECIAL :: u32 where "SPECIAL = 32"
definition SMALL :: u32 where "SMALL = 64"

lemmas flag_defs = ZEROPAD_def SIGN_def PLUS_def SPACE_def LEFT_def SPECIAL_def SMALL_def

definition NUL :: char where "NUL = CHR 0x00"

definition is_digit :: "char \<Rightarrow> bool" where
  "is_digit c \<longleftrightarrow> of_char (CHR ''0'') \<le> (of_char c :: nat) \<and> (of_char c :: nat) \<le> of_char (CHR ''9'')"

definition do_div :: "u64 \<Rightarrow> u32 \<Rightarrow> u32 \<times> u64" where
  "do_div n base = (ucast (n mod ucast base), n div ucast base)"

fun scan_number_from :: "int \<Rightarrow> string \<Rightarrow> fault + string \<times> int" where
  "scan_number_from tmp [] = Inr ([], tmp)"
| "scan_number_from tmp (c # s) =
     (if is_digit c
      then ebind (int32 (tmp * 10)) (\<lambda>tmp.
           ebind (int32 (tmp + (of_char c - of_char (CHR ''0'')))) (\<lambda>tmp. scan_number_from tmp s))
      else Inr (c # s, tmp))"

definition scan_number :: "string \<Rightarrow> fault + string \<times> int" where
  "scan_number s = scan_number_from 0 s"

definition upper_digits :: string where "upper_digits = ''0123456789ABCDEFGHIJKLMNOPQRSTUVWXYZ''"
definition lower_digits :: string where "lower_digits = ''0123456789abcdefghijklmnopqrstuvwxyz''"

text \<open>
  The digits of a number into \<^verbatim>\<open>tmp\<close>, least significant first. The loop runs with \<^verbatim>\<open>base\<close> at least 2,
  which \<^verbatim>\<open>number\<close> checks before; for a smaller base the model stops.
\<close>

function digits_into :: "string \<Rightarrow> u32 \<Rightarrow> u64 \<Rightarrow> string \<Rightarrow> string" where
  "digits_into digits base num tmp =
     (if num = 0 \<or> base < 2 then tmp
      else let (r, num) = do_div num base in digits_into digits base num (tmp @ [digits ! unat r]))"
  by pat_completeness auto
termination
proof (relation "measure (\<lambda>(digits, base, num, tmp). unat num)", goal_cases)
  case (2 digits base num tmp x r num')
  then have n: "unat num' = unat num div unat base" and b: "2 \<le> unat base" and "0 < unat num"
    by (auto simp: do_div_def unat_div word_less_nat_alt unat_gt_0)
  then have "unat num div unat base < unat num"
    by (intro div_less_dividend) auto
  with n show ?case by simp
qed simp

declare digits_into.simps [simp del]

text \<open>\<^verbatim>\<open>while (size-- > 0) *str++ = c;\<close> with the final value of \<^verbatim>\<open>size\<close>.\<close>

function pad_while :: "char \<Rightarrow> int \<Rightarrow> string \<Rightarrow> int \<times> string" where
  "pad_while c sz str = (if 0 < sz then pad_while c (sz - 1) (str @ [c]) else (sz - 1, str))"
  by pat_completeness auto
termination by (relation "measure (\<lambda>(c, sz, str). nat sz)") auto

declare pad_while.simps [simp del]

text \<open>\<^verbatim>\<open>while (i < precision--) *str++ = '0';\<close>\<close>

function zero_while :: "int \<Rightarrow> int \<Rightarrow> string \<Rightarrow> string" where
  "zero_while i precision str = (if i < precision then zero_while i (precision - 1) (str @ [CHR ''0'']) else str)"
  by pat_completeness auto
termination by (relation "measure (\<lambda>(i, precision, str). nat (precision - i))") auto

declare zero_while.simps [simp del]

definition set_flag :: "u32 \<Rightarrow> u32 \<Rightarrow> bool" where
  "set_flag type f \<longleftrightarrow> type AND f \<noteq> 0"

text \<open>
  \<^verbatim>\<open>number\<close>: \<^const>\<open>None\<close> is the null pointer it returns for a bad base. The sign block gives the sign
  (NUL for none), the magnitude and the remaining width; a negative number does not take its sign
  off the width. The negation of the smallest \<^verbatim>\<open>long\<close>, undefined in C, wraps as it does on the processor.
\<close>

definition number_sign :: "u32 \<Rightarrow> u64 \<Rightarrow> int \<Rightarrow> char \<times> u64 \<times> int" where
  "number_sign type num sz =
     (if set_flag type SIGN
      then if sint num < 0 then (CHR ''-'', - num, sz)
           else if set_flag type PLUS then (CHR ''+'', num, sz - 1)
           else if set_flag type SPACE then (CHR '' '', num, sz - 1)
           else (NUL, num, sz)
      else (NUL, num, sz))"

definition number_prefix :: "u32 \<Rightarrow> int \<Rightarrow> string \<Rightarrow> string \<Rightarrow> string" where
  "number_prefix type base digits str =
     (if set_flag type SPECIAL
      then if base = 8 then str @ [CHR ''0'']
           else if base = 16 then str @ [CHR ''0'', digits ! 33] else str
      else str)"

definition number :: "string \<Rightarrow> u64 \<Rightarrow> int \<Rightarrow> int \<Rightarrow> int \<Rightarrow> u32 \<Rightarrow> fault + string option" where
  "number str num base sz precision type =
     (let digits = (if set_flag type SMALL then lower_digits else upper_digits);
          type = (if set_flag type LEFT then type AND NOT ZEROPAD else type)
      in if base < 2 \<or> base > 36 then Inr None
      else
      let c = (if set_flag type ZEROPAD then CHR ''0'' else CHR '' '');
          (sign, num, sz) = number_sign type num sz;
          sz = (if set_flag type SPECIAL then if base = 16 then sz - 2 else if base = 8 then sz - 1 else sz
                  else sz);
          tmp = (if num = 0 then ''0'' else digits_into digits (of_int base) num []);
          i = int (length tmp);
          precision = (if i > precision then i else precision)
      in if length tmp > 128 then Inl Out_Of_Bounds else
      ebind (int32 (sz - precision)) (\<lambda>sz.
      let (sz, str) = (if \<not> set_flag type (ZEROPAD + LEFT) then pad_while (CHR '' '') sz str else (sz, str));
          str = (if sign \<noteq> NUL then str @ [sign] else str);
          str = number_prefix type base digits str;
          (sz, str) = (if \<not> set_flag type LEFT then pad_while c sz str else (sz, str));
          str = zero_while i precision str;
          str = str @ rev tmp;
          (sz, str) = pad_while (CHR '' '') sz str
      in Inr (Some str)))"

section \<open>Conversions\<close>

record pstate =
  out :: string
  args :: "u64 list"
  base_var :: "int option"
  va_mem :: mem

definition peek :: "string \<Rightarrow> char" where
  "peek f = (case f of [] \<Rightarrow> NUL | c # _ \<Rightarrow> c)"

definition emit :: "string \<Rightarrow> pstate \<Rightarrow> pstate" where
  "emit cs st = st\<lparr>out := out st @ cs\<rparr>"

definition va_arg :: "pstate \<Rightarrow> fault + u64 \<times> pstate" where
  "va_arg st = (case args st of [] \<Rightarrow> Inl Missing_Arg | a # as \<Rightarrow> Inr (a, st\<lparr>args := as\<rparr>))"

abbreviation va_int :: "u64 \<Rightarrow> int" where
  "va_int a \<equiv> sint (ucast a :: u32)"

fun parse_flags :: "u32 \<Rightarrow> string \<Rightarrow> u32 \<times> string" where
  "parse_flags flags [] = (flags, [])"
| "parse_flags flags (c # f) =
     (if c = CHR ''-'' then parse_flags (flags OR LEFT) f
      else if c = CHR ''+'' then parse_flags (flags OR PLUS) f
      else if c = CHR '' '' then parse_flags (flags OR SPACE) f
      else if c = CHR ''#'' then parse_flags (flags OR SPECIAL) f
      else if c = CHR ''0'' then parse_flags (flags OR ZEROPAD) f
      else (flags, c # f))"

text \<open>The width; a \<^verbatim>\<open>*\<close> is not skipped.\<close>

definition parse_width :: "u32 \<Rightarrow> string \<Rightarrow> pstate \<Rightarrow> fault + int \<times> u32 \<times> string \<times> pstate" where
  "parse_width flags f st =
     (if is_digit (peek f) then ebind (scan_number f) (\<lambda>(f, w). Inr (w, flags, f, st))
      else if peek f = CHR ''*''
      then ebind (va_arg st) (\<lambda>(a, st).
           if va_int a < 0 then ebind (int32 (- va_int a)) (\<lambda>w. Inr (w, flags OR LEFT, f, st))
           else Inr (va_int a, flags, f, st))
      else Inr (- 1, flags, f, st))"

definition parse_precision :: "string \<Rightarrow> pstate \<Rightarrow> fault + int \<times> string \<times> pstate" where
  "parse_precision f st =
     (if peek f = CHR ''.''
      then let f = tl f in
        ebind (if is_digit (peek f) then ebind (scan_number f) (\<lambda>(f, p). Inr (p, f, st))
               else if peek f = CHR ''*'' then ebind (va_arg st) (\<lambda>(a, st). Inr (va_int a, f, st))
               else Inr (- 1, f, st))
          (\<lambda>(p, f, st). Inr (if p < 0 then 0 else p, f, st))
      else Inr (- 1, f, st))"

definition parse_qualifier :: "string \<Rightarrow> char option \<times> string" where
  "parse_qualifier f =
     (if peek f = CHR ''h'' \<or> peek f = CHR ''l'' \<or> peek f = CHR ''L''
      then let q = peek f; f = tl f in
           if q = CHR ''l'' \<and> peek f = CHR ''l'' then (Some (CHR ''L''), tl f) else (Some q, f)
      else (None, f))"

text \<open>
  \<^verbatim>\<open>while (--field_width > 0)\<close> of \<^verbatim>\<open>%c\<close> and \<^verbatim>\<open>while (len < field_width--)\<close> of \<^verbatim>\<open>%s\<close>; each gives the
  final width.
\<close>

function pre_pad :: "int \<Rightarrow> string \<Rightarrow> int \<times> string" where
  "pre_pad w str = (if w - 1 > 0 then pre_pad (w - 1) (str @ '' '') else (w - 1, str))"
  by pat_completeness auto
termination by (relation "measure (\<lambda>(w, str). nat w)") auto

function str_pad :: "int \<Rightarrow> int \<Rightarrow> string \<Rightarrow> int \<times> string" where
  "str_pad len w str = (if len < w then str_pad len (w - 1) (str @ '' '') else (w - 1, str))"
  by pat_completeness auto
termination by (relation "measure (\<lambda>(len, w, str). nat (w - len))") auto

declare pre_pad.simps [simp del] str_pad.simps [simp del]

definition conv_c :: "u32 \<Rightarrow> int \<Rightarrow> pstate \<Rightarrow> fault + pstate" where
  "conv_c flags w st =
     (let (w, o1) = (if \<not> set_flag flags LEFT then pre_pad w (out st) else (w, out st))
      in ebind (va_arg st) (\<lambda>(a, st).
         Inr (st\<lparr>out := snd (pre_pad w (o1 @ [chr (ucast a :: u8)]))\<rparr>)))"

definition mem_chars :: "mem \<Rightarrow> u64 \<Rightarrow> nat \<Rightarrow> string" where
  "mem_chars m a n = map (\<lambda>i. chr (m (a + of_nat i))) [0..<n]"

text \<open>The string of \<^verbatim>\<open>%s\<close>: its length, as an \<^verbatim>\<open>int\<close>, and its characters.\<close>

definition str_arg :: "mem \<Rightarrow> u64 \<Rightarrow> fault + int \<times> (nat \<Rightarrow> string)" where
  "str_arg m a =
     (if a = 0 then Inr (6, \<lambda>n. take n ''<NULL>'')
      else ebind (of_opt Diverges (strlen m a)) (\<lambda>n. Inr (sint (ucast n :: u32), mem_chars m a)))"

definition conv_s :: "u32 \<Rightarrow> int \<Rightarrow> int \<Rightarrow> pstate \<Rightarrow> fault + pstate" where
  "conv_s flags w precision st =
     ebind (va_arg st) (\<lambda>(a, st).
     ebind (str_arg (va_mem st) a) (\<lambda>(len, s).
     let len = (if precision < 0 then len else if len > precision then precision else len);
         (w, o1) = (if \<not> set_flag flags LEFT then str_pad len w (out st) else (w, out st));
         o1 = o1 @ s (nat len)
     in Inr (st\<lparr>out := snd (str_pad len w o1)\<rparr>)))"

text \<open>\<^verbatim>\<open>%n\<close> stores through a \<^verbatim>\<open>char *\<close>, so only the low byte of the count.\<close>

definition conv_n :: "pstate \<Rightarrow> fault + pstate" where
  "conv_n st =
     ebind (va_arg st) (\<lambda>(ip, st). Inr (st\<lparr>va_mem := (va_mem st)(ip := of_nat (length (out st)))\<rparr>))"

text \<open>A null output pointer faults at the next store, at the latest at the final NUL.\<close>

definition put_number :: "u64 \<Rightarrow> int \<Rightarrow> int \<Rightarrow> int \<Rightarrow> u32 \<Rightarrow> pstate \<Rightarrow> fault + pstate" where
  "put_number num b w precision flags st =
     ebind (number (out st) num b w precision flags) (\<lambda>r.
       case r of None \<Rightarrow> Inl Bad_Pointer | Some str \<Rightarrow> Inr (st\<lparr>out := str\<rparr>))"

definition conv_p :: "u32 \<Rightarrow> int \<Rightarrow> int \<Rightarrow> pstate \<Rightarrow> fault + pstate" where
  "conv_p flags w precision st =
     (let (w, flags) = (if w = - 1 then (2 * 8, flags OR ZEROPAD) else (w, flags))
      in ebind (va_arg st) (\<lambda>(a, st). put_number a 16 w precision flags st))"

text \<open>What the second \<^verbatim>\<open>switch\<close> does for the integer conversions and for an unknown character.\<close>

definition conv_kind :: "char \<Rightarrow> u32 \<Rightarrow> pstate \<Rightarrow> u32 \<times> pstate" where
  "conv_kind c flags st =
     (if c = CHR ''o'' then (flags, st\<lparr>base_var := Some 8\<rparr>)
      else if c = CHR ''x'' then (flags OR SMALL, st\<lparr>base_var := Some 16\<rparr>)
      else if c = CHR ''X'' then (flags, st\<lparr>base_var := Some 16\<rparr>)
      else if c = CHR ''d'' \<or> c = CHR ''i'' then (flags OR SIGN, st\<lparr>base_var := Some 10\<rparr>)
      else if c = CHR ''u'' then (flags, st\<lparr>base_var := Some 10\<rparr>)
      else
      let st = (if c \<noteq> CHR ''%'' then emit ''%'' st else st);
          st = (if c \<noteq> NUL then emit [c] st else st)
      in (flags, st))"

definition fetch_num :: "char option \<Rightarrow> u32 \<Rightarrow> u64 \<Rightarrow> u64" where
  "fetch_num qualifier flags a =
     (if qualifier = Some (CHR ''L'') then a
      else if qualifier = Some (CHR ''h'')
      then if set_flag flags SIGN then scast (ucast a :: u16) else ucast (ucast a :: u16)
      else if qualifier = Some (CHR ''l'') then a
      else if set_flag flags SIGN then scast (ucast a :: u32) else ucast (ucast a :: u32))"

definition conv_num :: "char \<Rightarrow> u32 \<Rightarrow> int \<Rightarrow> int \<Rightarrow> char option \<Rightarrow> pstate \<Rightarrow> fault + pstate" where
  "conv_num c flags w precision qualifier st =
     (let (flags, st) = conv_kind c flags st in
      ebind (va_arg st) (\<lambda>(a, st).
      ebind (of_opt Uninitialised (base_var st)) (\<lambda>b.
        put_number (fetch_num qualifier flags a) b w precision flags st)))"

text \<open>
  One conversion, from behind the \<^verbatim>\<open>%\<close>: the rest of the format the loop continues with. At the end of
  the format the \<^verbatim>\<open>--fmt\<close> of the default case and the \<^verbatim>\<open>fmt++\<close> of the loop cancel.
\<close>

definition convert :: "string \<Rightarrow> pstate \<Rightarrow> fault + string \<times> pstate" where
  "convert f st =
     (let (flags, f) = parse_flags 0 f in
      ebind (parse_width flags f st) (\<lambda>(w, flags, f, st).
      ebind (parse_precision f st) (\<lambda>(precision, f, st).
      let (qualifier, f) = parse_qualifier f; c = peek f in
      ebind (if c = CHR ''c'' then conv_c flags w st
             else if c = CHR ''s'' then conv_s flags w precision st
             else if c = CHR ''n'' then conv_n st
             else if c = CHR ''p'' then conv_p flags w precision st
             else conv_num c flags w precision qualifier st)
        (\<lambda>st. Inr (tl f, st)))))"

section \<open>The loop over the format\<close>

lemma scan_number_from_shorter: "scan_number_from t f = Inr (f', n) \<Longrightarrow> length f' \<le> length f"
proof (induction f arbitrary: t)
  case (Cons c f)
  then show ?case
    by (fastforce simp: int32_def split: if_splits)
qed simp

lemma parse_flags_shorter: "length (snd (parse_flags fl f)) \<le> length f"
  by (induction fl f rule: parse_flags.induct) auto

lemma ebind_Inr_iff: "ebind m k = Inr y \<longleftrightarrow> (\<exists>x. m = Inr x \<and> k x = Inr y)"
  by (cases m) auto

lemma parse_width_shorter: "parse_width fl f st = Inr (w, fl', f', st') \<Longrightarrow> length f' \<le> length f"
  using scan_number_from_shorter [of 0 f]
  by (auto simp: parse_width_def scan_number_def ebind_Inr_iff split: if_splits prod.splits)

lemma parse_precision_shorter: "parse_precision f st = Inr (p, f', st') \<Longrightarrow> length f' \<le> length f"
  using scan_number_from_shorter [of 0 "tl f" f']
  by (auto simp: parse_precision_def scan_number_def ebind_Inr_iff Let_def split: if_splits prod.splits)

lemma convert_shorter: "convert f st = Inr (f', st') \<Longrightarrow> length f' \<le> length f"
proof -
  assume "convert f st = Inr (f', st')"
  then obtain fl1 f1 w fl2 f2 st2 p f3 st3 q f4 where
    c: "parse_flags 0 f = (fl1, f1)" "parse_width fl1 f1 st = Inr (w, fl2, f2, st2)"
       "parse_precision f2 st2 = Inr (p, f3, st3)" "parse_qualifier f3 = (q, f4)" "f' = tl f4"
    by (auto simp: convert_def ebind_Inr_iff Let_def split: prod.split_asm) (metis surj_pair)
  have "length f1 \<le> length f"
    using parse_flags_shorter [of 0 f] c(1) by simp
  moreover have "length f4 \<le> length f3"
    using c(4) by (auto simp: parse_qualifier_def Let_def split: if_splits)
  ultimately show ?thesis
    using parse_width_shorter [OF c(2)] parse_precision_shorter [OF c(3)] c(5) by simp
qed

function myprintf_from :: "string \<Rightarrow> pstate \<Rightarrow> fault + pstate" where
  "myprintf_from f st =
     (if peek f = NUL then Inr st
      else if peek f \<noteq> CHR ''%'' then myprintf_from (tl f) (emit [peek f] st)
      else ebind (convert (tl f) st) (\<lambda>(f, st). myprintf_from f st))"
  by pat_completeness auto
termination
  by (relation "measure (\<lambda>(f, st). length f)")
    (auto simp: peek_def dest!: convert_shorter split: list.splits)

declare myprintf_from.simps [simp del]

text \<open>
  \<^verbatim>\<open>myprintf\<close> writes the characters and a NUL to \<^verbatim>\<open>string\<close>, whatever \<^verbatim>\<open>size\<close> says, and returns their number.
\<close>

definition myprintf :: "u32 \<Rightarrow> string \<Rightarrow> u64 list \<Rightarrow> mem \<Rightarrow> fault + string \<times> mem" where
  "myprintf sz fmt arg m =
     ebind (myprintf_from fmt \<lparr>out = [], args = arg, base_var = None, va_mem = m\<rparr>) (\<lambda>st. Inr (out st, va_mem st))"

section \<open>printk\<close>

text \<open>
  The loop of \<^verbatim>\<open>printk\<close> over \<^verbatim>\<open>print_buf\<close>, with its late check of the index. The NUL behind the text has to
  fit the buffer too.
\<close>

fun printk_loop :: "nat \<Rightarrow> string \<Rightarrow> machine \<Rightarrow> fault + machine" where
  "printk_loop i [] s = Inr s"
| "printk_loop i (c # cs) s =
     ebind (putchar c s) (\<lambda>s. if i > CONSOLE_PRINT_BUFFER_SIZE then Inr s else printk_loop (i + 1) cs s)"

definition printk :: "string \<Rightarrow> u64 list \<Rightarrow> machine \<Rightarrow> fault + int \<times> machine" where
  "printk fmt arg s =
     ebind (myprintf (of_nat CONSOLE_PRINT_BUFFER_SIZE) fmt arg (ram s)) (\<lambda>(buf, m).
     if length buf + 1 > CONSOLE_PRINT_BUFFER_SIZE then Inl Out_Of_Bounds
     else ebind (printk_loop 0 buf (s\<lparr>ram := m\<rparr>)) (\<lambda>s. Inr (int (length buf), s)))"

text \<open>A call of \<^verbatim>\<open>printk\<close> whose result is not used.\<close>

definition say :: "string \<Rightarrow> u64 list \<Rightarrow> machine \<Rightarrow> fault + machine" where
  "say fmt arg s = ebind (printk fmt arg s) (\<lambda>(_, s). Inr s)"

section \<open>The log buffer\<close>

text \<open>
  The early log: \<^verbatim>\<open>printk\<close> does not fill it in this configuration, but \<^verbatim>\<open>init_printk_done\<close> still sends what
  \<^verbatim>\<open>g_record_len\<close> says it holds. \<^verbatim>\<open>g_record\<close> is an offset into \<^verbatim>\<open>log_buf\<close>.
\<close>

datatype printk_status = PRINTK_STATUS_DOWN | PRINTK_STATUS_READY

definition CONFIG_LOG_BUF_SHIFT :: nat where [yios_consts]: "CONFIG_LOG_BUF_SHIFT = 17"
definition LOG_BUF_LEN :: nat where [yios_consts]: "LOG_BUF_LEN = 2 ^ CONFIG_LOG_BUF_SHIFT"

record printk_log =
  g_printk_status :: printk_status
  log_buf :: "nat \<Rightarrow> char"
  g_record :: nat
  g_record_len :: nat

fun flush_log :: "(nat \<Rightarrow> char) \<Rightarrow> nat \<Rightarrow> nat \<Rightarrow> machine \<Rightarrow> fault + machine" where
  "flush_log buf i 0 s = Inr s"
| "flush_log buf i (Suc n) s =
     (if i < LOG_BUF_LEN then ebind (putchar (buf i) s) (flush_log buf (i + 1) n) else Inl Out_Of_Bounds)"

definition init_printk_done :: "printk_log \<times> machine \<Rightarrow> fault + printk_log \<times> machine" where
  "init_printk_done = (\<lambda>(l, s).
     let l = l\<lparr>g_printk_status := PRINTK_STATUS_READY\<rparr> in
     ebind (flush_log (log_buf l) 0 (g_record_len l) s) (\<lambda>s.
       Inr (l\<lparr>g_record := 0, g_record_len := 0\<rparr>, s)))"

end
