(* ===== verification/Irq.thy ===== *)
theory Irq
  imports Printk
begin

text \<open>
  Interrupts: the GICv2 driver (\<^verbatim>\<open>drivers/irqchips/gic_v2.c\<close> with \<^verbatim>\<open>include/yios/arm-gic.h\<close>), the generic timer
  (\<^verbatim>\<open>arch/arm64/mach-rpi4/timer.c\<close> with \<^verbatim>\<open>asm/arm_local_reg.h\<close>) and \<^verbatim>\<open>do_irq\<close> of \<^verbatim>\<open>traps.c\<close>. Their effect is
  the sequence of register accesses on the bus.

  What the accesses do in the interrupt controller is the GICv2 architecture: \<open>gic_enabled\<close> reads
  off the trace which interrupts are forwarded, by the rule that a 1 written to a set-enable
  register enables that interrupt, a 1 written to a clear-enable register disables it, and a 0 in
  either has no effect.
\<close>

section \<open>Registers\<close>

definition GIC_CPU_CTRL :: u64 where [yios_consts]: "GIC_CPU_CTRL = 0x00"
definition GIC_CPU_PRIMASK :: u64 where [yios_consts]: "GIC_CPU_PRIMASK = 0x04"
definition GIC_CPU_INTACK :: u64 where [yios_consts]: "GIC_CPU_INTACK = 0x0c"
definition GIC_CPU_EOI :: u64 where [yios_consts]: "GIC_CPU_EOI = 0x10"
definition GICC_ENABLE :: u32 where [yios_consts]: "GICC_ENABLE = 0x1"
definition GICC_INT_PRI_THRESHOLD :: u32 where [yios_consts]: "GICC_INT_PRI_THRESHOLD = 0xf0"
definition GICC_IAR_INT_ID_MASK :: u32 where [yios_consts]: "GICC_IAR_INT_ID_MASK = 0x3ff"
definition GICC_INT_SPURIOUS :: u32 where [yios_consts]: "GICC_INT_SPURIOUS = 1023"
definition GIC_DIST_CTRL :: u64 where [yios_consts]: "GIC_DIST_CTRL = 0x000"
definition GIC_DIST_CTR :: u64 where [yios_consts]: "GIC_DIST_CTR = 0x004"
definition GIC_DIST_ENABLE_SET :: u32 where [yios_consts]: "GIC_DIST_ENABLE_SET = 0x100"
definition GIC_DIST_ENABLE_CLEAR :: u32 where [yios_consts]: "GIC_DIST_ENABLE_CLEAR = 0x180"
definition GIC_DIST_ACTIVE_CLEAR :: u32 where [yios_consts]: "GIC_DIST_ACTIVE_CLEAR = 0x380"
definition GIC_DIST_PRI :: u64 where [yios_consts]: "GIC_DIST_PRI = 0x400"
definition GIC_DIST_TARGET :: u64 where [yios_consts]: "GIC_DIST_TARGET = 0x800"
definition GIC_DIST_CONFIG :: u64 where [yios_consts]: "GIC_DIST_CONFIG = 0xc00"
definition GICD_ENABLE :: u32 where [yios_consts]: "GICD_ENABLE = 0x1"
definition GICD_DISABLE :: u32 where [yios_consts]: "GICD_DISABLE = 0x0"
definition GICD_INT_ACTLOW_LVLTRIG :: u32 where [yios_consts]: "GICD_INT_ACTLOW_LVLTRIG = 0x0"
definition GICD_INT_EN_CLR_X32 :: u32 where [yios_consts]: "GICD_INT_EN_CLR_X32 = 0xffffffff"
definition GICD_INT_EN_SET_SGI :: u32 where [yios_consts]: "GICD_INT_EN_SET_SGI = 0x0000ffff"
definition ARM_GIC_MAX_NR :: int where [yios_consts]: "ARM_GIC_MAX_NR = 1"
definition GENERIC_TIMER_IRQ :: u32 where [yios_consts]: "GENERIC_TIMER_IRQ = 30"
definition TIMER_CNTRL0 :: u64 where [yios_consts]: "TIMER_CNTRL0 = ARM_LOCAL_BASE + 0x40"
definition CNT_PNS_IRQ :: u32 where [yios_consts]: "CNT_PNS_IRQ = push_bit 1 1"

section \<open>The interrupt controller\<close>

record gic_chip_data =
  raw_dist_base :: u64
  raw_cpu_base :: u64
  domain :: u64
  chips :: u64
  gic_irqs :: u32

definition gic_dist_base :: "gic_chip_data \<Rightarrow> u64" where "gic_dist_base d = raw_dist_base d"
definition gic_cpu_base :: "gic_chip_data \<Rightarrow> u64" where "gic_cpu_base d = raw_cpu_base d"

text \<open>\<^verbatim>\<open>gic_data\<close> has one element, which \<^verbatim>\<open>gic_get_dist_base\<close> and \<^verbatim>\<open>gic_get_cpu_base\<close> read.\<close>

definition gic_get_dist_base :: "gic_chip_data \<Rightarrow> u64" where
  "gic_get_dist_base gic_data = gic_dist_base gic_data"

definition gic_get_cpu_base :: "gic_chip_data \<Rightarrow> u64" where
  "gic_get_cpu_base gic_data = gic_cpu_base gic_data"

definition gic_set_irq :: "gic_chip_data \<Rightarrow> u32 \<Rightarrow> u32 \<Rightarrow> machine \<Rightarrow> machine" where
  "gic_set_irq g irq offset s =
     (let msk = push_bit (unat (irq mod 32)) 1
      in writel msk (gic_get_dist_base g + ucast offset + ucast (irq div 32 * 4)) s)"

definition gicv2_mask_irq :: "gic_chip_data \<Rightarrow> u32 \<Rightarrow> machine \<Rightarrow> machine" where
  "gicv2_mask_irq g irq s = gic_set_irq g irq GIC_DIST_ENABLE_CLEAR s"

definition gicv2_unmask_irq :: "gic_chip_data \<Rightarrow> u32 \<Rightarrow> machine \<Rightarrow> machine" where
  "gicv2_unmask_irq g irq s = gic_set_irq g irq GIC_DIST_ENABLE_SET s"

definition gicv2_eoi_irq :: "gic_chip_data \<Rightarrow> u32 \<Rightarrow> machine \<Rightarrow> machine" where
  "gicv2_eoi_irq g irq s = writel irq (gic_get_cpu_base g + GIC_CPU_EOI) s"

function gic_cpumask_from :: "u64 \<Rightarrow> u32 \<Rightarrow> nat \<Rightarrow> machine \<Rightarrow> u32 \<times> machine" where
  "gic_cpumask_from base msk i s =
     (if i < 32
      then let (msk, s) = readl (base + GIC_DIST_TARGET + of_nat i) s;
               msk = msk OR drop_bit 16 msk;
               msk = msk OR drop_bit 8 msk
           in if msk \<noteq> 0 then (msk, s) else gic_cpumask_from base msk (i + 4) s
      else (msk, s))"
  by pat_completeness auto
termination by (relation "measure (\<lambda>(base, msk, i, s). 32 - i)") auto

declare gic_cpumask_from.simps [simp del]

definition gic_get_cpumask :: "gic_chip_data \<Rightarrow> machine \<Rightarrow> u32 \<times> machine" where
  "gic_get_cpumask gic s = gic_cpumask_from (gic_dist_base gic) 0 0 s"

text \<open>
  \<^verbatim>\<open>for (i = from; i < n; i += step)\<close>. The bound is \<^verbatim>\<open>gic_irqs\<close>, at most 1020 after \<^verbatim>\<open>gic_init\<close>, so the
  \<^verbatim>\<open>u32\<close> index does not wrap and is modelled by a natural number.
\<close>

function for_step :: "nat \<Rightarrow> nat \<Rightarrow> nat \<Rightarrow> (nat \<Rightarrow> 's \<Rightarrow> 's) \<Rightarrow> 's \<Rightarrow> 's" where
  "for_step i n step f s = (if i < n \<and> 0 < step then for_step (i + step) n step f (f i s) else s)"
  by pat_completeness auto
termination by (relation "measure (\<lambda>(i, n, step, f, s). n - i)") auto

declare for_step.simps [simp del]

definition gic_dist_init :: "gic_chip_data \<Rightarrow> machine \<Rightarrow> machine" where
  "gic_dist_init gic s =
     (let base = gic_dist_base gic;
          n = unat (gic_irqs gic);
          s = writel GICD_DISABLE (base + GIC_DIST_CTRL) s;
          (cpumask, s) = gic_get_cpumask gic s;
          cpumask = cpumask OR push_bit 8 cpumask;
          cpumask = cpumask OR push_bit 16 cpumask;
          s = for_step 32 n 4 (\<lambda>i. writel cpumask (base + GIC_DIST_TARGET + of_nat (i * 4 div 4))) s;
          s = for_step 32 n 16 (\<lambda>i. writel GICD_INT_ACTLOW_LVLTRIG (base + GIC_DIST_CONFIG + of_nat (i div 4))) s;
          s = for_step 0 n 32 (\<lambda>i s.
                let s = writel GICD_INT_EN_CLR_X32 (base + ucast GIC_DIST_ACTIVE_CLEAR + of_nat (i div 8)) s
                in writel GICD_INT_EN_CLR_X32 (base + ucast GIC_DIST_ENABLE_CLEAR + of_nat (i div 8)) s) s;
          s = writel GICD_INT_EN_SET_SGI (base + ucast GIC_DIST_ENABLE_SET) s
      in writel GICD_ENABLE (base + GIC_DIST_CTRL) s)"

definition gic_cpu_init :: "gic_chip_data \<Rightarrow> machine \<Rightarrow> machine" where
  "gic_cpu_init gic s =
     (let base = gic_cpu_base gic;
          dist_base = gic_dist_base gic;
          s = for_step 0 32 4 (\<lambda>i. writel 0xa0a0a0a0 (dist_base + GIC_DIST_PRI + of_nat (i * 4 div 4))) s;
          s = writel GICC_INT_PRI_THRESHOLD (base + GIC_CPU_PRIMASK) s
      in writel GICC_ENABLE (base + GIC_CPU_CTRL) s)"

text \<open>\<open>func\<close> is the address of the string \<^verbatim>\<open>__FUNCTION__\<close>. An index other than 0 is outside \<^verbatim>\<open>gic_data\<close>.\<close>

definition gic_init ::
  "u64 \<Rightarrow> int \<Rightarrow> u64 \<Rightarrow> u64 \<Rightarrow> gic_chip_data \<times> machine \<Rightarrow> fault + int \<times> gic_chip_data \<times> machine" where
  "gic_init func chip dist_base cpu_base = (\<lambda>(gic, s).
     if \<not> (0 \<le> chip \<and> chip < ARM_GIC_MAX_NR) then Inl Out_Of_Bounds else
     let gic = gic\<lparr>raw_cpu_base := cpu_base\<rparr>;
         gic = gic\<lparr>raw_dist_base := dist_base\<rparr>;
         (v, s) = readl (gic_dist_base gic + GIC_DIST_CTR) s;
         irqs = int (unat (v AND 0x1f));
         irqs = (irqs + 1) * 32;
         irqs = (if irqs > 1020 then 1020 else irqs);
         gic = gic\<lparr>gic_irqs := of_int irqs\<rparr>
     in ebind (printk ''%s: cpu_base:0x%0x, dist_base:0x%0x, gic_irqs:%d\<newline>''
           [func, cpu_base, dist_base, ucast (gic_irqs gic)] s) (\<lambda>(_, s).
        Inr (0, gic, gic_cpu_init gic (gic_dist_init gic s))))"

section \<open>The timer\<close>

definition timer_val :: u32 where [yios_consts]: "timer_val = 62500000"

definition generic_timer_init :: "machine \<Rightarrow> int \<times> machine" where
  "generic_timer_init s = (0, write_sysreg 1 CNTP_CTL_EL0 s)"

definition generic_timer_reset :: "u32 \<Rightarrow> machine \<Rightarrow> int \<times> machine" where
  "generic_timer_reset val s = (0, write_sysreg (ucast val) CNTP_TVAL_EL0 s)"

definition enable_timer_interrupt :: "machine \<Rightarrow> machine" where
  "enable_timer_interrupt s = writel CNT_PNS_IRQ TIMER_CNTRL0 s"

definition timer_init :: "gic_chip_data \<Rightarrow> machine \<Rightarrow> machine" where
  "timer_init g s =
     (let (_, s) = generic_timer_init s;
          (_, s) = generic_timer_reset timer_val s;
          s = gicv2_unmask_irq g GENERIC_TIMER_IRQ s
      in enable_timer_interrupt s)"

definition handle_timer_irq :: "machine \<Rightarrow> fault + machine" where
  "handle_timer_irq s =
     (let (_, s) = generic_timer_reset timer_val s in
      ebind (printk ''Core0 timer interrupt, freq=%u\<newline>'' [read_sysreg CNTFRQ_EL0 s] s) (\<lambda>(_, s). Inr s))"

section \<open>Taking an interrupt\<close>

definition gic_handle_irq :: "gic_chip_data \<Rightarrow> machine \<Rightarrow> fault + machine" where
  "gic_handle_irq gic s =
     (let base = gic_cpu_base gic;
          (irqstat, s) = readl (base + GIC_CPU_INTACK) s;
          irqnr = irqstat AND GICC_IAR_INT_ID_MASK
      in ebind (if irqnr = GENERIC_TIMER_IRQ then handle_timer_irq s else Inr s) (\<lambda>s.
         Inr (gicv2_eoi_irq gic irqnr s)))"

definition do_irq :: "gic_chip_data \<Rightarrow> machine \<Rightarrow> fault + machine" where
  "do_irq gic s = gic_handle_irq gic s"

end
