(* ===== verification/Printk_Spec.thy ===== *)
theory Printk_Spec
  imports Printk
begin

text \<open>
  What the formatted output of \<open>Printk\<close> is: closed forms of its padding loops, the text \<^verbatim>\<open>number\<close>
  produces as a specification (\<open>number_text\<close>) that \<^verbatim>\<open>number\<close> is proved equal to, reading that text
  back, and the effect of \<^verbatim>\<open>printk\<close> on the console.
\<close>

section \<open>Closed forms of the loops\<close>

named_theorems loop_closed \<open>closed forms of the loops of printk.c\<close>

lemma pad_while_closed [loop_closed]: "pad_while c n str = (min n 0 - 1, str @ replicate (nat n) c)"
proof (induction c n str rule: pad_while.induct)
  case (1 c n str)
  show ?case
  proof (cases "0 < n")
    case True
    then have "nat n = Suc (nat (n - 1))" by simp
    with True 1 show ?thesis
      by (simp add: pad_while.simps [of c n])
  qed (simp add: pad_while.simps)
qed

lemma zero_while_closed [loop_closed]: "zero_while i p str = str @ replicate (nat (p - i)) (CHR ''0'')"
proof (induction i p str rule: zero_while.induct)
  case (1 i p str)
  show ?case
  proof (cases "i < p")
    case True
    then have "nat (p - i) = Suc (nat (p - 1 - i))" by simp
    with True 1 show ?thesis
      by (simp add: zero_while.simps [of i p])
  qed (simp add: zero_while.simps)
qed

lemma pre_pad_closed [loop_closed]:
  "pre_pad w str = (if 0 < w then 0 else w - 1, str @ replicate (nat (w - 1)) (CHR '' ''))"
proof (induction w str rule: pre_pad.induct)
  case (1 w str)
  show ?case
  proof (cases "0 < w - 1")
    case True
    then have "nat (w - 1) = Suc (nat (w - 1 - 1))" by simp
    with True 1 show ?thesis
      by (simp add: pre_pad.simps [of w])
  qed (auto simp: pre_pad.simps)
qed

lemma str_pad_closed [loop_closed]: "str_pad n w str = (min w n - 1, str @ replicate (nat (w - n)) (CHR '' ''))"
proof (induction n w str rule: str_pad.induct)
  case (1 n w str)
  show ?case
  proof (cases "n < w")
    case True
    then have "nat (w - n) = Suc (nat (w - 1 - n))" by simp
    with True 1 show ?thesis
      by (simp add: str_pad.simps [of n w])
  qed (simp add: str_pad.simps)
qed

section \<open>Digits\<close>

text \<open>The digits of a number, least significant first, and the number back.\<close>

fun digs :: "nat \<Rightarrow> nat \<Rightarrow> nat list" where
  "digs b n = (if n = 0 \<or> b < 2 then [] else n mod b # digs b (n div b))"

declare digs.simps [simp del]

definition undigs :: "nat \<Rightarrow> nat list \<Rightarrow> nat" where
  "undigs b ds = foldr (\<lambda>d v. d + b * v) ds 0"

lemma undigs_digs: "2 \<le> b \<Longrightarrow> undigs b (digs b n) = n"
proof (induction b n rule: digs.induct)
  case (1 b n)
  have "digs b 0 = []"
    by (simp add: digs.simps)
  with 1 show ?case
    by (cases "n = 0") (auto simp: digs.simps [of b n] undigs_def)
qed

lemma digs_less: "d \<in> set (digs b n) \<Longrightarrow> d < b"
proof (induction b n rule: digs.induct)
  case (1 b n)
  then show ?case
    by (auto simp: digs.simps [of b n] split: if_splits)
qed

lemma digs_nonempty: "2 \<le> b \<Longrightarrow> 0 < n \<Longrightarrow> digs b n \<noteq> []"
  by (simp add: digs.simps)

lemma length_digs: "2 \<le> b \<Longrightarrow> n < 2 ^ k \<Longrightarrow> length (digs b n) \<le> k"
proof (induction k arbitrary: n)
  case 0
  then show ?case by (simp add: digs.simps)
next
  case (Suc k)
  show ?case
  proof (cases "n = 0")
    case False
    have "n div b \<le> n div 2"
      using Suc.prems(1) by (simp add: div_le_mono2)
    then have "n div b < 2 ^ k"
      using Suc.prems(2) by (simp add: less_mult_imp_div_less order.strict_trans1)
    then show ?thesis
      using Suc.IH [OF Suc.prems(1)] False by (simp add: digs.simps [of b n])
  qed (simp add: digs.simps)
qed

lemma digits_into_digs:
  assumes "2 \<le> unat b"
  shows "digits_into ds b num tmp = tmp @ map ((!) ds) (digs (unat b) (unat num))"
  using assms
proof (induction ds b num tmp rule: digits_into.induct)
  case (1 ds b num tmp)
  have nb: "\<not> b < 2"
    using 1(2) by (simp add: word_less_nat_alt)
  show ?case
  proof (cases "num = 0")
    case True
    then show ?thesis by (simp add: digits_into.simps [of ds b] digs.simps)
  next
    case False
    define r q where "r = fst (do_div num b)" and "q = snd (do_div num b)"
    have rq: "unat r = unat num mod unat b" "unat q = unat num div unat b"
    proof -
      have "unat num mod unat b < unat b"
        using 1(2) by simp
      moreover have "unat b < 2 ^ 32"
        using unsigned_less [of b, where ?'a = nat] by simp
      ultimately have "unat num mod unat b < 2 ^ 32"
        by (rule less_trans)
      then show "unat r = unat num mod unat b"
        by (simp add: r_def do_div_def unsigned_ucast_eq unat_mod take_bit_nat_eq_self)
      show "unat q = unat num div unat b"
        by (simp add: q_def do_div_def unat_div)
    qed
    have "digits_into ds b q (tmp @ [ds ! unat r]) = tmp @ [ds ! unat r] @ map ((!) ds) (digs (unat b) (unat q))"
      using 1(1) [of "(r, q)" r q] False nb 1(2) by (simp add: r_def q_def)
    moreover have "digits_into ds b num tmp = digits_into ds b q (tmp @ [ds ! unat r])"
      using False nb by (simp add: digits_into.simps [of ds b num] r_def q_def case_prod_beta)
    moreover have "0 < unat num"
      using False by (simp add: unat_gt_0)
    ultimately show ?thesis
      using 1(2) by (simp add: rq digs.simps [of "unat b" "unat num"])
  qed
qed

section \<open>The text of a number\<close>

definition digit_chars :: "u32 \<Rightarrow> string" where
  "digit_chars type = (if set_flag type SMALL then lower_digits else upper_digits)"

definition digits_text :: "string \<Rightarrow> nat \<Rightarrow> nat \<Rightarrow> string" where
  "digits_text ds b n = (if n = 0 then ''0'' else map ((!) ds) (rev (digs b n)))"

definition sign_text :: "u32 \<Rightarrow> u64 \<Rightarrow> string" where
  "sign_text type num =
     (if \<not> set_flag type SIGN then ''''
      else if sint num < 0 then ''-''
      else if set_flag type PLUS then ''+'' else if set_flag type SPACE then '' '' else '''')"

definition prefix_text :: "u32 \<Rightarrow> int \<Rightarrow> string" where
  "prefix_text type base =
     (if \<not> set_flag type SPECIAL then ''''
      else if base = 16 then [CHR ''0'', digit_chars type ! 33] else if base = 8 then ''0'' else '''')"

definition magnitude :: "u32 \<Rightarrow> u64 \<Rightarrow> nat" where
  "magnitude type num = unat (if set_flag type SIGN \<and> sint num < 0 then - num else num)"

text \<open>
  The field: sign, prefix and digits filled up to the precision, padded to the width on the left
  with blanks, between prefix and digits with zeros, or on the right. The sign of a negative
  number is not counted.
\<close>

definition number_text :: "u64 \<Rightarrow> int \<Rightarrow> int \<Rightarrow> int \<Rightarrow> u32 \<Rightarrow> string" where
  "number_text num base width precision type =
     (let sgn = sign_text type num; pre = prefix_text type base;
          ds = digits_text (digit_chars type) (nat base) (magnitude type num);
          body = replicate (nat (precision - int (length ds))) (CHR ''0'') @ ds;
          counted = (if sgn = ''-'' then 0 else length sgn) + length pre + length body;
          pad = nat (width - int counted)
      in if set_flag type LEFT then sgn @ pre @ body @ replicate pad (CHR '' '')
         else if set_flag type ZEROPAD then sgn @ pre @ replicate pad (CHR ''0'') @ body
         else replicate pad (CHR '' '') @ sgn @ pre @ body)"

lemma set_flag_bits:
  "set_flag x ZEROPAD = bit x 0" "set_flag x SIGN = bit x 1" "set_flag x PLUS = bit x 2" "set_flag x SPACE = bit x 3"
  "set_flag x LEFT = bit x 4" "set_flag x SPECIAL = bit x 5" "set_flag x SMALL = bit x 6"
  using and_exp_eq_0_iff_not_bit [of x 0] and_exp_eq_0_iff_not_bit [of x 1] and_exp_eq_0_iff_not_bit [of x 2] and_exp_eq_0_iff_not_bit [of x 3] and_exp_eq_0_iff_not_bit [of x 4]
    and_exp_eq_0_iff_not_bit [of x 5] and_exp_eq_0_iff_not_bit [of x 6]
  by (simp_all add: set_flag_def flag_defs)

lemma set_flag_zeropad_left: "set_flag x (ZEROPAD + LEFT) \<longleftrightarrow> set_flag x ZEROPAD \<or> set_flag x LEFT"
proof -
  have "ZEROPAD + LEFT = ZEROPAD OR LEFT"
    by (rule or_eq_add_disjoint [symmetric]) (simp add: flag_defs)
  then have "x AND (ZEROPAD + LEFT) = (x AND ZEROPAD) OR (x AND LEFT)"
    by (simp add: bit.conj_disj_distrib)
  then show ?thesis
    by (simp add: set_flag_def or_eq_0_iff)
qed

lemma clear_zeropad:
  "set_flag (x AND NOT ZEROPAD) ZEROPAD = False" "set_flag (x AND NOT ZEROPAD) SIGN = set_flag x SIGN"
  "set_flag (x AND NOT ZEROPAD) PLUS = set_flag x PLUS" "set_flag (x AND NOT ZEROPAD) SPACE = set_flag x SPACE"
  "set_flag (x AND NOT ZEROPAD) LEFT = set_flag x LEFT" "set_flag (x AND NOT ZEROPAD) SPECIAL = set_flag x SPECIAL"
  unfolding set_flag_bits by (simp_all add: ZEROPAD_def bit_simps)

lemma number_sign_text:
  obtains c where "number_sign type num n =
      (c, if set_flag type SIGN \<and> sint num < 0 then - num else num,
       n - int (if sign_text type num = ''-'' then 0 else length (sign_text type num)))"
    and "sign_text type num = (if c = NUL then [] else [c])"
proof -
  define c where "c = fst (number_sign type num n)"
  show thesis
    by (rule that [of c]) (auto simp: c_def number_sign_def sign_text_def NUL_def)
qed

lemma sign_text_clear [simp]: "sign_text (x AND NOT ZEROPAD) num = sign_text x num"
  by (simp add: sign_text_def clear_zeropad)

lemma tmp_digits:
  assumes "2 \<le> base" and "base \<le> 36"
    and "tmp = (if num = 0 then ''0'' else digits_into ds (of_int base) num [])"
  shows "rev tmp = digits_text ds (nat base) (unat num)" and "length tmp \<le> 64"
proof -
  have b: "unat (of_int base :: u32) = nat base"
  proof -
    have "(of_int base :: u32) = of_nat (nat base)"
      using assms by simp
    moreover have "nat base < 2 ^ 32"
      using assms by auto
    ultimately show ?thesis
      by (simp only: unat_of_nat) simp
  qed
  have t: "tmp = (if num = 0 then ''0'' else map ((!) ds) (digs (nat base) (unat num)))"
    using assms digits_into_digs [of "of_int base" ds num "[]"] by (simp add: b)
  show "rev tmp = digits_text ds (nat base) (unat num)"
    by (simp add: t digits_text_def rev_map unat_eq_0)
  have "length (digs (nat base) (unat num)) \<le> 64"
    using assms by (intro length_digs) auto
  then show "length tmp \<le> 64"
    by (simp add: t)
qed

lemma number_prefix_text: "number_prefix type base (digit_chars type) str = str @ prefix_text type base"
  by (simp add: number_prefix_def prefix_text_def)

lemma number_prefix_clear [simp]: "number_prefix (x AND NOT ZEROPAD) = number_prefix x"
  by (simp add: number_prefix_def clear_zeropad fun_eq_iff)

text \<open>The padding at the end of \<^verbatim>\<open>number\<close>, for the three layouts.\<close>

lemma number_eq_text:
  assumes b: "2 \<le> base" "base \<le> 36" and w: "- (2 ^ 29) \<le> w" "w < 2 ^ 31" and p: "p < 2 ^ 30"
  shows "number str num base w p type = Inr (Some (str @ number_text num base w p type))"
proof -
  define ty where "ty = (if set_flag type LEFT then type AND NOT ZEROPAD else type)"
  define num' where "num' = (if set_flag type SIGN \<and> sint num < 0 then - num else num)"
  define sgn where "sgn = sign_text type num"
  define pre where "pre = prefix_text type base"
  define cs where "cs = (if sgn = ''-'' then 0 else length sgn)"
  define tmp where "tmp = (if num' = 0 then ''0'' else digits_into (digit_chars type) (of_int base) num' [])"
  define ds where "ds = digits_text (digit_chars type) (nat base) (unat num')"
  note T = tmp_digits [OF b tmp_def, folded ds_def]
  define p' where "p' = (if int (length tmp) > p then int (length tmp) else p)"
  define w' where "w' = w - int cs - int (length pre) - p'"
  have F: "set_flag ty SIGN = set_flag type SIGN" "set_flag ty LEFT = set_flag type LEFT"
    "set_flag ty SPECIAL = set_flag type SPECIAL"
    "set_flag ty ZEROPAD \<longleftrightarrow> set_flag type ZEROPAD \<and> \<not> set_flag type LEFT" "sign_text ty num = sgn"
    "number_prefix ty = number_prefix type"
    by (auto simp: ty_def clear_zeropad sgn_def)
  obtain c where c: "number_sign ty num w = (c, num', w - int cs)" "sgn = (if c = NUL then [] else [c])"
    using number_sign_text [of ty num w] unfolding F(1,5) num'_def cs_def by metis
  have cs: "cs \<le> 1" and lp: "length pre \<le> 2"
    by (auto simp: cs_def sgn_def sign_text_def pre_def prefix_text_def)
  have p'b: "p' < 2 ^ 30" "0 \<le> p'"
    using T(2) p by (auto simp: p'_def)
  have ok: "int32 w' = Inr w'"
    using cs lp p'b w by (simp add: int32_def w'_def)
  have lpw: "(if set_flag type SPECIAL then if base = 16 then w - int cs - 2 else if base = 8 then w - int cs - 1 else w - int cs
      else w - int cs) = w - int cs - int (length pre)"
    by (simp add: pre_def prefix_text_def)
  have lt: "length tmp = length ds"
    unfolding T(1) [symmetric] by simp
  define body where "body = replicate (nat (p - int (length ds))) (CHR ''0'') @ ds"
  have body: "replicate (nat (p' - int (length tmp))) (CHR ''0'') @ rev tmp = body"
    by (simp add: body_def T(1) lt p'_def)
  have lb: "int (length body) = p'"
    by (simp add: body_def p'_def lt)
  have pad: "nat w' = nat (w - int (cs + length pre + length body))"
    by (simp add: w'_def lb algebra_simps)
  have "number str num base w p type =
      Inr (Some (str @ (if set_flag type LEFT then sgn @ pre @ body @ replicate (nat w') (CHR '' '')
         else if set_flag type ZEROPAD then sgn @ pre @ replicate (nat w') (CHR ''0'') @ body
         else replicate (nat w') (CHR '' '') @ sgn @ pre @ body)))"
    using b T(2) c(2) body
    unfolding number_def Let_def ty_def [symmetric] digit_chars_def [symmetric] c(1) prod.case F(3) lpw tmp_def [symmetric]
      p'_def [symmetric] w'_def [symmetric] ok ebind.simps F(2,6) number_prefix_text pre_def [symmetric]
    by (simp add: loop_closed set_flag_zeropad_left F)
  then show ?thesis
    unfolding number_text_def Let_def sgn_def [symmetric] pre_def [symmetric] magnitude_def num'_def [symmetric]
      ds_def [symmetric] body_def [symmetric] cs_def [symmetric] pad .
qed

section \<open>Reading a number back\<close>

definition digit_of :: "char \<Rightarrow> nat" where
  "digit_of c = (if of_char c < (58 :: nat) then of_char c - 48 else if of_char c < (97 :: nat) then of_char c - 55 else of_char c - 87)"

definition read_digits :: "nat \<Rightarrow> string \<Rightarrow> nat" where
  "read_digits b s = foldl (\<lambda>v c. v * b + digit_of c) 0 s"

definition read_text :: "nat \<Rightarrow> string \<Rightarrow> int" where
  "read_text b s =
     (case filter (\<lambda>c. c \<noteq> CHR '' '') s of
        [] \<Rightarrow> 0
      | c # t \<Rightarrow> if c = CHR ''-'' then - int (read_digits b t)
                else if c = CHR ''+'' then int (read_digits b t) else int (read_digits b (c # t)))"

lemma digit_chars_ok:
  assumes "d < 36"
  shows "digit_of (digit_chars type ! d) = d" and "digit_chars type ! d \<notin> {CHR '' '', CHR ''-'', CHR ''+''}"
proof -
  have "list_all (\<lambda>ds. list_all (\<lambda>d. digit_of (ds ! d) = d \<and> ds ! d \<notin> {CHR '' '', CHR ''-'', CHR ''+''}) [0..<36])
      [lower_digits, upper_digits]"
    by code_simp
  with assms show "digit_of (digit_chars type ! d) = d" "digit_chars type ! d \<notin> {CHR '' '', CHR ''-'', CHR ''+''}"
    by (auto simp: digit_chars_def list_all_iff)
qed

lemma read_digits_append: "read_digits b (xs @ ys) = read_digits b xs * b ^ length ys + read_digits b ys"
proof (induction ys rule: rev_induct)
  case Nil
  then show ?case by (simp add: read_digits_def)
next
  case (snoc y ys)
  have "read_digits b (zs @ [y]) = read_digits b zs * b + digit_of y" for zs
    by (simp add: read_digits_def)
  from this [of "xs @ ys"] this [of ys] snoc show ?case
    by (simp add: algebra_simps)
qed

lemma digit_of_0: "digit_of (CHR ''0'') = 0"
  by (simp add: digit_of_def)

lemma read_zeros [simp]: "read_digits b (replicate k (CHR ''0'') @ s) = read_digits b s"
proof -
  have "read_digits b (replicate k (CHR ''0'')) = 0"
  proof (induction k)
    case (Suc k)
    then show ?case
      using read_digits_append [of b "[CHR ''0'']" "replicate k (CHR ''0'')"]
      by (simp add: read_digits_def digit_of_0)
  qed (simp add: read_digits_def)
  then show ?thesis
    by (simp add: read_digits_append)
qed

lemma read_digits_text:
  assumes "2 \<le> b" and "b \<le> 36"
  shows "read_digits b (digits_text (digit_chars type) b n) = n"
proof (cases "n = 0")
  case True
  then show ?thesis
    by (simp add: digits_text_def read_digits_def digit_of_0)
next
  case False
  have "read_digits b (map ((!) (digit_chars type)) (rev ds)) = undigs b ds" if "\<forall>d \<in> set ds. d < 36" for ds
    using that
  proof (induction ds)
    case (Cons d ds)
    then show ?case
      using digit_chars_ok(1) [of d type]
      by (simp add: read_digits_append undigs_def) (simp add: read_digits_def)
  qed (simp add: read_digits_def undigs_def)
  moreover have "\<forall>d \<in> set (digs b n). d < 36"
    using digs_less [of _ b n] assms(2) by fastforce
  ultimately show ?thesis
    using undigs_digs [OF assms(1), of n] False by (simp add: digits_text_def)
qed

lemma digits_text_chars:
  assumes "2 \<le> b" and "b \<le> 36" and "c \<in> set (digits_text (digit_chars type) b n)"
  shows "c \<notin> {CHR '' '', CHR ''-'', CHR ''+''}"
proof (cases "n = 0")
  case True
  with assms(3) show ?thesis by (simp add: digits_text_def)
next
  case False
  then obtain d where "c = digit_chars type ! d" "d \<in> set (digs b n)"
    using assms(3) by (auto simp: digits_text_def)
  with digs_less [of d b n] assms(2) digit_chars_ok(2) [of d type] show ?thesis
    by auto
qed

lemma filter_replicate_id: "filter P (replicate k c) = (if P c then replicate k c else [])"
  by (induction k) auto

lemma digits_text_nonempty: "2 \<le> b \<Longrightarrow> digits_text ds b n \<noteq> []"
  by (simp add: digits_text_def digs_nonempty)

lemma sint_64: "sint (x :: u64) = (if bit x 63 then uint x - 2 ^ 64 else uint x)"
proof -
  have "take_bit 64 (uint x) = uint x"
    using unsigned_less [of x, where ?'a = int] by (intro take_bit_int_eq_self) simp_all
  then show ?thesis
    by (simp add: sint_uint signed_take_bit_eq_take_bit_minus bit_unsigned_iff)
qed

lemma uint_lt_64: "uint (x :: u64) < 2 ^ 64"
  using unsigned_less [of x, where ?'a = int] by simp

lemma neg_sint: "sint (x :: u64) < 0 \<Longrightarrow> int (unat (- x)) = - sint x"
proof -
  assume n: "sint x < 0"
  then have x: "x \<noteq> 0" by auto
  have "sint x = uint x - 2 ^ 64"
    using n by (auto simp: sint_64 split: if_splits)
  moreover have "uint (- x) = 2 ^ 64 - uint x"
    using x uint_lt_64 [of x] by (simp add: uint_word_ariths(4) zmod_zminus1_eq_if uint_0_iff)
  ultimately show ?thesis
    using uint_lt_64 [of x] by (simp add: unat_eq_nat_uint)
qed

lemma magnitude_value:
  "(if set_flag type SIGN \<and> sint num < 0 then - int (magnitude type num) else int (magnitude type num)) =
     (if set_flag type SIGN then sint num else uint num)"
proof (cases "set_flag type SIGN")
  case True
  have "0 \<le> sint num \<Longrightarrow> uint num = sint num"
    using uint_lt_64 [of num] by (auto simp: sint_64 split: if_splits)
  with True neg_sint [of num] show ?thesis
    by (simp add: magnitude_def)
next
  case False
  then show ?thesis by (simp add: magnitude_def)
qed

lemma read_number_text:
  assumes b: "2 \<le> base" "base \<le> 36" and sp: "\<not> set_flag type SPECIAL"
  shows "read_text (nat base) (number_text num base w p type) = (if set_flag type SIGN then sint num else uint num)"
proof -
  define b' where "b' = nat base"
  have b': "2 \<le> b'" "b' \<le> 36"
    using b by (simp_all add: b'_def)
  define n where "n = magnitude type num"
  define ds where "ds = digits_text (digit_chars type) b' n"
  define sgn where "sgn = filter (\<lambda>c. c \<noteq> CHR '' '') (sign_text type num)"
  have ds: "filter (\<lambda>c. c \<noteq> CHR '' '') ds = ds"
    using digits_text_chars [OF b', of _ type n] by (auto simp: ds_def filter_id_conv)
  define z where "z = nat (p - int (length ds))"
  obtain pad where t: "number_text num base w p type =
      (if set_flag type LEFT then sign_text type num @ (replicate z (CHR ''0'') @ ds) @ replicate pad (CHR '' '')
       else if set_flag type ZEROPAD then sign_text type num @ replicate pad (CHR ''0'') @ (replicate z (CHR ''0'') @ ds)
       else replicate pad (CHR '' '') @ sign_text type num @ (replicate z (CHR ''0'') @ ds))"
    using sp unfolding number_text_def Let_def prefix_text_def b'_def [symmetric] n_def [symmetric] ds_def [symmetric]
      z_def [symmetric] by simp
  have "\<exists>k. filter (\<lambda>c. c \<noteq> CHR '' '') (number_text num base w p type) = sgn @ replicate k (CHR ''0'') @ ds"
    by (rule exI [of _ "if set_flag type ZEROPAD \<and> \<not> set_flag type LEFT then pad + z else z"])
      (simp add: t sgn_def filter_replicate_id ds replicate_add)
  then obtain k where k: "filter (\<lambda>c. c \<noteq> CHR '' '') (number_text num base w p type) = sgn @ replicate k (CHR ''0'') @ ds"
    by blast
  have rd: "read_digits b' (replicate k (CHR ''0'') @ ds) = n"
    by (simp add: ds_def read_digits_text [OF b'])
  have hd: "(case replicate k (CHR ''0'') @ ds of [] \<Rightarrow> 0
      | c # t \<Rightarrow> if c = CHR ''-'' then - int (read_digits b' t)
                else if c = CHR ''+'' then int (read_digits b' t) else int (read_digits b' (c # t))) = int n"
  proof (cases "replicate k (CHR ''0'') @ ds")
    case Nil
    then show ?thesis
      using digits_text_nonempty [OF b'(1)] by (simp add: ds_def)
  next
    case (Cons c t)
    have "c \<in> set (replicate k (CHR ''0'') @ ds)"
      unfolding Cons by simp
    then have "c \<notin> {CHR ''-'', CHR ''+''}"
      using digits_text_chars [OF b', of c type n] by (auto simp: ds_def)
    then show ?thesis
      using rd unfolding Cons by simp
  qed
  have "read_text b' (number_text num base w p type) = (if set_flag type SIGN \<and> sint num < 0 then - int n else int n)"
    using hd rd unfolding read_text_def k by (auto simp: sgn_def sign_text_def)
  then show ?thesis
    unfolding b'_def [symmetric] n_def magnitude_value .
qed

lemma number_text_length:
  "int (length (number_text num base w p type)) =
     (let neg = (if sign_text type num = ''-'' then 1 else 0);
          full = int (length (sign_text type num @ prefix_text type base)) +
            max p (int (length (digits_text (digit_chars type) (nat base) (magnitude type num))))
      in neg + max w (full - neg))"
  by (simp add: number_text_def Let_def max_def)

section \<open>Formats\<close>

lemma peek_Cons [simp]: "peek (c # f) = c" "peek [] = NUL"
  by (simp_all add: peek_def)

lemma emit_emit [simp]: "emit b (emit a st) = emit (a @ b) st" "emit [] st = st"
  by (simp_all add: emit_def)

definition plain :: "string \<Rightarrow> bool" where
  "plain t \<longleftrightarrow> NUL \<notin> set t \<and> CHR ''%'' \<notin> set t"

lemma myprintf_from_plain: "plain t \<Longrightarrow> myprintf_from (t @ f) st = myprintf_from f (emit t st)"
proof (induction t arbitrary: st)
  case (Cons c t)
  then have "c \<noteq> NUL" "c \<noteq> CHR ''%''" "plain t"
    by (auto simp: plain_def)
  then show ?case
    using Cons.IH [of "emit [c] st"] by (simp add: myprintf_from.simps [of "c # t @ f"])
qed simp

lemma myprintf_from_Nil [simp]: "myprintf_from [] st = Inr st"
  by (simp add: myprintf_from.simps)

lemma myprintf_from_percent: "myprintf_from (CHR ''%'' # f) st = ebind (convert f st) (\<lambda>(f, st). myprintf_from f st)"
  by (simp add: myprintf_from.simps [of "CHR ''%'' # f"] NUL_def)

lemma printk_loop_each:
  "i + length cs \<le> 1024 \<Longrightarrow> printk_loop i cs s = put_each putchar cs s"
proof (induction cs arbitrary: i s)
  case (Cons c cs)
  then have "\<not> 1024 < i"
    by simp
  then have "(\<lambda>s. if i > CONSOLE_PRINT_BUFFER_SIZE then Inr s else printk_loop (i + 1) cs s) = put_each putchar cs"
    using Cons by (auto simp: CONSOLE_PRINT_BUFFER_SIZE_def)
  then show ?case
    by simp
qed simp

lemma tx_ready_ram [simp]: "tx_ready (s\<lparr>ram := m\<rparr>) = tx_ready s"
  by (rule tx_ready_dev) simp

lemma printk_ok:
  assumes "tx_ready s" and "myprintf 1024 fmt arg (ram s) = Inr (buf, m)" and "length buf < 1024"
  shows "\<exists>s'. printk fmt arg s = Inr (int (length buf), s') \<and> tx_ready s' \<and>
    uart_out (trace s') = uart_out (trace s) @ concat (map crlf buf) \<and> bus (trace s') = bus (trace s) \<and>
    ram s' = m \<and> dev s' = dev s"
proof -
  obtain s' where "put_each putchar buf (s\<lparr>ram := m\<rparr>) = Inr s'" "tx_ready s'"
    "uart_out (trace s') = uart_out (trace s) @ concat (map crlf buf)" "uart_rest s' = uart_rest (s\<lparr>ram := m\<rparr>)"
    using pc.put_each_ok [of "s\<lparr>ram := m\<rparr>" buf] assms(1) by auto
  then show ?thesis
    using assms(2,3) printk_loop_each [of 0 buf] by (simp add: printk_def CONSOLE_PRINT_BUFFER_SIZE_def uart_rest_def)
qed

section \<open>Properties\<close>

text \<open>
  C10: \<^verbatim>\<open>number\<close> terminates for every base from 2 to 36, never overruns its 128-byte buffer, and appends
  exactly the field \<open>number_text\<close> describes. That field has the requested width or the length the
  number needs, whichever is larger, except that a negative number takes one character more: the
  code takes \<^verbatim>\<open>+\<close> and blank signs off the width, but not the minus sign.
\<close>

theorem number_format:
  assumes "2 \<le> base" and "base \<le> 36" and "- (2 ^ 29) \<le> w" and "w < 2 ^ 31" and "p < 2 ^ 30"
  shows "number str num base w p type = Inr (Some (str @ number_text num base w p type)) \<and>
    int (length (number_text num base w p type)) =
      (let neg = (if sign_text type num = ''-'' then 1 else 0);
           full = int (length (sign_text type num @ prefix_text type base)) +
             max p (int (length (digits_text (digit_chars type) (nat base) (magnitude type num))))
       in neg + max w (full - neg))"
  using number_eq_text [OF assms] number_text_length by blast

theorem number_format_witness:
  "number [] (- 5) 10 8 (- 1) SIGN = Inr (Some ''       -5'') \<and> number [] 5 10 8 (- 1) SIGN = Inr (Some ''       5'')"
proof -
  have "number_text (- 5) 10 8 (- 1) SIGN = ''       -5''" "number_text 5 10 8 (- 1) SIGN = ''       5''"
    by code_simp+
  then show ?thesis
    using number_format [of 10 8 "- 1" "[]" "- 5" SIGN] number_format [of 10 8 "- 1" "[]" 5 SIGN] by simp
qed

text \<open>
  Printing loses nothing: for every base from 2 to 36, width, precision and set of flags without
  \<^verbatim>\<open>#\<close>, reading the printed field back gives the number, signed if the conversion is signed.
\<close>

theorem number_roundtrip:
  assumes "2 \<le> base" and "base \<le> 36" and "- (2 ^ 29) \<le> w" and "w < 2 ^ 31" and "p < 2 ^ 30"
    and "\<not> set_flag type SPECIAL"
  shows "\<exists>t. number str num base w p type = Inr (Some (str @ t)) \<and>
    read_text (nat base) t = (if set_flag type SIGN then sint num else uint num)"
  using number_eq_text [OF assms(1-5)] read_number_text [OF assms(1,2,6)] by blast

theorem number_roundtrip_witness:
  "\<exists>t. number [] 0x12345678 16 20 (- 1) (SMALL OR LEFT) = Inr (Some t) \<and> read_text 16 t = 0x12345678"
  using number_roundtrip [of 16 20 "- 1" "SMALL OR LEFT" "[]" "0x12345678"] by (simp add: set_flag_def flag_defs)

text \<open>
  C24: \<^verbatim>\<open>printk\<close> on a line that drains: if the formatted text and its NUL fit the 1024-byte buffer, exactly
  that text goes out, with a carriage return before every line feed, \<^verbatim>\<open>printk\<close> returns its length, and
  no other device register is touched; a longer text overruns \<^verbatim>\<open>print_buf\<close>, since \<^verbatim>\<open>myprintf\<close> ignores
  the size it is given.
\<close>

theorem printk_delivers:
  assumes "tx_ready s" and "myprintf 1024 fmt arg (ram s) = Inr (buf, m)"
  shows "if length buf < 1024
    then \<exists>s'. printk fmt arg s = Inr (int (length buf), s') \<and>
      uart_out (trace s') = uart_out (trace s) @ concat (map crlf buf) \<and> bus (trace s') = bus (trace s) \<and> ram s' = m
    else printk fmt arg s = Inl Out_Of_Bounds"
  using printk_ok [OF assms] assms(2) by (auto simp: printk_def CONSOLE_PRINT_BUFFER_SIZE_def)

theorem printk_delivers_witness:
  "\<exists>s'. printk ''call do_sync\<newline>'' [] hi_machine = Inr (13, s') \<and>
    uart_out (trace s') = ''call do_sync'' @ [CHR 0x0D, CHR 0x0A]"
proof -
  have "plain ''call do_sync\<newline>''"
    by (simp add: plain_def NUL_def)
  from myprintf_from_plain [OF this, of "[]"]
  have "myprintf 1024 ''call do_sync\<newline>'' [] (ram hi_machine) = Inr (''call do_sync\<newline>'', ram hi_machine)"
    by (simp add: myprintf_def emit_def)
  moreover have "tx_ready hi_machine"
    by (rule idle_tx_ready) (simp add: hi_machine_def)
  ultimately show ?thesis
    using printk_delivers [of hi_machine "''call do_sync\<newline>''" "[]"] by (auto simp: crlf_def hi_machine_def)
qed

text \<open>
  C33: \<^verbatim>\<open>%%\<close> does not just print a percent sign: its case falls through to the number code, in every state of the
  formatter. Without an argument left \<^verbatim>\<open>va_arg\<close> reads past the arguments. With one, and no number
  conversion before it, as in a format that begins with plain text and \<^verbatim>\<open>%%\<close>, \<^verbatim>\<open>number\<close> gets the
  uninitialised \<^verbatim>\<open>base\<close>. After a number conversion the percent sign does come out, followed by the next
  argument, which it consumes, as an unsigned number in the base left from that conversion.
\<close>

theorem percent_percent_faults:
  assumes "plain t"
  shows "myprintf sz (t @ ''%%'' @ f) arg m = Inl (if arg = [] then Missing_Arg else Uninitialised) \<and>
    (\<forall>st. args st = [] \<longrightarrow> convert (CHR ''%'' # f) st = Inl Missing_Arg) \<and>
    (\<forall>st. args st \<noteq> [] \<and> base_var st = None \<longrightarrow> convert (CHR ''%'' # f) st = Inl Uninitialised) \<and>
    (\<forall>st b a as. args st = a # as \<and> base_var st = Some b \<and> 2 \<le> b \<and> b \<le> 36 \<longrightarrow> convert (CHR ''%'' # f) st =
       Inr (f, st\<lparr>args := as, out := out st @ ''%'' @ number_text (ucast (ucast a :: u32)) b (- 1) (- 1) 0\<rparr>))"
proof -
  note defs = convert_def parse_width_def parse_precision_def parse_qualifier_def is_digit_def conv_num_def conv_kind_def NUL_def
    va_arg_def emit_def of_opt_def
  have none: "convert (CHR ''%'' # f) st = Inl (if args st = [] then Missing_Arg else Uninitialised)"
    if "args st = [] \<or> base_var st = None" for st
    using that by (cases "args st") (auto simp: defs)
  have some: "convert (CHR ''%'' # f) st =
      Inr (f, st\<lparr>args := as, out := out st @ ''%'' @ number_text (ucast (ucast a :: u32)) b (- 1) (- 1) 0\<rparr>)"
    if "args st = a # as" "base_var st = Some b" "2 \<le> b" "b \<le> 36" for st b a as
    using that by (simp add: defs put_number_def fetch_num_def set_flag_def number_eq_text)
  have "myprintf sz (t @ ''%%'' @ f) arg m = Inl (if arg = [] then Missing_Arg else Uninitialised)"
    using myprintf_from_plain [OF assms, of "CHR ''%'' # CHR ''%'' # f"]
      none [of "emit t \<lparr>out = [], args = arg, base_var = None, va_mem = m\<rparr>"]
    by (simp add: myprintf_def myprintf_from_percent emit_def)
  with none some show ?thesis
    by auto
qed

theorem percent_percent_faults_witness:
  "myprintf 1024 ''100%%'' [7] (\<lambda>_. 0) = Inl Uninitialised \<and>
   convert ''% of %d'' \<lparr>out = ''5'', args = [7, 9], base_var = Some 10, va_mem = \<lambda>_. 0\<rparr> =
     Inr ('' of %d'', \<lparr>out = ''5%7'', args = [9], base_var = Some 10, va_mem = \<lambda>_. 0\<rparr>)"
proof -
  have p: "plain ''100''"
    by (simp add: plain_def NUL_def)
  have "number_text (ucast (ucast (7 :: u64) :: u32)) 10 (- 1) (- 1) 0 = ''7''"
    by code_simp
  then show ?thesis
    using percent_percent_faults [OF p, of 1024 "[]" "[7]" "\<lambda>_. 0"]
      percent_percent_faults [OF p, of 1024 "'' of %d''" "[]" "\<lambda>_. 0", THEN conjunct2, THEN conjunct2, THEN conjunct2, rule_format,
        of "\<lparr>out = ''5'', args = [7, 9], base_var = Some 10, va_mem = \<lambda>_. 0\<rparr>" 7 "[9]" 10]
    by simp
qed

end
