(* ===== verification/Printk_Conv.thy ===== *)
theory Printk_Conv
  imports Printk_Spec
begin

text \<open>
  The conversions the kernel's own messages use, as rewrite rules (\<open>conv_rules\<close>), and a bound on the
  length of a converted number. With them a message is evaluated by simplification, for all values
  of its arguments.
\<close>

named_theorems conv_rules \<open>the conversions of the kernel's messages\<close>

lemmas conv_defs = convert_def parse_width_def parse_precision_def parse_qualifier_def is_digit_def
  scan_number_def int32_def conv_num_def conv_kind_def va_arg_def of_opt_def put_number_def fetch_num_def number_eq_text
  set_flag_def

lemma convert_u [conv_rules]:
  "args st = a # as \<Longrightarrow> convert (CHR ''u'' # f) st =
     Inr (f, st\<lparr>args := as, base_var := Some 10, out := out st @ number_text (ucast (ucast a :: u32)) 10 (- 1) (- 1) 0\<rparr>)"
  by (simp add: conv_defs)

lemma convert_d [conv_rules]:
  "args st = a # as \<Longrightarrow> convert (CHR ''d'' # f) st =
     Inr (f, st\<lparr>args := as, base_var := Some 10, out := out st @ number_text (scast (ucast a :: u32)) 10 (- 1) (- 1) SIGN\<rparr>)"
  by (simp add: conv_defs) (simp add: flag_defs)

lemma convert_x [conv_rules]:
  "args st = a # as \<Longrightarrow> convert (CHR ''x'' # f) st =
     Inr (f, st\<lparr>args := as, base_var := Some 16, out := out st @ number_text (ucast (ucast a :: u32)) 16 (- 1) (- 1) SMALL\<rparr>)"
  by (simp add: conv_defs) (simp add: flag_defs)

lemma convert_0x [conv_rules]:
  "args st = a # as \<Longrightarrow> convert (CHR ''0'' # CHR ''x'' # f) st =
     Inr (f, st\<lparr>args := as, base_var := Some 16,
       out := out st @ number_text (ucast (ucast a :: u32)) 16 (- 1) (- 1) (ZEROPAD OR SMALL)\<rparr>)"
  by (simp add: conv_defs) (simp add: flag_defs)

lemma convert_08x [conv_rules]:
  "args st = a # as \<Longrightarrow> convert (CHR ''0'' # CHR ''8'' # CHR ''x'' # f) st =
     Inr (f, st\<lparr>args := as, base_var := Some 16,
       out := out st @ number_text (ucast (ucast a :: u32)) 16 8 (- 1) (ZEROPAD OR SMALL)\<rparr>)"
  by (simp add: conv_defs) (simp add: flag_defs)

lemma convert_08lx [conv_rules]:
  "args st = a # as \<Longrightarrow> convert (CHR ''0'' # CHR ''8'' # CHR ''l'' # CHR ''x'' # f) st =
     Inr (f, st\<lparr>args := as, base_var := Some 16, out := out st @ number_text a 16 8 (- 1) (ZEROPAD OR SMALL)\<rparr>)"
  by (simp add: conv_defs)

lemma convert_6ld [conv_rules]:
  "args st = a # as \<Longrightarrow> convert (CHR ''6'' # CHR ''l'' # CHR ''d'' # f) st =
     Inr (f, st\<lparr>args := as, base_var := Some 10, out := out st @ number_text a 10 6 (- 1) SIGN\<rparr>)"
  by (simp add: conv_defs)

lemma convert_lu [conv_rules]:
  "args st = a # as \<Longrightarrow> convert (CHR ''l'' # CHR ''u'' # f) st =
     Inr (f, st\<lparr>args := as, base_var := Some 10, out := out st @ number_text a 10 (- 1) (- 1) 0\<rparr>)"
  by (simp add: conv_defs)

lemma convert_llu [conv_rules]:
  "args st = a # as \<Longrightarrow> convert (CHR ''l'' # CHR ''l'' # CHR ''u'' # f) st =
     Inr (f, st\<lparr>args := as, base_var := Some 10, out := out st @ number_text a 10 (- 1) (- 1) 0\<rparr>)"
  by (simp add: conv_defs)

lemma convert_ld [conv_rules]:
  "args st = a # as \<Longrightarrow> convert (CHR ''l'' # CHR ''d'' # f) st =
     Inr (f, st\<lparr>args := as, base_var := Some 10, out := out st @ number_text a 10 (- 1) (- 1) SIGN\<rparr>)"
  by (simp add: conv_defs)

section \<open>Strings\<close>

lemma c_str_arg:
  assumes "c_str m a cs" and "a \<noteq> 0"
  shows "str_arg m a = Inr (int (length cs), mem_chars m a)" and "mem_chars m a (length cs) = cs"
proof -
  have len: "length cs < 2 ^ 31"
    using assms by (simp add: c_str_def)
  have nz: "m (a + of_nat i) \<noteq> 0" if "i < length cs" for i
    using assms(1) that nth_mem [OF that] unfolding c_str_def by (simp, metis)
  have "strlen_loop m a = Some (a + of_nat (length cs))"
    by (rule strlen_loop_run) (use assms(1) nz in \<open>auto simp: c_str_def\<close>)
  then have "strlen m a = Some (of_nat (length cs))"
    by (simp add: strlen_def)
  moreover have "sint (ucast (of_nat (length cs) :: u64) :: u32) = int (length cs)"
  proof -
    have "(ucast (of_nat (length cs) :: u64) :: u32) = of_nat (length cs)"
      by (rule bit_eqI) (auto simp: bit_simps)
    moreover have "uint (of_nat (length cs) :: u32) = int (length cs)"
      using len by (simp add: uint_nat unat_of_nat)
    moreover have "signed_take_bit 31 (int (length cs)) = int (length cs)"
      using len by (intro signed_take_bit_int_eq_self) auto
    ultimately show ?thesis
      by (simp add: sint_uint)
  qed
  ultimately show "str_arg m a = Inr (int (length cs), mem_chars m a)"
    using assms(2) by (simp add: str_arg_def of_opt_def)
  show "mem_chars m a (length cs) = cs"
    using assms(1) by (intro nth_equalityI) (auto simp: mem_chars_def c_str_def)
qed

lemma convert_s [conv_rules]:
  "args st = a # as \<Longrightarrow> c_str (va_mem st) a cs \<Longrightarrow> a \<noteq> 0 \<Longrightarrow>
   convert (CHR ''s'' # f) st = Inr (f, st\<lparr>args := as, out := out st @ cs\<rparr>)"
  by (simp add: convert_def parse_width_def parse_precision_def parse_qualifier_def is_digit_def conv_s_def va_arg_def
      c_str_arg loop_closed set_flag_def)

lemma convert_s_null [conv_rules]:
  "args st = 0 # as \<Longrightarrow> convert (CHR ''s'' # f) st = Inr (f, st\<lparr>args := as, out := out st @ ''<NULL>''\<rparr>)"
  by (simp add: convert_def parse_width_def parse_precision_def parse_qualifier_def is_digit_def conv_s_def va_arg_def
      str_arg_def loop_closed set_flag_def)

section \<open>Lengths\<close>

lemma digits_text_length:
  assumes "2 \<le> b" and "n < 2 ^ 64"
  shows "length (digits_text ds b n) \<le> 64"
  using length_digs [OF assms] by (simp add: digits_text_def)

lemma number_text_short:
  assumes "2 \<le> base" and "w \<le> 60" and "p \<le> 60"
  shows "length (number_text num base w p type) \<le> 68"
proof -
  have "length (digits_text (digit_chars type) (nat base) (magnitude type num)) \<le> 64"
    using assms(1) by (intro digits_text_length) (auto simp: magnitude_def)
  moreover have "length (sign_text type num) \<le> 1" "length (prefix_text type base) \<le> 2"
    by (simp_all add: sign_text_def prefix_text_def)
  ultimately have "int (length (number_text num base w p type)) \<le> 68"
    using assms(2,3) unfolding number_text_length Let_def by auto
  then show ?thesis by simp
qed

lemma myprintf_from_char [conv_rules]:
  "c \<noteq> CHR 0x00 \<Longrightarrow> c \<noteq> CHR ''%'' \<Longrightarrow> myprintf_from (c # f) st = myprintf_from f (st\<lparr>out := out st @ [c]\<rparr>)"
  by (simp add: myprintf_from.simps [of "c # f"] NUL_def emit_def)

declare myprintf_from_percent [conv_rules]

section \<open>Code that only prints\<close>

text \<open>
  \<open>printed s s' txt\<close>: from \<open>s\<close> to \<open>s'\<close> the text went out on the console and nothing else changed.
  \<open>prints m P txt\<close>: with memory \<open>m\<close>, \<open>P\<close> returns and does just that. The rules compose such code.
\<close>

definition printed :: "machine \<Rightarrow> machine \<Rightarrow> string \<Rightarrow> bool" where
  "printed s s' txt \<longleftrightarrow> tx_ready s' \<and> ram s' = ram s \<and> dev s' = dev s \<and> bus (trace s') = bus (trace s) \<and>
     uart_out (trace s') = uart_out (trace s) @ concat (map crlf txt)"

definition prints :: "mem \<Rightarrow> (machine \<Rightarrow> fault + machine) \<Rightarrow> string \<Rightarrow> bool" where
  "prints m P txt \<longleftrightarrow> (\<forall>s. tx_ready s \<and> ram s = m \<longrightarrow> (\<exists>s'. P s = Inr s' \<and> printed s s' txt))"

named_theorems prints_intros \<open>composition of code that only prints\<close>

lemma prints_bind [prints_intros]:
  assumes "prints m P t1" and "prints m Q t2"
  shows "prints m (\<lambda>s. ebind (P s) (\<lambda>s. Q s)) (t1 @ t2)"
  unfolding prints_def
proof (intro allI impI)
  fix s
  assume s: "tx_ready s \<and> ram s = m"
  obtain s1 where s1: "P s = Inr s1" "printed s s1 t1"
    using assms(1) s by (auto simp: prints_def)
  then have "tx_ready s1 \<and> ram s1 = m"
    using s by (simp add: printed_def)
  then obtain s2 where "Q s1 = Inr s2" "printed s1 s2 t2"
    using assms(2) by (auto simp: prints_def)
  with s1 show "\<exists>s'. ebind (P s) (\<lambda>s. Q s) = Inr s' \<and> printed s s' (t1 @ t2)"
    by (auto simp: printed_def)
qed

lemma prints_say [prints_intros]:
  assumes "myprintf 1024 fmt arg m = Inr (txt, m)" and "length txt < 1024"
  shows "prints m (\<lambda>s. say fmt arg s) txt"
  using printk_ok [OF _ _ assms(2), of _ fmt arg m] assms(1) by (fastforce simp: prints_def say_def printed_def)

lemma prints_Inr [prints_intros]: "prints m (\<lambda>s. Inr s) []"
  by (simp add: prints_def printed_def)

lemma prints_if [prints_intros]:
  "(b \<Longrightarrow> prints m P t) \<Longrightarrow> (\<not> b \<Longrightarrow> prints m Q u) \<Longrightarrow> prints m (\<lambda>s. if b then P s else Q s) (if b then t else u)"
  by simp

text \<open>Code that prints and then faults.\<close>

definition faults :: "mem \<Rightarrow> (machine \<Rightarrow> fault + machine) \<Rightarrow> fault \<Rightarrow> bool" where
  "faults m P e \<longleftrightarrow> (\<forall>s. tx_ready s \<and> ram s = m \<longrightarrow> P s = Inl e)"

lemma faults_bind:
  assumes "prints m P t" and "faults m Q e"
  shows "faults m (\<lambda>s. ebind (P s) (\<lambda>s. Q s)) e"
  unfolding faults_def
proof (intro allI impI)
  fix s
  assume s: "tx_ready s \<and> ram s = m"
  then obtain s1 where "P s = Inr s1" "printed s s1 t"
    using assms(1) by (auto simp: prints_def)
  with s assms(2) show "ebind (P s) (\<lambda>s. Q s) = Inl e"
    by (simp add: printed_def faults_def)
qed

lemma faults_if: "b \<Longrightarrow> faults m P e \<Longrightarrow> faults m (\<lambda>s. if b then P s else Q s) e"
  by simp

lemma printsE:
  assumes "prints m P txt" and "tx_ready s" and "ram s = m"
  obtains s' where "P s = Inr s'" and "printed s s' txt"
  using assms by (auto simp: prints_def)

abbreviation dec :: "u64 \<Rightarrow> string" where
  "dec n \<equiv> number_text n 10 (- 1) (- 1) 0"

lemma dec_short: "length (dec n) \<le> 68"
  by (rule number_text_short) simp_all

section \<open>Literals\<close>

text \<open>
  The linker placed every string literal the code names somewhere in memory: \<open>lit\<close> gives the address.
  \<open>lit_mem\<close> is a memory that holds a list of literals 64 bytes apart from address 4096 on.
\<close>

definition lits_in :: "string list \<Rightarrow> (string \<Rightarrow> u64) \<Rightarrow> mem \<Rightarrow> bool" where
  "lits_in ls lit m \<longleftrightarrow> (\<forall>t \<in> set ls. lit t \<noteq> 0 \<and> c_str m (lit t) t)"

lemma lits_inD:
  assumes "lits_in ls lit m" and "t \<in> set ls"
  shows "lit t \<noteq> 0" and "c_str m (lit t) t"
  using assms by (simp_all add: lits_in_def)

fun pos_of :: "'a \<Rightarrow> 'a list \<Rightarrow> nat" where
  "pos_of x [] = 0"
| "pos_of x (y # ys) = (if x = y then 0 else Suc (pos_of x ys))"

definition lit_addr :: "string list \<Rightarrow> string \<Rightarrow> u64" where
  "lit_addr ls t = of_nat (4096 + 64 * pos_of t ls)"

definition lit_mem :: "string list \<Rightarrow> mem" where
  "lit_mem ls a =
     (let i = (unat a - 4096) div 64; j = (unat a - 4096) mod 64
      in if 4096 \<le> unat a \<and> i < length ls \<and> j < length (ls ! i) then ord (ls ! i ! j) else 0)"

lemma pos_of_nth: "x \<in> set xs \<Longrightarrow> pos_of x xs < length xs \<and> xs ! pos_of x xs = x"
  by (induction xs) auto

lemma lit_mem_ok:
  assumes "length ls \<le> 100" and short: "\<And>t. t \<in> set ls \<Longrightarrow> length t \<le> 60 \<and> CHR 0x00 \<notin> set t"
  shows "lits_in ls (lit_addr ls) (lit_mem ls)"
  unfolding lits_in_def
proof
  fix t
  assume t: "t \<in> set ls"
  define k where "k = pos_of t ls"
  have k: "k < length ls" "k < 100" "ls ! k = t"
    using pos_of_nth [OF t] assms(1) by (auto simp: k_def)
  have u: "unat (lit_addr ls t + of_nat j) = 4096 + 64 * k + j" if "j < 64" for j
  proof -
    have "lit_addr ls t + of_nat j = of_nat (4096 + 64 * k + j)"
      by (simp add: lit_addr_def k_def)
    then show ?thesis
      using that k(2) by (simp only:) (rule unat_of_nat_64, simp)
  qed
  have "lit_mem ls (lit_addr ls t + of_nat j) = (if j < length t then ord (t ! j) else 0)" if "j < 64" for j
    using that k by (simp add: lit_mem_def u Let_def)
  moreover have "lit_addr ls t \<noteq> 0"
    using u [of 0] by auto
  ultimately show "lit_addr ls t \<noteq> 0 \<and> c_str (lit_mem ls) (lit_addr ls t) t"
    using short [OF t] by (simp add: c_str_def)
qed

section \<open>The conversions of the table dump\<close>

lemma convert_016lx [conv_rules]:
  "args st = a # as \<Longrightarrow> convert (CHR ''0'' # CHR ''1'' # CHR ''6'' # CHR ''l'' # CHR ''x'' # f) st =
     Inr (f, st\<lparr>args := as, base_var := Some 16, out := out st @ number_text a 16 16 (- 1) (ZEROPAD OR SMALL)\<rparr>)"
  by (simp add: conv_defs)

lemma convert_9lu [conv_rules]:
  "args st = a # as \<Longrightarrow> convert (CHR ''9'' # CHR ''l'' # CHR ''u'' # f) st =
     Inr (f, st\<lparr>args := as, base_var := Some 10, out := out st @ number_text a 10 9 (- 1) 0\<rparr>)"
  by (simp add: conv_defs)

lemma convert_c [conv_rules]:
  "args st = a # as \<Longrightarrow> convert (CHR ''c'' # f) st = Inr (f, st\<lparr>args := as, out := out st @ [chr (ucast a :: u8)]\<rparr>)"
  by (simp add: convert_def parse_width_def parse_precision_def parse_qualifier_def is_digit_def conv_c_def va_arg_def
      pre_pad.simps set_flag_def)


end
