(* ===== verification/Traps.thy ===== *)
theory Traps
  imports Irq Printk_Conv
begin

text \<open>
  Exceptions: the syndrome register of \<^verbatim>\<open>asm/esr.h\<close> and the handlers of \<^verbatim>\<open>arch/arm64/core/traps.c\<close>. The tables of
  strings are lists; a hole in \<^verbatim>\<open>data_fault_code\<close> is a null pointer and an index behind its last
  element is outside the array. \<open>lit\<close> gives the address at which the linker placed a string
  literal. A handler that ends in \<^verbatim>\<open>panic\<close> does not return: \<open>Spins\<close> is the state in which it loops.
\<close>

section \<open>The syndrome register\<close>

definition ESR_ELx_EC_UNKNOWN :: u64 where [yios_consts]: "ESR_ELx_EC_UNKNOWN = 0x00"
definition ESR_ELx_EC_WFx :: u64 where [yios_consts]: "ESR_ELx_EC_WFx = 0x01"
definition ESR_ELx_EC_CP15_32 :: u64 where [yios_consts]: "ESR_ELx_EC_CP15_32 = 0x03"
definition ESR_ELx_EC_CP15_64 :: u64 where [yios_consts]: "ESR_ELx_EC_CP15_64 = 0x04"
definition ESR_ELx_EC_CP14_MR :: u64 where [yios_consts]: "ESR_ELx_EC_CP14_MR = 0x05"
definition ESR_ELx_EC_CP14_LS :: u64 where [yios_consts]: "ESR_ELx_EC_CP14_LS = 0x06"
definition ESR_ELx_EC_FP_ASIMD :: u64 where [yios_consts]: "ESR_ELx_EC_FP_ASIMD = 0x07"
definition ESR_ELx_EC_CP10_ID :: u64 where [yios_consts]: "ESR_ELx_EC_CP10_ID = 0x08"
definition ESR_ELx_EC_PAC :: u64 where [yios_consts]: "ESR_ELx_EC_PAC = 0x09"
definition ESR_ELx_EC_CP14_64 :: u64 where [yios_consts]: "ESR_ELx_EC_CP14_64 = 0x0C"
definition ESR_ELx_EC_ILL :: u64 where [yios_consts]: "ESR_ELx_EC_ILL = 0x0E"
definition ESR_ELx_EC_SVC32 :: u64 where [yios_consts]: "ESR_ELx_EC_SVC32 = 0x11"
definition ESR_ELx_EC_HVC32 :: u64 where [yios_consts]: "ESR_ELx_EC_HVC32 = 0x12"
definition ESR_ELx_EC_SMC32 :: u64 where [yios_consts]: "ESR_ELx_EC_SMC32 = 0x13"
definition ESR_ELx_EC_SVC64 :: u64 where [yios_consts]: "ESR_ELx_EC_SVC64 = 0x15"
definition ESR_ELx_EC_HVC64 :: u64 where [yios_consts]: "ESR_ELx_EC_HVC64 = 0x16"
definition ESR_ELx_EC_SMC64 :: u64 where [yios_consts]: "ESR_ELx_EC_SMC64 = 0x17"
definition ESR_ELx_EC_SYS64 :: u64 where [yios_consts]: "ESR_ELx_EC_SYS64 = 0x18"
definition ESR_ELx_EC_SVE :: u64 where [yios_consts]: "ESR_ELx_EC_SVE = 0x19"
definition ESR_ELx_EC_IMP_DEF :: u64 where [yios_consts]: "ESR_ELx_EC_IMP_DEF = 0x1f"
definition ESR_ELx_EC_IABT_LOW :: u64 where [yios_consts]: "ESR_ELx_EC_IABT_LOW = 0x20"
definition ESR_ELx_EC_IABT_CUR :: u64 where [yios_consts]: "ESR_ELx_EC_IABT_CUR = 0x21"
definition ESR_ELx_EC_PC_ALIGN :: u64 where [yios_consts]: "ESR_ELx_EC_PC_ALIGN = 0x22"
definition ESR_ELx_EC_DABT_LOW :: u64 where [yios_consts]: "ESR_ELx_EC_DABT_LOW = 0x24"
definition ESR_ELx_EC_DABT_CUR :: u64 where [yios_consts]: "ESR_ELx_EC_DABT_CUR = 0x25"
definition ESR_ELx_EC_SP_ALIGN :: u64 where [yios_consts]: "ESR_ELx_EC_SP_ALIGN = 0x26"
definition ESR_ELx_EC_FP_EXC32 :: u64 where [yios_consts]: "ESR_ELx_EC_FP_EXC32 = 0x28"
definition ESR_ELx_EC_FP_EXC64 :: u64 where [yios_consts]: "ESR_ELx_EC_FP_EXC64 = 0x2C"
definition ESR_ELx_EC_SERROR :: u64 where [yios_consts]: "ESR_ELx_EC_SERROR = 0x2F"
definition ESR_ELx_EC_BREAKPT_LOW :: u64 where [yios_consts]: "ESR_ELx_EC_BREAKPT_LOW = 0x30"
definition ESR_ELx_EC_BREAKPT_CUR :: u64 where [yios_consts]: "ESR_ELx_EC_BREAKPT_CUR = 0x31"
definition ESR_ELx_EC_SOFTSTP_LOW :: u64 where [yios_consts]: "ESR_ELx_EC_SOFTSTP_LOW = 0x32"
definition ESR_ELx_EC_SOFTSTP_CUR :: u64 where [yios_consts]: "ESR_ELx_EC_SOFTSTP_CUR = 0x33"
definition ESR_ELx_EC_WATCHPT_LOW :: u64 where [yios_consts]: "ESR_ELx_EC_WATCHPT_LOW = 0x34"
definition ESR_ELx_EC_WATCHPT_CUR :: u64 where [yios_consts]: "ESR_ELx_EC_WATCHPT_CUR = 0x35"
definition ESR_ELx_EC_BKPT32 :: u64 where [yios_consts]: "ESR_ELx_EC_BKPT32 = 0x38"
definition ESR_ELx_EC_VECTOR32 :: u64 where [yios_consts]: "ESR_ELx_EC_VECTOR32 = 0x3A"
definition ESR_ELx_EC_BRK64 :: u64 where [yios_consts]: "ESR_ELx_EC_BRK64 = 0x3C"
definition ESR_ELx_EC_MAX :: u64 where [yios_consts]: "ESR_ELx_EC_MAX = 0x3F"

definition ESR_ELx_EC_SHIFT :: nat where [yios_consts]: "ESR_ELx_EC_SHIFT = 26"
definition ESR_ELx_EC_MASK :: u64 where [yios_consts]: "ESR_ELx_EC_MASK = push_bit ESR_ELx_EC_SHIFT 0x3F"

definition ESR_ELx_EC :: "u32 \<Rightarrow> u64" where
  "ESR_ELx_EC esr = drop_bit ESR_ELx_EC_SHIFT (ucast esr AND ESR_ELx_EC_MASK)"

definition ESR_ELx_IL_SHIFT :: nat where [yios_consts]: "ESR_ELx_IL_SHIFT = 25"
definition ESR_ELx_IL :: u64 where [yios_consts]: "ESR_ELx_IL = push_bit ESR_ELx_IL_SHIFT 1"
definition ESR_ELx_ISS_MASK :: u64 where [yios_consts]: "ESR_ELx_ISS_MASK = ESR_ELx_IL - 1"
definition ESR_ELx_WNR_SHIFT :: nat where [yios_consts]: "ESR_ELx_WNR_SHIFT = 6"
definition ESR_ELx_WNR :: u64 where [yios_consts]: "ESR_ELx_WNR = push_bit ESR_ELx_WNR_SHIFT 1"
definition ESR_ELx_SET_SHIFT :: nat where [yios_consts]: "ESR_ELx_SET_SHIFT = 11"
definition ESR_ELx_SET_MASK :: u64 where [yios_consts]: "ESR_ELx_SET_MASK = push_bit ESR_ELx_SET_SHIFT 3"
definition ESR_ELx_FnV_SHIFT :: nat where [yios_consts]: "ESR_ELx_FnV_SHIFT = 10"
definition ESR_ELx_FnV :: u64 where [yios_consts]: "ESR_ELx_FnV = push_bit ESR_ELx_FnV_SHIFT 1"
definition ESR_ELx_EA_SHIFT :: nat where [yios_consts]: "ESR_ELx_EA_SHIFT = 9"
definition ESR_ELx_EA :: u64 where [yios_consts]: "ESR_ELx_EA = push_bit ESR_ELx_EA_SHIFT 1"
definition ESR_ELx_S1PTW_SHIFT :: nat where [yios_consts]: "ESR_ELx_S1PTW_SHIFT = 7"
definition ESR_ELx_S1PTW :: u64 where [yios_consts]: "ESR_ELx_S1PTW = push_bit ESR_ELx_S1PTW_SHIFT 1"
definition ESR_ELx_ISV_SHIFT :: nat where [yios_consts]: "ESR_ELx_ISV_SHIFT = 24"
definition ESR_ELx_ISV :: u64 where [yios_consts]: "ESR_ELx_ISV = push_bit ESR_ELx_ISV_SHIFT 1"
definition ESR_ELx_SAS_SHIFT :: nat where [yios_consts]: "ESR_ELx_SAS_SHIFT = 22"
definition ESR_ELx_SAS :: u64 where [yios_consts]: "ESR_ELx_SAS = push_bit ESR_ELx_SAS_SHIFT 3"
definition ESR_ELx_SSE_SHIFT :: nat where [yios_consts]: "ESR_ELx_SSE_SHIFT = 21"
definition ESR_ELx_SSE :: u64 where [yios_consts]: "ESR_ELx_SSE = push_bit ESR_ELx_SSE_SHIFT 1"
definition ESR_ELx_SRT_SHIFT :: nat where [yios_consts]: "ESR_ELx_SRT_SHIFT = 16"
definition ESR_ELx_SRT_MASK :: u64 where [yios_consts]: "ESR_ELx_SRT_MASK = push_bit ESR_ELx_SRT_SHIFT 0x1F"
definition ESR_ELx_SF_SHIFT :: nat where [yios_consts]: "ESR_ELx_SF_SHIFT = 15"
definition ESR_ELx_SF :: u64 where [yios_consts]: "ESR_ELx_SF = push_bit ESR_ELx_SF_SHIFT 1"
definition ESR_ELx_AR_SHIFT :: nat where [yios_consts]: "ESR_ELx_AR_SHIFT = 14"
definition ESR_ELx_AR :: u64 where [yios_consts]: "ESR_ELx_AR = push_bit ESR_ELx_AR_SHIFT 1"
definition ESR_ELx_CM_SHIFT :: nat where [yios_consts]: "ESR_ELx_CM_SHIFT = 8"
definition ESR_ELx_CM :: u64 where [yios_consts]: "ESR_ELx_CM = push_bit ESR_ELx_CM_SHIFT 1"

definition esr_is_data_abort :: "u32 \<Rightarrow> bool" where
  "esr_is_data_abort esr \<longleftrightarrow>
     (let ec = ESR_ELx_EC esr in ec = ESR_ELx_EC_DABT_LOW \<or> ec = ESR_ELx_EC_DABT_CUR)"

section \<open>The tables\<close>

definition bad_mode_handler :: "string list" where
  "bad_mode_handler = [''Sync Abort'', ''IRQ'', ''FIQ'', ''SError'']"

definition esr_class_str :: "string list" where
  "esr_class_str =
     fold (\<lambda>(i, s) t. t[unat i := s])
       [(ESR_ELx_EC_UNKNOWN, ''Unknown/Uncategorized''),
        (ESR_ELx_EC_WFx, ''WFI/WFE''),
        (ESR_ELx_EC_CP15_32, ''CP15 MCR/MRC''),
        (ESR_ELx_EC_CP15_64, ''CP15 MCRR/MRRC''),
        (ESR_ELx_EC_CP14_MR, ''CP14 MCR/MRC''),
        (ESR_ELx_EC_CP14_LS, ''CP14 LDC/STC''),
        (ESR_ELx_EC_FP_ASIMD, ''ASIMD''),
        (ESR_ELx_EC_CP10_ID, ''CP10 MRC/VMRS''),
        (ESR_ELx_EC_CP14_64, ''CP14 MCRR/MRRC''),
        (ESR_ELx_EC_ILL, ''PSTATE.IL''),
        (ESR_ELx_EC_SVC32, ''SVC (AArch32)''),
        (ESR_ELx_EC_HVC32, ''HVC (AArch32)''),
        (ESR_ELx_EC_SMC32, ''SMC (AArch32)''),
        (ESR_ELx_EC_SVC64, ''SVC (AArch64)''),
        (ESR_ELx_EC_HVC64, ''HVC (AArch64)''),
        (ESR_ELx_EC_SMC64, ''SMC (AArch64)''),
        (ESR_ELx_EC_SYS64, ''MSR/MRS (AArch64)''),
        (ESR_ELx_EC_SVE, ''SVE''),
        (ESR_ELx_EC_IMP_DEF, ''EL3 IMP DEF''),
        (ESR_ELx_EC_IABT_LOW, ''IABT (lower EL)''),
        (ESR_ELx_EC_IABT_CUR, ''IABT (current EL)''),
        (ESR_ELx_EC_PC_ALIGN, ''PC Alignment''),
        (ESR_ELx_EC_DABT_LOW, ''DABT (lower EL)''),
        (ESR_ELx_EC_DABT_CUR, ''DABT (current EL)''),
        (ESR_ELx_EC_SP_ALIGN, ''SP Alignment''),
        (ESR_ELx_EC_FP_EXC32, ''FP (AArch32)''),
        (ESR_ELx_EC_FP_EXC64, ''FP (AArch64)''),
        (ESR_ELx_EC_SERROR, ''SError''),
        (ESR_ELx_EC_BREAKPT_LOW, ''Breakpoint (lower EL)''),
        (ESR_ELx_EC_BREAKPT_CUR, ''Breakpoint (current EL)''),
        (ESR_ELx_EC_SOFTSTP_LOW, ''Software Step (lower EL)''),
        (ESR_ELx_EC_SOFTSTP_CUR, ''Software Step (current EL)''),
        (ESR_ELx_EC_WATCHPT_LOW, ''Watchpoint (lower EL)''),
        (ESR_ELx_EC_WATCHPT_CUR, ''Watchpoint (current EL)''),
        (ESR_ELx_EC_BKPT32, ''BKPT (AArch32)''),
        (ESR_ELx_EC_VECTOR32, ''Vector catch (AArch32)''),
        (ESR_ELx_EC_BRK64, ''BRK (AArch64)'')]
       (replicate (Suc (unat ESR_ELx_EC_MAX)) ''UNRECOGNIZED EC'')"

definition esr_get_class_string :: "u32 \<Rightarrow> string" where
  "esr_get_class_string esr = esr_class_str ! unat (ESR_ELx_EC esr)"

definition data_fault_code :: "string option list" where
  "data_fault_code =
     fold (\<lambda>(i, s) t. t[i := Some s])
       [(0, ''Address size fault, level0''),
        (1, ''Address size fault, level1''),
        (2, ''Address size fault, level2''),
        (3, ''Address size fault, level3''),
        (4, ''Translation fault, level0''),
        (5, ''Translation fault, level1''),
        (6, ''Translation fault, level2''),
        (7, ''Translation fault, level3''),
        (9, ''Access flag fault, level1''),
        (10, ''Access flag fault, level2''),
        (11, ''Access flag fault, level3''),
        (13, ''Permission fault, level1''),
        (14, ''Permission fault, level2''),
        (15, ''Permission fault, level3''),
        (0x21, ''Alignment fault''),
        (0x35, ''Unsupported Exclusive or Atomic access'')]
       (replicate 0x36 None)"

definition esr_get_dfsc_string :: "u32 \<Rightarrow> fault + string option" where
  "esr_get_dfsc_string esr =
     (let i = unat (esr AND 0x3f)
      in if i < length data_fault_code then Inr (data_fault_code ! i) else Inl Out_Of_Bounds)"

section \<open>The handlers\<close>

definition esr_field :: "u32 \<Rightarrow> u64 \<Rightarrow> nat \<Rightarrow> u64" where
  "esr_field esr fmask shift = drop_bit shift (ucast esr AND fmask)"

definition opt_lit :: "(string \<Rightarrow> u64) \<Rightarrow> string option \<Rightarrow> u64" where
  "opt_lit lit r = (case r of None \<Rightarrow> 0 | Some t \<Rightarrow> lit t)"

text \<open>The body of \<^verbatim>\<open>parse_esr\<close> for data aborts, and the part of it for a valid instruction syndrome.\<close>

definition parse_isv :: "u32 \<Rightarrow> machine \<Rightarrow> fault + machine" where
  "parse_isv esr s =
     ebind (say ''  Access size = %u byte(s)\<newline>'' [push_bit (unat (esr_field esr ESR_ELx_SAS ESR_ELx_SAS_SHIFT)) 1] s) (\<lambda>s.
     ebind (say ''  SSE = %lu, SRT = %lu\<newline>''
       [esr_field esr ESR_ELx_SSE ESR_ELx_SSE_SHIFT, esr_field esr ESR_ELx_SRT_MASK ESR_ELx_SRT_SHIFT] s) (\<lambda>s.
     say ''  SF = %lu, AR = %lu\<newline>''
       [esr_field esr ESR_ELx_SF ESR_ELx_SF_SHIFT, esr_field esr ESR_ELx_AR ESR_ELx_AR_SHIFT] s))"

definition parse_data_abort :: "(string \<Rightarrow> u64) \<Rightarrow> u32 \<Rightarrow> machine \<Rightarrow> fault + machine" where
  "parse_data_abort lit esr s =
     ebind (say ''  Data abort info:\<newline>'' [] s) (\<lambda>s.
     ebind (if ucast esr AND ESR_ELx_ISV \<noteq> 0 then parse_isv esr s else Inr s) (\<lambda>s.
     ebind (say ''  SET = %lu, FnV = %lu\<newline>''
       [esr_field esr ESR_ELx_SET_MASK ESR_ELx_SET_SHIFT, esr_field esr ESR_ELx_FnV ESR_ELx_FnV_SHIFT] s) (\<lambda>s.
     ebind (say ''  EA = %lu, S1PTW = %lu\<newline>''
       [esr_field esr ESR_ELx_EA ESR_ELx_EA_SHIFT, esr_field esr ESR_ELx_S1PTW ESR_ELx_S1PTW_SHIFT] s) (\<lambda>s.
     ebind (say ''  CM = %lu, WnR = %lu\<newline>''
       [esr_field esr ESR_ELx_CM ESR_ELx_CM_SHIFT, esr_field esr ESR_ELx_WNR ESR_ELx_WNR_SHIFT] s) (\<lambda>s.
     ebind (esr_get_dfsc_string esr) (\<lambda>d.
     say ''  DFSC = %s\<newline>'' [opt_lit lit d] s))))))"

definition parse_esr :: "(string \<Rightarrow> u64) \<Rightarrow> u32 \<Rightarrow> machine \<Rightarrow> fault + machine" where
  "parse_esr lit esr s =
     (let ec = ESR_ELx_EC esr in
      ebind (say ''ESR info:\<newline>'' [] s) (\<lambda>s.
      ebind (say ''  ESR = 0x%08x\<newline>'' [ucast esr] s) (\<lambda>s.
      ebind (say ''  Exception class = %s, IL = %u bits\<newline>''
        [lit (esr_get_class_string esr), if ucast esr AND ESR_ELx_IL \<noteq> 0 then 32 else 16] s) (\<lambda>s.
      if ec = ESR_ELx_EC_DABT_LOW \<or> ec = ESR_ELx_EC_DABT_CUR then parse_data_abort lit esr s else Inr s))))"

datatype 's outcome = Returns 's | Spins 's

definition panic :: "'s \<Rightarrow> 's outcome" where
  "panic s = Spins s"

definition do_bad_mode :: "(string \<Rightarrow> u64) \<Rightarrow> int \<Rightarrow> u32 \<Rightarrow> machine \<Rightarrow> fault + machine outcome" where
  "do_bad_mode lit reason esr s =
     (if \<not> (0 \<le> reason \<and> reason < int (length bad_mode_handler)) then Inl Out_Of_Bounds
      else
      ebind (say ''Bad mode for %s handler detected, far:0x%x esr:0x%x - %s\<newline>''
        [lit (bad_mode_handler ! nat reason), read_sysreg FAR_EL1 s, ucast esr, lit (esr_get_class_string esr)] s) (\<lambda>s.
      ebind (parse_esr lit esr s) (\<lambda>s. Inr (panic s))))"

definition do_sync :: "machine \<Rightarrow> fault + machine" where
  "do_sync s = say ''call do_sync\<newline>'' [] s"

end
