(* ===== verification/Traps_Spec.thy ===== *)
theory Traps_Spec
  imports Traps
begin

text \<open>
  What the exception handlers of \<open>Traps\<close> report: the syndrome's fields are the bit fields of the
  architecture, the class table covers every class, and the text of the report.
\<close>

section \<open>Fields\<close>

lemma field_bits:
  assumes "fmask = push_bit sh (mask n)"
  shows "esr_field esr fmask sh = take_bit n (drop_bit sh (ucast esr))"
  unfolding esr_field_def assms by (rule bit_eqI) (auto simp: bit_simps)

lemma masks:
  "ESR_ELx_EC_MASK = push_bit ESR_ELx_EC_SHIFT (mask 6)" "ESR_ELx_SAS = push_bit ESR_ELx_SAS_SHIFT (mask 2)"
  "ESR_ELx_SRT_MASK = push_bit ESR_ELx_SRT_SHIFT (mask 5)" "ESR_ELx_SET_MASK = push_bit ESR_ELx_SET_SHIFT (mask 2)"
  "ESR_ELx_ISS_MASK = mask 25"
  by (simp_all add: yios_consts mask_eq_exp_minus_1)

lemma EC_bits: "ESR_ELx_EC esr = take_bit 6 (drop_bit 26 (ucast esr))"
  using field_bits [OF masks(1), of esr] by (simp add: esr_field_def ESR_ELx_EC_def ESR_ELx_EC_SHIFT_def)

lemma EC_lt: "unat (ESR_ELx_EC esr) < 64"
  unfolding EC_bits unat_take_bit by simp

lemma class_str_length: "length esr_class_str = 64"
  by (simp add: esr_class_str_def yios_consts)

section \<open>Literals\<close>

definition trap_literals :: "string list" where
  "trap_literals = bad_mode_handler @ esr_class_str @ map the (filter (\<lambda>x. x \<noteq> None) data_fault_code)"

definition lits_ok :: "(string \<Rightarrow> u64) \<Rightarrow> mem \<Rightarrow> bool" where
  "lits_ok lit m \<longleftrightarrow> lits_in trap_literals lit m"

lemma trap_literals_short: "t \<in> set trap_literals \<Longrightarrow> length t \<le> 60 \<and> CHR 0x00 \<notin> set t"
proof -
  have "list_all (\<lambda>t. length t \<le> 60 \<and> CHR 0x00 \<notin> set t) trap_literals"
    by code_simp
  then show "t \<in> set trap_literals \<Longrightarrow> length t \<le> 60 \<and> CHR 0x00 \<notin> set t"
    by (simp add: list_all_iff)
qed

lemma class_literal: "esr_get_class_string esr \<in> set trap_literals"
  using EC_lt [of esr] by (simp add: esr_get_class_string_def trap_literals_def class_str_length)

lemma mode_literal: "i < 4 \<Longrightarrow> bad_mode_handler ! i \<in> set trap_literals"
  using nth_mem [of i bad_mode_handler] by (auto simp: trap_literals_def bad_mode_handler_def)

lemma dfsc_literal: "esr_get_dfsc_string esr = Inr (Some t) \<Longrightarrow> t \<in> set trap_literals"
proof -
  assume "esr_get_dfsc_string esr = Inr (Some t)"
  then have "Some t \<in> set data_fault_code"
    by (auto simp: esr_get_dfsc_string_def Let_def split: if_splits) (metis nth_mem)
  then show ?thesis
    by (force simp: trap_literals_def)
qed

lemmas lit_rules = class_literal [THEN trap_literals_short] mode_literal [THEN trap_literals_short]
  dfsc_literal [THEN trap_literals_short]

section \<open>The report\<close>

definition hex8 :: "u64 \<Rightarrow> string" where
  "hex8 n = number_text (ucast (ucast n :: u32)) 16 8 (- 1) (ZEROPAD OR SMALL)"

definition hex :: "u64 \<Rightarrow> string" where
  "hex n = number_text (ucast (ucast n :: u32)) 16 (- 1) (- 1) SMALL"

abbreviation fld :: "u32 \<Rightarrow> nat \<Rightarrow> nat \<Rightarrow> string" where
  "fld esr n sh \<equiv> dec (take_bit n (drop_bit sh (ucast esr)))"

definition isv_report :: "u32 \<Rightarrow> string" where
  "isv_report esr =
     (''  Access size = '' @ dec (2 ^ unat (take_bit 2 (drop_bit 22 esr))) @ '' byte(s)\<newline>'') @
     (''  SSE = '' @ fld esr 1 21 @ '', SRT = '' @ fld esr 5 16 @ ''\<newline>'') @
     (''  SF = '' @ fld esr 1 15 @ '', AR = '' @ fld esr 1 14 @ ''\<newline>'')"

definition abort_report :: "u32 \<Rightarrow> string option \<Rightarrow> string" where
  "abort_report esr dfsc =
     ''  Data abort info:\<newline>'' @ (if bit esr 24 then isv_report esr else []) @
     (''  SET = '' @ fld esr 2 11 @ '', FnV = '' @ fld esr 1 10 @ ''\<newline>'') @
     (''  EA = '' @ fld esr 1 9 @ '', S1PTW = '' @ fld esr 1 7 @ ''\<newline>'') @
     (''  CM = '' @ fld esr 1 8 @ '', WnR = '' @ fld esr 1 6 @ ''\<newline>'') @
     (''  DFSC = '' @ (case dfsc of None \<Rightarrow> ''<NULL>'' | Some t \<Rightarrow> t) @ ''\<newline>'')"

definition esr_report :: "u32 \<Rightarrow> string option \<Rightarrow> string" where
  "esr_report esr dfsc =
     ''ESR info:\<newline>'' @ (''  ESR = 0x'' @ hex8 (ucast esr) @ ''\<newline>'') @
     (''  Exception class = '' @ esr_get_class_string esr @ '', IL = '' @ dec (if bit esr 25 then 32 else 16) @ '' bits\<newline>'') @
     (if esr_is_data_abort esr then abort_report esr dfsc else [])"

lemma bit_test: "n < 32 \<Longrightarrow> (ucast (esr :: u32) :: u64) AND push_bit n 1 = 0 \<longleftrightarrow> \<not> bit esr n"
  by (simp add: and_exp_eq_0_iff_not_bit bit_simps)

lemma one_bit_mask: "push_bit n (1 :: u64) = push_bit n (mask 1)"
  by (simp add: mask_eq_exp_minus_1)

lemma field_1: "fmask = push_bit sh 1 \<Longrightarrow> esr_field esr fmask sh = take_bit 1 (drop_bit sh (ucast esr))"
  using field_bits [of fmask sh 1 esr] by (simp add: one_bit_mask)

lemmas field_rules =
  field_bits [OF masks(2)] field_bits [OF masks(3)] field_bits [OF masks(4)]
  field_1 [OF ESR_ELx_SSE_def] field_1 [OF ESR_ELx_SF_def] field_1 [OF ESR_ELx_AR_def] field_1 [OF ESR_ELx_FnV_def]
  field_1 [OF ESR_ELx_EA_def] field_1 [OF ESR_ELx_S1PTW_def] field_1 [OF ESR_ELx_CM_def] field_1 [OF ESR_ELx_WNR_def]

lemmas shift_defs = ESR_ELx_SAS_SHIFT_def ESR_ELx_SSE_SHIFT_def ESR_ELx_SRT_SHIFT_def ESR_ELx_SF_SHIFT_def
  ESR_ELx_AR_SHIFT_def ESR_ELx_SET_SHIFT_def ESR_ELx_FnV_SHIFT_def ESR_ELx_EA_SHIFT_def ESR_ELx_S1PTW_SHIFT_def
  ESR_ELx_CM_SHIFT_def ESR_ELx_WNR_SHIFT_def ESR_ELx_IL_SHIFT_def ESR_ELx_ISV_SHIFT_def

lemmas field_nums = field_rules [unfolded shift_defs]

lemma access_size:
  "ucast (ucast (push_bit (unat (take_bit 2 (drop_bit 22 (ucast esr) :: u64))) 1 :: u64) :: u32) =
     (2 ^ unat (take_bit 2 (drop_bit 22 (esr :: u32))) :: u64)"
proof -
  define k where "k = unat (take_bit 2 (drop_bit 22 esr))"
  have "unat (take_bit 2 (drop_bit 22 (ucast esr) :: u64)) = k"
    by (simp add: k_def unat_take_bit unat_drop_bit)
  moreover have "k < 4"
    by (simp add: k_def unat_take_bit)
  then have "k = 0 \<or> k = 1 \<or> k = 2 \<or> k = 3"
    by auto
  ultimately show ?thesis
    unfolding k_def [symmetric] by auto
qed

lemma lits_okD:
  assumes "lits_ok lit m" and "t \<in> set trap_literals"
  shows "lit t \<noteq> 0" and "c_str m (lit t) t"
  using lits_inD [OF _ assms(2)] assms(1) by (auto simp: lits_ok_def)

lemma hex_short: "length (hex8 n) \<le> 68" "length (hex n) \<le> 68"
  unfolding hex8_def hex_def by (rule number_text_short; simp)+

lemma ucast_small [simp]: "ucast (ucast (32 :: u64) :: u32) = (32 :: u64)" "ucast (ucast (16 :: u64) :: u32) = (16 :: u64)"
  by simp_all

lemma prints_plain:
  assumes "plain txt" and "length txt < 1024"
  shows "prints m (\<lambda>s. say txt [] s) txt"
  using myprintf_from_plain [OF assms(1), of "[]"] assms(2) by (intro prints_say) (simp_all add: myprintf_def emit_def)

lemma prints_lu2:
  assumes "plain a" and "plain b" and "length a < 100" and "length b < 100"
  shows "prints m (\<lambda>s. say (a @ ''%lu'' @ b @ ''%lu\<newline>'') [x, y] s) (a @ dec x @ b @ dec y @ ''\<newline>'')"
proof (rule prints_say)
  show "myprintf 1024 (a @ ''%lu'' @ b @ ''%lu\<newline>'') [x, y] m = Inr (a @ dec x @ b @ dec y @ ''\<newline>'', m)"
    using myprintf_from_plain [OF assms(1)] myprintf_from_plain [OF assms(2)]
    by (simp add: myprintf_def conv_rules emit_def)
  show "length (a @ dec x @ b @ dec y @ ''\<newline>'') < 1024"
    using dec_short [of x] dec_short [of y] assms(3,4) unfolding length_append by simp
qed

lemma prints_class:
  assumes "lits_ok lit m"
  shows "prints m (\<lambda>s. say ''  Exception class = %s, IL = %u bits\<newline>''
      [lit (esr_get_class_string esr), if ucast esr AND ESR_ELx_IL \<noteq> 0 then 32 else 16] s)
    (''  Exception class = '' @ esr_get_class_string esr @ '', IL = '' @ dec (if bit esr 25 then 32 else 16) @ '' bits\<newline>'')"
proof (rule prints_say)
  have "ucast esr AND ESR_ELx_IL \<noteq> 0 \<longleftrightarrow> bit esr 25"
    using bit_test [of 25 esr] by (simp add: ESR_ELx_IL_def ESR_ELx_IL_SHIFT_def)
  then show "myprintf 1024 ''  Exception class = %s, IL = %u bits\<newline>''
      [lit (esr_get_class_string esr), if ucast esr AND ESR_ELx_IL \<noteq> 0 then 32 else 16] m =
    Inr (''  Exception class = '' @ esr_get_class_string esr @ '', IL = '' @ dec (if bit esr 25 then 32 else 16) @ '' bits\<newline>'', m)"
    using lits_okD [OF assms class_literal [of esr]] by (simp add: myprintf_def conv_rules)
  show "length (''  Exception class = '' @ esr_get_class_string esr @ '', IL = '' @ dec (if bit esr 25 then 32 else 16) @ '' bits\<newline>'') < 1024"
    using lit_rules(1) [of esr] dec_short [of "if bit esr 25 then 32 else 16"] unfolding length_append by simp
qed

lemma prints_esr: "prints m (\<lambda>s. say ''  ESR = 0x%08x\<newline>'' [ucast (esr :: u32)] s) (''  ESR = 0x'' @ hex8 (ucast esr) @ ''\<newline>'')"
proof (rule prints_say)
  show "myprintf 1024 ''  ESR = 0x%08x\<newline>'' [ucast esr] m = Inr (''  ESR = 0x'' @ hex8 (ucast esr) @ ''\<newline>'', m)"
    by (simp add: myprintf_def conv_rules hex8_def)
  show "length (''  ESR = 0x'' @ hex8 (ucast esr) @ ''\<newline>'') < 1024"
    using hex_short(1) [of "ucast esr"] unfolding length_append by simp
qed

lemma prints_size:
  "prints m (\<lambda>s. say ''  Access size = %u byte(s)\<newline>'' [push_bit (unat (esr_field esr ESR_ELx_SAS ESR_ELx_SAS_SHIFT)) 1] s)
    (''  Access size = '' @ dec (2 ^ unat (take_bit 2 (drop_bit 22 esr))) @ '' byte(s)\<newline>'')"
proof (rule prints_say)
  have e: "esr_field esr ESR_ELx_SAS ESR_ELx_SAS_SHIFT = take_bit 2 (drop_bit 22 (ucast esr))"
    using field_rules(1) by (simp add: shift_defs)
  show "myprintf 1024 ''  Access size = %u byte(s)\<newline>'' [push_bit (unat (esr_field esr ESR_ELx_SAS ESR_ELx_SAS_SHIFT)) 1] m =
    Inr (''  Access size = '' @ dec (2 ^ unat (take_bit 2 (drop_bit 22 esr))) @ '' byte(s)\<newline>'', m)"
    unfolding e by (simp add: myprintf_def conv_rules access_size del: push_bit_of_1)
  show "length (''  Access size = '' @ dec (2 ^ unat (take_bit 2 (drop_bit 22 esr))) @ '' byte(s)\<newline>'') < 1024"
    using dec_short [of "2 ^ unat (take_bit 2 (drop_bit 22 esr))"] unfolding length_append by simp
qed

lemma prints_dfsc:
  assumes "lits_ok lit m" and "esr_get_dfsc_string esr = Inr d"
  shows "prints m (\<lambda>s. say ''  DFSC = %s\<newline>'' [opt_lit lit d] s)
    (''  DFSC = '' @ (case d of None \<Rightarrow> ''<NULL>'' | Some t \<Rightarrow> t) @ ''\<newline>'')"
proof (cases d)
  case None
  then show ?thesis
    by (intro prints_say) (simp_all add: myprintf_def conv_rules opt_lit_def)
next
  case (Some t)
  then have t: "t \<in> set trap_literals"
    using assms(2) by (intro dfsc_literal) simp
  with Some lits_okD [OF assms(1) t] trap_literals_short [OF t] show ?thesis
    by (intro prints_say) (simp_all add: myprintf_def conv_rules opt_lit_def)
qed

lemma isv_bit: "ucast (esr :: u32) AND ESR_ELx_ISV \<noteq> 0 \<longleftrightarrow> bit esr 24"
  using bit_test [of 24 esr] by (simp add: ESR_ELx_ISV_def ESR_ELx_ISV_SHIFT_def)

lemma prints_fields:
  assumes "plain a" and "plain b" and "length a < 100" and "length b < 100"
    and "fmt = a @ ''%lu'' @ b @ ''%lu\<newline>''" and "txt = a @ dec x @ b @ dec y @ ''\<newline>''"
  shows "prints m (\<lambda>s. say fmt [x, y] s) txt"
  unfolding assms(5,6) by (rule prints_lu2 [OF assms(1-4)])

lemma plain_simps: "plain t \<longleftrightarrow> list_all (\<lambda>c. c \<noteq> CHR 0x00 \<and> c \<noteq> CHR ''%'') t"
  by (auto simp: plain_def NUL_def list_all_iff)

lemma prints_isv: "prints m (\<lambda>s. parse_isv esr s) (isv_report esr)"
  unfolding parse_isv_def isv_report_def
proof (intro prints_bind prints_size)
  show "prints m (\<lambda>s. say ''  SSE = %lu, SRT = %lu\<newline>''
      [esr_field esr ESR_ELx_SSE ESR_ELx_SSE_SHIFT, esr_field esr ESR_ELx_SRT_MASK ESR_ELx_SRT_SHIFT] s)
      (''  SSE = '' @ fld esr 1 21 @ '', SRT = '' @ fld esr 5 16 @ ''\<newline>'')"
    by (rule prints_fields [of "''  SSE = ''" "'', SRT = ''"]) (simp_all add: plain_simps field_nums shift_defs)
  show "prints m (\<lambda>s. say ''  SF = %lu, AR = %lu\<newline>''
      [esr_field esr ESR_ELx_SF ESR_ELx_SF_SHIFT, esr_field esr ESR_ELx_AR ESR_ELx_AR_SHIFT] s)
      (''  SF = '' @ fld esr 1 15 @ '', AR = '' @ fld esr 1 14 @ ''\<newline>'')"
    by (rule prints_fields [of "''  SF = ''" "'', AR = ''"]) (simp_all add: plain_simps field_nums shift_defs)
qed

lemma prints_abort:
  assumes l: "lits_ok lit m" and d: "esr_get_dfsc_string esr = Inr d"
  shows "prints m (\<lambda>s. parse_data_abort lit esr s) (abort_report esr d)"
  unfolding parse_data_abort_def abort_report_def d ebind.simps isv_bit
proof (intro prints_bind prints_if prints_isv prints_Inr prints_dfsc [OF l d] prints_plain)
  show "prints m (\<lambda>s. say ''  SET = %lu, FnV = %lu\<newline>''
      [esr_field esr ESR_ELx_SET_MASK ESR_ELx_SET_SHIFT, esr_field esr ESR_ELx_FnV ESR_ELx_FnV_SHIFT] s)
      (''  SET = '' @ fld esr 2 11 @ '', FnV = '' @ fld esr 1 10 @ ''\<newline>'')"
    by (rule prints_fields [of "''  SET = ''" "'', FnV = ''"]) (simp_all add: plain_simps field_nums shift_defs)
  show "prints m (\<lambda>s. say ''  EA = %lu, S1PTW = %lu\<newline>''
      [esr_field esr ESR_ELx_EA ESR_ELx_EA_SHIFT, esr_field esr ESR_ELx_S1PTW ESR_ELx_S1PTW_SHIFT] s)
      (''  EA = '' @ fld esr 1 9 @ '', S1PTW = '' @ fld esr 1 7 @ ''\<newline>'')"
    by (rule prints_fields [of "''  EA = ''" "'', S1PTW = ''"]) (simp_all add: plain_simps field_nums shift_defs)
  show "prints m (\<lambda>s. say ''  CM = %lu, WnR = %lu\<newline>''
      [esr_field esr ESR_ELx_CM ESR_ELx_CM_SHIFT, esr_field esr ESR_ELx_WNR ESR_ELx_WNR_SHIFT] s)
      (''  CM = '' @ fld esr 1 8 @ '', WnR = '' @ fld esr 1 6 @ ''\<newline>'')"
    by (rule prints_fields [of "''  CM = ''" "'', WnR = ''"]) (simp_all add: plain_simps field_nums shift_defs)
qed (simp_all add: plain_simps)

lemma faults_abort:
  assumes "esr_get_dfsc_string esr = Inl e"
  shows "faults m (\<lambda>s. parse_data_abort lit esr s) e"
  unfolding parse_data_abort_def assms ebind.simps isv_bit
proof (intro faults_bind [OF prints_plain] faults_bind [OF prints_if [OF prints_isv prints_Inr]])
  have f: "faults m (\<lambda>s. Inl e) e"
    by (simp add: faults_def)
  show "faults m (\<lambda>s. ebind (say ''  SET = %lu, FnV = %lu\<newline>''
      [esr_field esr ESR_ELx_SET_MASK ESR_ELx_SET_SHIFT, esr_field esr ESR_ELx_FnV ESR_ELx_FnV_SHIFT] s) (\<lambda>s.
      ebind (say ''  EA = %lu, S1PTW = %lu\<newline>''
      [esr_field esr ESR_ELx_EA ESR_ELx_EA_SHIFT, esr_field esr ESR_ELx_S1PTW ESR_ELx_S1PTW_SHIFT] s) (\<lambda>s.
      ebind (say ''  CM = %lu, WnR = %lu\<newline>''
      [esr_field esr ESR_ELx_CM ESR_ELx_CM_SHIFT, esr_field esr ESR_ELx_WNR ESR_ELx_WNR_SHIFT] s) (\<lambda>s. Inl e)))) e"
    by (rule faults_bind [OF prints_fields [OF _ _ _ _ _ refl, of "''  SET = ''" "'', FnV = ''"]
          faults_bind [OF prints_fields [OF _ _ _ _ _ refl, of "''  EA = ''" "'', S1PTW = ''"]
          faults_bind [OF prints_fields [OF _ _ _ _ _ refl, of "''  CM = ''" "'', WnR = ''"] f]]])
      (simp_all add: plain_simps)
qed (simp_all add: plain_simps)

lemma faults_parse_esr:
  assumes l: "lits_ok lit m" and a: "esr_is_data_abort esr" and d: "esr_get_dfsc_string esr = Inl e"
  shows "faults m (\<lambda>s. parse_esr lit esr s) e"
  unfolding parse_esr_def Let_def
  by (intro faults_bind [OF prints_plain] faults_bind [OF prints_esr] faults_bind [OF prints_class [OF l]]
      faults_if faults_abort [OF d]) (use a in \<open>simp_all add: plain_simps esr_is_data_abort_def Let_def\<close>)

lemma prints_banner:
  assumes l: "lits_ok lit m" and r: "r < 4"
  shows "prints m (\<lambda>s. say ''Bad mode for %s handler detected, far:0x%x esr:0x%x - %s\<newline>''
      [lit (bad_mode_handler ! r), far, ucast esr, lit (esr_get_class_string esr)] s)
    (''Bad mode for '' @ bad_mode_handler ! r @ '' handler detected, far:0x'' @ hex far @
     '' esr:0x'' @ hex (ucast esr) @ '' - '' @ esr_get_class_string esr @ ''\<newline>'')"
proof (rule prints_say)
  show "myprintf 1024 ''Bad mode for %s handler detected, far:0x%x esr:0x%x - %s\<newline>''
      [lit (bad_mode_handler ! r), far, ucast esr, lit (esr_get_class_string esr)] m =
    Inr (''Bad mode for '' @ bad_mode_handler ! r @ '' handler detected, far:0x'' @ hex far @
     '' esr:0x'' @ hex (ucast esr) @ '' - '' @ esr_get_class_string esr @ ''\<newline>'', m)"
    using lits_okD [OF l class_literal [of esr]] lits_okD [OF l mode_literal [OF r]]
    by (simp add: myprintf_def conv_rules hex_def)
  show "length (''Bad mode for '' @ bad_mode_handler ! r @ '' handler detected, far:0x'' @ hex far @
     '' esr:0x'' @ hex (ucast esr) @ '' - '' @ esr_get_class_string esr @ ''\<newline>'') < 1024"
    using lit_rules(1) [of esr] lit_rules(2) [OF r] hex_short(2) [of far] hex_short(2) [of "ucast esr"]
    unfolding length_append by simp
qed

lemma dfsc_cases:
  "if 0x36 \<le> unat (esr AND 0x3f) then esr_get_dfsc_string esr = Inl Out_Of_Bounds else \<exists>d. esr_get_dfsc_string esr = Inr d"
proof -
  have "length data_fault_code = 0x36"
    by (simp add: data_fault_code_def)
  then show ?thesis
    by (simp add: esr_get_dfsc_string_def)
qed

lemma prints_parse_esr:
  assumes l: "lits_ok lit m" and d: "esr_is_data_abort esr \<Longrightarrow> esr_get_dfsc_string esr = Inr d"
  shows "prints m (\<lambda>s. parse_esr lit esr s) (esr_report esr d)"
  unfolding parse_esr_def esr_report_def Let_def esr_is_data_abort_def
  by (intro prints_bind prints_if prints_Inr prints_plain prints_esr prints_class [OF l] prints_abort [OF l d])
    (simp_all add: plain_simps esr_is_data_abort_def)

section \<open>Properties\<close>

text \<open>
  C28: The macros of \<^verbatim>\<open>esr.h\<close> take the syndrome apart without loss: class, instruction length and syndrome
  bits are fields without a common bit, which together are the whole register, the class always lies inside the
  class table, and a class with no name of its own is reported as unrecognised, among them
  \<^verbatim>\<open>ESR_ELx_EC_PAC\<close>, which \<^verbatim>\<open>esr.h\<close> does define.
\<close>

theorem esr_decomposition:
  "disjoint_masks [ESR_ELx_EC_MASK, ESR_ELx_IL, ESR_ELx_ISS_MASK] \<and>
   ESR_ELx_EC_MASK OR ESR_ELx_IL OR ESR_ELx_ISS_MASK = mask 32 \<and>
   ucast esr = push_bit 26 (ESR_ELx_EC esr) OR (ucast esr AND ESR_ELx_IL) OR (ucast esr AND ESR_ELx_ISS_MASK) \<and>
   unat (ESR_ELx_EC esr) < length esr_class_str \<and>
   (esr_get_class_string esr = ''UNRECOGNIZED EC'') =
     (unat (ESR_ELx_EC esr) \<in> {0x02, 0x09, 0x0A, 0x0B, 0x0D, 0x0F, 0x10, 0x14, 0x1A, 0x1B, 0x1C, 0x1D, 0x1E, 0x23, 0x27,
        0x29, 0x2A, 0x2B, 0x2D, 0x2E, 0x36, 0x37, 0x39, 0x3B, 0x3D, 0x3E, 0x3F})"
proof -
  have "(ucast esr :: u64) = push_bit 26 (ESR_ELx_EC esr) OR (ucast esr AND ESR_ELx_IL) OR (ucast esr AND ESR_ELx_ISS_MASK)"
  proof (rule bit_eqI)
    fix n
    have il: "bit ESR_ELx_IL n \<longleftrightarrow> n = 25"
      unfolding ESR_ELx_IL_def ESR_ELx_IL_SHIFT_def bit_push_bit_iff bit_1_iff by auto
    have iss: "bit ESR_ELx_ISS_MASK n \<longleftrightarrow> n < 25"
      unfolding masks bit_mask_iff by auto
    show "bit (ucast esr :: u64) n =
        bit (push_bit 26 (ESR_ELx_EC esr) OR (ucast esr AND ESR_ELx_IL) OR (ucast esr AND ESR_ELx_ISS_MASK)) n"
      unfolding bit_or_iff bit_and_iff il iss EC_bits by (auto simp: bit_simps dest: bit_imp_le_length)
  qed
  moreover have "list_all (\<lambda>i. (esr_class_str ! i = ''UNRECOGNIZED EC'') = (i \<in> set [0x02, 0x09, 0x0A, 0x0B, 0x0D, 0x0F, 0x10,
      0x14, 0x1A, 0x1B, 0x1C, 0x1D, 0x1E, 0x23, 0x27, 0x29, 0x2A, 0x2B, 0x2D, 0x2E, 0x36, 0x37, 0x39, 0x3B, 0x3D, 0x3E, 0x3F]))
      [0..<64]"
    by code_simp
  moreover have "disjoint_masks [ESR_ELx_EC_MASK, ESR_ELx_IL, ESR_ELx_ISS_MASK]"
    "ESR_ELx_EC_MASK OR ESR_ELx_IL OR ESR_ELx_ISS_MASK = mask 32"
    by (simp_all add: yios_consts mask_eq_exp_minus_1)
  ultimately show ?thesis
    using EC_lt [of esr] unfolding list_all_iff esr_get_class_string_def class_str_length by auto
qed

text \<open>
  C18: With its literals in memory and a line that drains, \<^verbatim>\<open>do_bad_mode\<close> for one of the four vector reasons prints
  the banner and the full report of the syndrome, every field with its value, and then stays in
  \<^verbatim>\<open>panic\<close> forever. There is one exception: a data abort with a fault status code of 0x36 or
  more indexes \<^verbatim>\<open>data_fault_code\<close> outside the array.
\<close>

theorem bad_mode_report:
  assumes "lits_ok lit (ram s)" and "tx_ready s" and "0 \<le> reason" and "reason < 4"
  shows "if esr_is_data_abort esr \<and> 0x36 \<le> unat (esr AND 0x3f) then do_bad_mode lit reason esr s = Inl Out_Of_Bounds
    else \<exists>s' d. do_bad_mode lit reason esr s = Inr (Spins s') \<and> ram s' = ram s \<and> bus (trace s') = bus (trace s) \<and>
      (esr_is_data_abort esr \<longrightarrow> esr_get_dfsc_string esr = Inr d) \<and>
      uart_out (trace s') = uart_out (trace s) @ concat (map crlf (
        ''Bad mode for '' @ bad_mode_handler ! nat reason @ '' handler detected, far:0x'' @ hex (read_sysreg FAR_EL1 s) @
        '' esr:0x'' @ hex (ucast esr) @ '' - '' @ esr_get_class_string esr @ ''\<newline>'' @ esr_report esr d))"
proof -
  let ?banner = "''Bad mode for '' @ bad_mode_handler ! nat reason @ '' handler detected, far:0x'' @ hex (read_sysreg FAR_EL1 s) @
        '' esr:0x'' @ hex (ucast esr) @ '' - '' @ esr_get_class_string esr @ ''\<newline>''"
  obtain s1 where s1: "say ''Bad mode for %s handler detected, far:0x%x esr:0x%x - %s\<newline>''
      [lit (bad_mode_handler ! nat reason), read_sysreg FAR_EL1 s, ucast esr, lit (esr_get_class_string esr)] s = Inr s1"
    "printed s s1 ?banner"
    by (rule printsE [OF prints_banner [OF assms(1), of "nat reason" "read_sysreg FAR_EL1 s" esr] assms(2) refl])
      (use assms(3,4) in simp)
  have run: "do_bad_mode lit reason esr s = ebind (parse_esr lit esr s1) (\<lambda>s. Inr (Spins s))"
  proof -
    have "int (length bad_mode_handler) = 4"
      by (simp add: bad_mode_handler_def)
    with assms(3,4) s1(1) show ?thesis
      by (simp add: do_bad_mode_def panic_def)
  qed
  have ok1: "tx_ready s1" "ram s1 = ram s"
    using s1(2) by (simp_all add: printed_def)
  show ?thesis
  proof (cases "esr_is_data_abort esr \<and> 0x36 \<le> unat (esr AND 0x3f)")
    case True
    then have "esr_get_dfsc_string esr = Inl Out_Of_Bounds"
      using dfsc_cases [of esr] by simp
    then have "parse_esr lit esr s1 = Inl Out_Of_Bounds"
      using faults_parse_esr [OF assms(1)] True ok1 by (simp add: faults_def)
    with True run show ?thesis
      by simp
  next
    case False
    then obtain d where d: "esr_is_data_abort esr \<Longrightarrow> esr_get_dfsc_string esr = Inr d"
      using dfsc_cases [of esr] by (auto split: if_splits)
    obtain s2 where "parse_esr lit esr s1 = Inr s2" "printed s1 s2 (esr_report esr d)"
      using prints_parse_esr [OF assms(1) d] ok1 by (auto simp: prints_def)
    then show ?thesis
      using False run s1(2) d unfolding printed_def
      by (simp only: if_False ebind.simps map_append concat_append append_assoc) blast
  qed
qed

lemma trap_lits_ok: "lits_ok (lit_addr trap_literals) (lit_mem trap_literals)"
  unfolding lits_ok_def
proof (rule lit_mem_ok)
  show "length trap_literals \<le> 100"
    by code_simp
qed (use trap_literals_short in blast)

theorem bad_mode_report_witness:
  "\<exists>s'. do_bad_mode (lit_addr trap_literals) 1 0x96000046 \<lparr>dev = idle_dev, trace = [], ram = lit_mem trap_literals\<rparr> = Inr (Spins s')"
proof -
  have "tx_ready \<lparr>dev = idle_dev, trace = [], ram = lit_mem trap_literals\<rparr>"
    by (rule idle_tx_ready) simp
  then show ?thesis
    using bad_mode_report [of "lit_addr trap_literals" "\<lparr>dev = idle_dev, trace = [], ram = lit_mem trap_literals\<rparr>" 1 "0x96000046"] trap_lits_ok
    by auto
qed

end
