(* ===== verification/Esr_Iss.thy ===== *)
theory Esr_Iss
  imports Traps_Spec
begin

text \<open>
  The instruction specific syndromes of \<^verbatim>\<open>asm/esr.h\<close>: the fields of aborts beyond those \<^verbatim>\<open>parse_esr\<close> prints, of
  trapped system instructions and of coprocessor accesses, and the templates to recognise some of
  them. The theorems say that the fields do not overlap, that packing and unpacking a trapped
  system instruction are inverse, which instructions the templates match (the comments of \<^verbatim>\<open>esr.h\<close>
  give sets for \<^verbatim>\<open>crm\<close>, which the templates leave out), and how the fault types relate to the strings of \<^verbatim>\<open>traps.c\<close>.
\<close>

section \<open>Fields\<close>

definition ESR_ELx_IDS_SHIFT :: nat where [yios_consts]: "ESR_ELx_IDS_SHIFT = 24"
definition ESR_ELx_IDS :: u64 where [yios_consts]: "ESR_ELx_IDS = push_bit ESR_ELx_IDS_SHIFT 1"
definition ESR_ELx_AET_SHIFT :: nat where [yios_consts]: "ESR_ELx_AET_SHIFT = 10"
definition ESR_ELx_AET :: u64 where [yios_consts]: "ESR_ELx_AET = push_bit ESR_ELx_AET_SHIFT 0x7"
definition ESR_ELx_AET_UC :: u64 where [yios_consts]: "ESR_ELx_AET_UC = push_bit ESR_ELx_AET_SHIFT 0"
definition ESR_ELx_AET_UEU :: u64 where [yios_consts]: "ESR_ELx_AET_UEU = push_bit ESR_ELx_AET_SHIFT 1"
definition ESR_ELx_AET_UEO :: u64 where [yios_consts]: "ESR_ELx_AET_UEO = push_bit ESR_ELx_AET_SHIFT 2"
definition ESR_ELx_AET_UER :: u64 where [yios_consts]: "ESR_ELx_AET_UER = push_bit ESR_ELx_AET_SHIFT 3"
definition ESR_ELx_AET_CE :: u64 where [yios_consts]: "ESR_ELx_AET_CE = push_bit ESR_ELx_AET_SHIFT 6"

text \<open>The fault status code of aborts.\<close>

definition ESR_ELx_FSC :: u64 where [yios_consts]: "ESR_ELx_FSC = 0x3F"
definition ESR_ELx_FSC_TYPE :: u64 where [yios_consts]: "ESR_ELx_FSC_TYPE = 0x3C"
definition ESR_ELx_FSC_EXTABT :: u64 where [yios_consts]: "ESR_ELx_FSC_EXTABT = 0x10"
definition ESR_ELx_FSC_SERROR :: u64 where [yios_consts]: "ESR_ELx_FSC_SERROR = 0x11"
definition ESR_ELx_FSC_ACCESS :: u64 where [yios_consts]: "ESR_ELx_FSC_ACCESS = 0x08"
definition ESR_ELx_FSC_FAULT :: u64 where [yios_consts]: "ESR_ELx_FSC_FAULT = 0x04"
definition ESR_ELx_FSC_PERM :: u64 where [yios_consts]: "ESR_ELx_FSC_PERM = 0x0C"

text \<open>Conditional instructions, waits and calls.\<close>

definition ESR_ELx_CV :: u64 where [yios_consts]: "ESR_ELx_CV = push_bit 24 1"
definition ESR_ELx_COND_SHIFT :: nat where [yios_consts]: "ESR_ELx_COND_SHIFT = 20"
definition ESR_ELx_COND_MASK :: u64 where [yios_consts]: "ESR_ELx_COND_MASK = push_bit ESR_ELx_COND_SHIFT 0xF"
definition ESR_ELx_WFx_ISS_TI :: u64 where [yios_consts]: "ESR_ELx_WFx_ISS_TI = push_bit 0 1"
definition ESR_ELx_WFx_ISS_WFI :: u64 where [yios_consts]: "ESR_ELx_WFx_ISS_WFI = push_bit 0 0"
definition ESR_ELx_WFx_ISS_WFE :: u64 where [yios_consts]: "ESR_ELx_WFx_ISS_WFE = push_bit 0 1"
definition ESR_ELx_xVC_IMM_MASK :: u64 where [yios_consts]: "ESR_ELx_xVC_IMM_MASK = (push_bit 16 1) - 1"

text \<open>The deferred error register and the templates for specific events.\<close>

definition DISR_EL1_IDS :: u64 where [yios_consts]: "DISR_EL1_IDS = push_bit 24 1"
definition DISR_EL1_ESR_MASK :: u64 where [yios_consts]: "DISR_EL1_ESR_MASK = ESR_ELx_AET OR ESR_ELx_EA OR ESR_ELx_FSC"
definition ESR_ELx_WFx_MASK :: u64 where [yios_consts]: "ESR_ELx_WFx_MASK = ESR_ELx_EC_MASK OR ESR_ELx_WFx_ISS_TI"
definition ESR_ELx_WFx_WFI_VAL :: u64 where [yios_consts]:
  "ESR_ELx_WFx_WFI_VAL =
     (push_bit ESR_ELx_EC_SHIFT ESR_ELx_EC_WFx) OR ESR_ELx_WFx_ISS_WFI"

text \<open>
  In \<^verbatim>\<open>ESR_ELx_VAL_BRK64\<close> the class is an \<^verbatim>\<open>int\<close> shifted into its sign bit, which the conversion to
  \<^verbatim>\<open>unsigned long\<close> extends.
\<close>

definition ESR_ELx_VAL_BRK64 :: "u64 \<Rightarrow> u64" where
  "ESR_ELx_VAL_BRK64 imm =
     scast (push_bit ESR_ELx_EC_SHIFT (ucast ESR_ELx_EC_BRK64) :: u32) OR ESR_ELx_IL OR (imm AND 0xffff)"

text \<open>Trapped system instructions.\<close>

definition ESR_ELx_SYS64_ISS_RES0_SHIFT :: nat where [yios_consts]: "ESR_ELx_SYS64_ISS_RES0_SHIFT = 22"
definition ESR_ELx_SYS64_ISS_RES0_MASK :: u64 where [yios_consts]:
  "ESR_ELx_SYS64_ISS_RES0_MASK =
     push_bit ESR_ELx_SYS64_ISS_RES0_SHIFT 0x7"
definition ESR_ELx_SYS64_ISS_DIR_MASK :: u64 where [yios_consts]: "ESR_ELx_SYS64_ISS_DIR_MASK = 0x1"
definition ESR_ELx_SYS64_ISS_DIR_READ :: u64 where [yios_consts]: "ESR_ELx_SYS64_ISS_DIR_READ = 0x1"
definition ESR_ELx_SYS64_ISS_DIR_WRITE :: u64 where [yios_consts]: "ESR_ELx_SYS64_ISS_DIR_WRITE = 0x0"
definition ESR_ELx_SYS64_ISS_RT_SHIFT :: nat where [yios_consts]: "ESR_ELx_SYS64_ISS_RT_SHIFT = 5"
definition ESR_ELx_SYS64_ISS_RT_MASK :: u64 where [yios_consts]:
  "ESR_ELx_SYS64_ISS_RT_MASK =
     push_bit ESR_ELx_SYS64_ISS_RT_SHIFT 0x1f"
definition ESR_ELx_SYS64_ISS_CRM_SHIFT :: nat where [yios_consts]: "ESR_ELx_SYS64_ISS_CRM_SHIFT = 1"
definition ESR_ELx_SYS64_ISS_CRM_MASK :: u64 where [yios_consts]:
  "ESR_ELx_SYS64_ISS_CRM_MASK =
     push_bit ESR_ELx_SYS64_ISS_CRM_SHIFT 0xf"
definition ESR_ELx_SYS64_ISS_CRN_SHIFT :: nat where [yios_consts]: "ESR_ELx_SYS64_ISS_CRN_SHIFT = 10"
definition ESR_ELx_SYS64_ISS_CRN_MASK :: u64 where [yios_consts]:
  "ESR_ELx_SYS64_ISS_CRN_MASK =
     push_bit ESR_ELx_SYS64_ISS_CRN_SHIFT 0xf"
definition ESR_ELx_SYS64_ISS_OP1_SHIFT :: nat where [yios_consts]: "ESR_ELx_SYS64_ISS_OP1_SHIFT = 14"
definition ESR_ELx_SYS64_ISS_OP1_MASK :: u64 where [yios_consts]:
  "ESR_ELx_SYS64_ISS_OP1_MASK =
     push_bit ESR_ELx_SYS64_ISS_OP1_SHIFT 0x7"
definition ESR_ELx_SYS64_ISS_OP2_SHIFT :: nat where [yios_consts]: "ESR_ELx_SYS64_ISS_OP2_SHIFT = 17"
definition ESR_ELx_SYS64_ISS_OP2_MASK :: u64 where [yios_consts]:
  "ESR_ELx_SYS64_ISS_OP2_MASK =
     push_bit ESR_ELx_SYS64_ISS_OP2_SHIFT 0x7"
definition ESR_ELx_SYS64_ISS_OP0_SHIFT :: nat where [yios_consts]: "ESR_ELx_SYS64_ISS_OP0_SHIFT = 20"
definition ESR_ELx_SYS64_ISS_OP0_MASK :: u64 where [yios_consts]:
  "ESR_ELx_SYS64_ISS_OP0_MASK =
     push_bit ESR_ELx_SYS64_ISS_OP0_SHIFT 0x3"
definition ESR_ELx_SYS64_ISS_SYS_MASK :: u64 where [yios_consts]:
  "ESR_ELx_SYS64_ISS_SYS_MASK =
     ESR_ELx_SYS64_ISS_OP0_MASK OR ESR_ELx_SYS64_ISS_OP1_MASK OR ESR_ELx_SYS64_ISS_OP2_MASK OR
     ESR_ELx_SYS64_ISS_CRN_MASK OR ESR_ELx_SYS64_ISS_CRM_MASK"
definition ESR_ELx_SYS64_ISS_SYS_VAL :: "u64 \<Rightarrow> u64 \<Rightarrow> u64 \<Rightarrow> u64 \<Rightarrow> u64 \<Rightarrow> u64" where
  "ESR_ELx_SYS64_ISS_SYS_VAL op0 op1 op2 crn crm =
     (push_bit ESR_ELx_SYS64_ISS_OP0_SHIFT op0) OR (push_bit ESR_ELx_SYS64_ISS_OP1_SHIFT op1) OR
     (push_bit ESR_ELx_SYS64_ISS_OP2_SHIFT op2) OR (push_bit ESR_ELx_SYS64_ISS_CRN_SHIFT crn) OR
     (push_bit ESR_ELx_SYS64_ISS_CRM_SHIFT crm)"
definition ESR_ELx_SYS64_ISS_SYS_OP_MASK :: u64 where [yios_consts]:
  "ESR_ELx_SYS64_ISS_SYS_OP_MASK =
     ESR_ELx_SYS64_ISS_SYS_MASK OR ESR_ELx_SYS64_ISS_DIR_MASK"

definition ESR_ELx_SYS64_ISS_RT :: "u64 \<Rightarrow> u64" where
  "ESR_ELx_SYS64_ISS_RT esr = drop_bit ESR_ELx_SYS64_ISS_RT_SHIFT (esr AND ESR_ELx_SYS64_ISS_RT_MASK)"

definition ESR_ELx_SYS64_ISS_CRM_DC_CIVAC :: u64 where [yios_consts]: "ESR_ELx_SYS64_ISS_CRM_DC_CIVAC = 14"
definition ESR_ELx_SYS64_ISS_CRM_DC_CVAP :: u64 where [yios_consts]: "ESR_ELx_SYS64_ISS_CRM_DC_CVAP = 12"
definition ESR_ELx_SYS64_ISS_CRM_DC_CVAU :: u64 where [yios_consts]: "ESR_ELx_SYS64_ISS_CRM_DC_CVAU = 11"
definition ESR_ELx_SYS64_ISS_CRM_DC_CVAC :: u64 where [yios_consts]: "ESR_ELx_SYS64_ISS_CRM_DC_CVAC = 10"
definition ESR_ELx_SYS64_ISS_CRM_IC_IVAU :: u64 where [yios_consts]: "ESR_ELx_SYS64_ISS_CRM_IC_IVAU = 5"
definition ESR_ELx_SYS64_ISS_EL0_CACHE_OP_MASK :: u64 where [yios_consts]:
  "ESR_ELx_SYS64_ISS_EL0_CACHE_OP_MASK =
     ESR_ELx_SYS64_ISS_OP0_MASK OR ESR_ELx_SYS64_ISS_OP1_MASK OR ESR_ELx_SYS64_ISS_OP2_MASK OR
     ESR_ELx_SYS64_ISS_CRN_MASK OR ESR_ELx_SYS64_ISS_DIR_MASK"
definition ESR_ELx_SYS64_ISS_EL0_CACHE_OP_VAL :: u64 where [yios_consts]:
  "ESR_ELx_SYS64_ISS_EL0_CACHE_OP_VAL =
     (ESR_ELx_SYS64_ISS_SYS_VAL 1 3 1 7 0) OR ESR_ELx_SYS64_ISS_DIR_WRITE"
definition ESR_ELx_SYS64_ISS_SYS_MRS_OP_MASK :: u64 where [yios_consts]:
  "ESR_ELx_SYS64_ISS_SYS_MRS_OP_MASK =
     ESR_ELx_SYS64_ISS_OP0_MASK OR ESR_ELx_SYS64_ISS_OP1_MASK OR ESR_ELx_SYS64_ISS_CRN_MASK OR
     ESR_ELx_SYS64_ISS_DIR_MASK"
definition ESR_ELx_SYS64_ISS_SYS_MRS_OP_VAL :: u64 where [yios_consts]:
  "ESR_ELx_SYS64_ISS_SYS_MRS_OP_VAL =
     (ESR_ELx_SYS64_ISS_SYS_VAL 3 0 0 0 0) OR ESR_ELx_SYS64_ISS_DIR_READ"
definition ESR_ELx_SYS64_ISS_SYS_CTR :: u64 where [yios_consts]:
  "ESR_ELx_SYS64_ISS_SYS_CTR =
     ESR_ELx_SYS64_ISS_SYS_VAL 3 3 1 0 0"
definition ESR_ELx_SYS64_ISS_SYS_CTR_READ :: u64 where [yios_consts]:
  "ESR_ELx_SYS64_ISS_SYS_CTR_READ =
     ESR_ELx_SYS64_ISS_SYS_CTR OR ESR_ELx_SYS64_ISS_DIR_READ"
definition ESR_ELx_SYS64_ISS_SYS_CNTVCT :: u64 where [yios_consts]:
  "ESR_ELx_SYS64_ISS_SYS_CNTVCT =
     (ESR_ELx_SYS64_ISS_SYS_VAL 3 3 2 14 0) OR ESR_ELx_SYS64_ISS_DIR_READ"
definition ESR_ELx_SYS64_ISS_SYS_CNTFRQ :: u64 where [yios_consts]:
  "ESR_ELx_SYS64_ISS_SYS_CNTFRQ =
     (ESR_ELx_SYS64_ISS_SYS_VAL 3 3 0 14 0) OR ESR_ELx_SYS64_ISS_DIR_READ"

text \<open>\<^verbatim>\<open>sys_reg\<close>, which packs the five fields into one number, is defined nowhere in the tree: it is an argument.\<close>

definition esr_sys64_to_sysreg :: "(u64 \<Rightarrow> u64 \<Rightarrow> u64 \<Rightarrow> u64 \<Rightarrow> u64 \<Rightarrow> 'r) \<Rightarrow> u64 \<Rightarrow> 'r" where
  "esr_sys64_to_sysreg sys_reg e =
     sys_reg (drop_bit ESR_ELx_SYS64_ISS_OP0_SHIFT (e AND ESR_ELx_SYS64_ISS_OP0_MASK))
       (drop_bit ESR_ELx_SYS64_ISS_OP1_SHIFT (e AND ESR_ELx_SYS64_ISS_OP1_MASK))
       (drop_bit ESR_ELx_SYS64_ISS_CRN_SHIFT (e AND ESR_ELx_SYS64_ISS_CRN_MASK))
       (drop_bit ESR_ELx_SYS64_ISS_CRM_SHIFT (e AND ESR_ELx_SYS64_ISS_CRM_MASK))
       (drop_bit ESR_ELx_SYS64_ISS_OP2_SHIFT (e AND ESR_ELx_SYS64_ISS_OP2_MASK))"

definition esr_cp15_to_sysreg :: "(u64 \<Rightarrow> u64 \<Rightarrow> u64 \<Rightarrow> u64 \<Rightarrow> u64 \<Rightarrow> 'r) \<Rightarrow> u64 \<Rightarrow> 'r" where
  "esr_cp15_to_sysreg sys_reg e =
     sys_reg 3
       (drop_bit ESR_ELx_SYS64_ISS_OP1_SHIFT (e AND ESR_ELx_SYS64_ISS_OP1_MASK))
       (drop_bit ESR_ELx_SYS64_ISS_CRN_SHIFT (e AND ESR_ELx_SYS64_ISS_CRN_MASK))
       (drop_bit ESR_ELx_SYS64_ISS_CRM_SHIFT (e AND ESR_ELx_SYS64_ISS_CRM_MASK))
       (drop_bit ESR_ELx_SYS64_ISS_OP2_SHIFT (e AND ESR_ELx_SYS64_ISS_OP2_MASK))"

text \<open>Floating-point traps and accesses to coprocessor 15.\<close>

definition ESR_ELx_FP_EXC_TFV :: u64 where [yios_consts]: "ESR_ELx_FP_EXC_TFV = push_bit 23 1"
definition ESR_ELx_CP15_32_ISS_DIR_MASK :: u64 where [yios_consts]: "ESR_ELx_CP15_32_ISS_DIR_MASK = 0x1"
definition ESR_ELx_CP15_32_ISS_DIR_READ :: u64 where [yios_consts]: "ESR_ELx_CP15_32_ISS_DIR_READ = 0x1"
definition ESR_ELx_CP15_32_ISS_DIR_WRITE :: u64 where [yios_consts]: "ESR_ELx_CP15_32_ISS_DIR_WRITE = 0x0"
definition ESR_ELx_CP15_32_ISS_RT_SHIFT :: nat where [yios_consts]: "ESR_ELx_CP15_32_ISS_RT_SHIFT = 5"
definition ESR_ELx_CP15_32_ISS_RT_MASK :: u64 where [yios_consts]:
  "ESR_ELx_CP15_32_ISS_RT_MASK =
     push_bit ESR_ELx_CP15_32_ISS_RT_SHIFT 0x1f"
definition ESR_ELx_CP15_32_ISS_CRM_SHIFT :: nat where [yios_consts]: "ESR_ELx_CP15_32_ISS_CRM_SHIFT = 1"
definition ESR_ELx_CP15_32_ISS_CRM_MASK :: u64 where [yios_consts]:
  "ESR_ELx_CP15_32_ISS_CRM_MASK =
     push_bit ESR_ELx_CP15_32_ISS_CRM_SHIFT 0xf"
definition ESR_ELx_CP15_32_ISS_CRN_SHIFT :: nat where [yios_consts]: "ESR_ELx_CP15_32_ISS_CRN_SHIFT = 10"
definition ESR_ELx_CP15_32_ISS_CRN_MASK :: u64 where [yios_consts]:
  "ESR_ELx_CP15_32_ISS_CRN_MASK =
     push_bit ESR_ELx_CP15_32_ISS_CRN_SHIFT 0xf"
definition ESR_ELx_CP15_32_ISS_OP1_SHIFT :: nat where [yios_consts]: "ESR_ELx_CP15_32_ISS_OP1_SHIFT = 14"
definition ESR_ELx_CP15_32_ISS_OP1_MASK :: u64 where [yios_consts]:
  "ESR_ELx_CP15_32_ISS_OP1_MASK =
     push_bit ESR_ELx_CP15_32_ISS_OP1_SHIFT 0x7"
definition ESR_ELx_CP15_32_ISS_OP2_SHIFT :: nat where [yios_consts]: "ESR_ELx_CP15_32_ISS_OP2_SHIFT = 17"
definition ESR_ELx_CP15_32_ISS_OP2_MASK :: u64 where [yios_consts]:
  "ESR_ELx_CP15_32_ISS_OP2_MASK =
     push_bit ESR_ELx_CP15_32_ISS_OP2_SHIFT 0x7"
definition ESR_ELx_CP15_32_ISS_SYS_MASK :: u64 where [yios_consts]:
  "ESR_ELx_CP15_32_ISS_SYS_MASK =
     ESR_ELx_CP15_32_ISS_OP1_MASK OR ESR_ELx_CP15_32_ISS_OP2_MASK OR ESR_ELx_CP15_32_ISS_CRN_MASK OR
     ESR_ELx_CP15_32_ISS_CRM_MASK OR ESR_ELx_CP15_32_ISS_DIR_MASK"
definition ESR_ELx_CP15_32_ISS_SYS_VAL :: "u64 \<Rightarrow> u64 \<Rightarrow> u64 \<Rightarrow> u64 \<Rightarrow> u64" where
  "ESR_ELx_CP15_32_ISS_SYS_VAL op1 op2 crn crm =
     (push_bit ESR_ELx_CP15_32_ISS_OP1_SHIFT op1) OR (push_bit ESR_ELx_CP15_32_ISS_OP2_SHIFT op2) OR
     (push_bit ESR_ELx_CP15_32_ISS_CRN_SHIFT crn) OR (push_bit ESR_ELx_CP15_32_ISS_CRM_SHIFT crm)"
definition ESR_ELx_CP15_64_ISS_DIR_MASK :: u64 where [yios_consts]: "ESR_ELx_CP15_64_ISS_DIR_MASK = 0x1"
definition ESR_ELx_CP15_64_ISS_DIR_READ :: u64 where [yios_consts]: "ESR_ELx_CP15_64_ISS_DIR_READ = 0x1"
definition ESR_ELx_CP15_64_ISS_DIR_WRITE :: u64 where [yios_consts]: "ESR_ELx_CP15_64_ISS_DIR_WRITE = 0x0"
definition ESR_ELx_CP15_64_ISS_RT_SHIFT :: nat where [yios_consts]: "ESR_ELx_CP15_64_ISS_RT_SHIFT = 5"
definition ESR_ELx_CP15_64_ISS_RT_MASK :: u64 where [yios_consts]:
  "ESR_ELx_CP15_64_ISS_RT_MASK =
     push_bit ESR_ELx_CP15_64_ISS_RT_SHIFT 0x1f"
definition ESR_ELx_CP15_64_ISS_RT2_SHIFT :: nat where [yios_consts]: "ESR_ELx_CP15_64_ISS_RT2_SHIFT = 10"
definition ESR_ELx_CP15_64_ISS_RT2_MASK :: u64 where [yios_consts]:
  "ESR_ELx_CP15_64_ISS_RT2_MASK =
     push_bit ESR_ELx_CP15_64_ISS_RT2_SHIFT 0x1f"
definition ESR_ELx_CP15_64_ISS_OP1_SHIFT :: nat where [yios_consts]: "ESR_ELx_CP15_64_ISS_OP1_SHIFT = 16"
definition ESR_ELx_CP15_64_ISS_OP1_MASK :: u64 where [yios_consts]:
  "ESR_ELx_CP15_64_ISS_OP1_MASK =
     push_bit ESR_ELx_CP15_64_ISS_OP1_SHIFT 0xf"
definition ESR_ELx_CP15_64_ISS_CRM_SHIFT :: nat where [yios_consts]: "ESR_ELx_CP15_64_ISS_CRM_SHIFT = 1"
definition ESR_ELx_CP15_64_ISS_CRM_MASK :: u64 where [yios_consts]:
  "ESR_ELx_CP15_64_ISS_CRM_MASK =
     push_bit ESR_ELx_CP15_64_ISS_CRM_SHIFT 0xf"
definition ESR_ELx_CP15_64_ISS_SYS_VAL :: "u64 \<Rightarrow> u64 \<Rightarrow> u64" where
  "ESR_ELx_CP15_64_ISS_SYS_VAL op1 crm =
     (push_bit ESR_ELx_CP15_64_ISS_OP1_SHIFT op1) OR (push_bit ESR_ELx_CP15_64_ISS_CRM_SHIFT crm)"
definition ESR_ELx_CP15_64_ISS_SYS_MASK :: u64 where [yios_consts]:
  "ESR_ELx_CP15_64_ISS_SYS_MASK =
     ESR_ELx_CP15_64_ISS_OP1_MASK OR ESR_ELx_CP15_64_ISS_CRM_MASK OR ESR_ELx_CP15_64_ISS_DIR_MASK"
definition ESR_ELx_CP15_64_ISS_SYS_CNTVCT :: u64 where [yios_consts]:
  "ESR_ELx_CP15_64_ISS_SYS_CNTVCT =
     (ESR_ELx_CP15_64_ISS_SYS_VAL 1 14) OR ESR_ELx_CP15_64_ISS_DIR_READ"
definition ESR_ELx_CP15_32_ISS_SYS_CNTFRQ :: u64 where [yios_consts]:
  "ESR_ELx_CP15_32_ISS_SYS_CNTFRQ =
     (ESR_ELx_CP15_32_ISS_SYS_VAL 0 0 14 0) OR ESR_ELx_CP15_32_ISS_DIR_READ"

section \<open>Extracting a field\<close>

lemma field_mask:
  "(0x1 :: u64) = mask 1" "(0x3 :: u64) = mask 2" "(0x7 :: u64) = mask 3" "(0xf :: u64) = mask 4" "(0x1f :: u64) = mask 5"
  by (simp_all add: mask_eq_exp_minus_1)

lemma field_in_place: "e AND push_bit s (mask w) = push_bit s (take_bit w (drop_bit s (e :: u64)))"
  by (rule bit_eqI) (auto simp: bit_simps)

lemma field_get: "s + w \<le> 64 \<Longrightarrow> drop_bit s (e AND push_bit s (mask w)) = take_bit w (drop_bit s (e :: u64))"
  by (rule bit_eqI) (auto simp: bit_simps)

lemma small_bits:
  assumes "(x :: u64) < 2 ^ w" and "w < 64" and "bit x n"
  shows "n < w"
proof (rule ccontr)
  assume "\<not> n < w"
  have "(2 :: nat) ^ w < 2 ^ 64"
    using assms(2) by (rule power_strict_increasing) simp
  then have "unat (2 ^ w :: u64) = 2 ^ w"
    using unat_of_nat_64 [of "2 ^ w"] by simp
  then have "unat x < 2 ^ w"
    using assms(1) by (simp add: word_less_nat_alt)
  then have "take_bit w x = x"
    by (simp add: word_unat_eq_iff unat_take_bit)
  then show False
    using assms(3) \<open>\<not> n < w\<close> by (metis bit_take_bit_iff)
qed

text \<open>The value of the \<open>w\<close> bits from bit \<open>s\<close> on.\<close>

definition bits_at :: "nat \<Rightarrow> nat \<Rightarrow> u64 \<Rightarrow> u64" where
  "bits_at s w e = take_bit w (drop_bit s e)"

lemma bits_at_or: "bits_at s w (x OR y) = bits_at s w x OR bits_at s w y"
  by (simp add: bits_at_def drop_bit_or take_bit_or)

lemma bits_at_same: "x < 2 ^ w \<Longrightarrow> s + w < 64 \<Longrightarrow> bits_at s w (push_bit s x) = x"
  unfolding bits_at_def by (rule bit_eqI) (auto simp: bit_simps dest: small_bits)

lemma bits_at_above: "s + w \<le> t \<Longrightarrow> bits_at s w (push_bit t x) = 0"
  unfolding bits_at_def by (rule bit_eqI) (auto simp: bit_simps)

lemma bits_at_below: "x < 2 ^ v \<Longrightarrow> t + v \<le> s \<Longrightarrow> v < 64 \<Longrightarrow> bits_at s w (push_bit t x) = 0"
  unfolding bits_at_def by (rule bit_eqI) (auto simp: bit_simps dest: small_bits)

section \<open>Trapped system instructions\<close>

text \<open>The syndrome of an access to a system register: the instruction, the general register and the direction.\<close>

definition sys64_iss :: "u64 \<Rightarrow> u64 \<Rightarrow> u64 \<Rightarrow> u64 \<Rightarrow> u64 \<Rightarrow> u64 \<Rightarrow> u64 \<Rightarrow> u64" where
  "sys64_iss op0 op1 op2 crn crm rt dir =
     ESR_ELx_SYS64_ISS_SYS_VAL op0 op1 op2 crn crm OR push_bit ESR_ELx_SYS64_ISS_RT_SHIFT rt OR dir"

definition sys64_ok :: "u64 \<Rightarrow> u64 \<Rightarrow> u64 \<Rightarrow> u64 \<Rightarrow> u64 \<Rightarrow> u64 \<Rightarrow> u64 \<Rightarrow> bool" where
  "sys64_ok op0 op1 op2 crn crm rt dir \<longleftrightarrow>
     op0 < 2 ^ 2 \<and> op1 < 2 ^ 3 \<and> op2 < 2 ^ 3 \<and> crn < 2 ^ 4 \<and> crm < 2 ^ 4 \<and> rt < 2 ^ 5 \<and> dir < 2 ^ 1"

lemma sys64_decode:
  assumes "sys64_ok op0 op1 op2 crn crm rt dir"
  defines "e \<equiv> sys64_iss op0 op1 op2 crn crm rt dir"
  shows "bits_at 20 2 e = op0" "bits_at 14 3 e = op1" "bits_at 17 3 e = op2" "bits_at 10 4 e = crn" "bits_at 1 4 e = crm" "bits_at 5 5 e = rt" "bits_at 0 1 e = dir"
    "bits_at 22 42 e = 0"
proof -
  have i: "e = push_bit 20 op0 OR push_bit 14 op1 OR push_bit 17 op2 OR push_bit 10 crn OR push_bit 1 crm OR push_bit 5 rt OR push_bit 0 dir"
    by (simp add: e_def sys64_iss_def ESR_ELx_SYS64_ISS_SYS_VAL_def yios_consts or.assoc)
  have o: "op0 < 2 ^ 2" "op1 < 2 ^ 3" "op2 < 2 ^ 3" "crn < 2 ^ 4" "crm < 2 ^ 4" "rt < 2 ^ 5" "dir < 2 ^ 1"
    using assms(1) by (simp_all add: sys64_ok_def)
  note below = o [THEN bits_at_below]
  show "bits_at 20 2 e = op0" "bits_at 14 3 e = op1" "bits_at 17 3 e = op2" "bits_at 10 4 e = crn" "bits_at 1 4 e = crm" "bits_at 5 5 e = rt" "bits_at 0 1 e = dir"
    "bits_at 22 42 e = 0"
    unfolding i bits_at_or by (simp_all only: bits_at_same [OF o(1)] bits_at_same [OF o(2)] bits_at_same [OF o(3)] bits_at_same [OF o(4)]
        bits_at_same [OF o(5)] bits_at_same [OF o(6)] bits_at_same [OF o(7)] bits_at_above below, simp_all)
qed

lemma sys64_fields:
  "drop_bit ESR_ELx_SYS64_ISS_OP0_SHIFT (e AND ESR_ELx_SYS64_ISS_OP0_MASK) = bits_at 20 2 e"
  "drop_bit ESR_ELx_SYS64_ISS_OP1_SHIFT (e AND ESR_ELx_SYS64_ISS_OP1_MASK) = bits_at 14 3 e"
  "drop_bit ESR_ELx_SYS64_ISS_OP2_SHIFT (e AND ESR_ELx_SYS64_ISS_OP2_MASK) = bits_at 17 3 e"
  "drop_bit ESR_ELx_SYS64_ISS_CRN_SHIFT (e AND ESR_ELx_SYS64_ISS_CRN_MASK) = bits_at 10 4 e"
  "drop_bit ESR_ELx_SYS64_ISS_CRM_SHIFT (e AND ESR_ELx_SYS64_ISS_CRM_MASK) = bits_at 1 4 e"
  "ESR_ELx_SYS64_ISS_RT e = bits_at 5 5 e" "e AND ESR_ELx_SYS64_ISS_DIR_MASK = bits_at 0 1 e"
  unfolding ESR_ELx_SYS64_ISS_RT_def ESR_ELx_SYS64_ISS_OP0_MASK_def ESR_ELx_SYS64_ISS_OP1_MASK_def ESR_ELx_SYS64_ISS_OP2_MASK_def
    ESR_ELx_SYS64_ISS_CRN_MASK_def ESR_ELx_SYS64_ISS_CRM_MASK_def ESR_ELx_SYS64_ISS_RT_MASK_def ESR_ELx_SYS64_ISS_DIR_MASK_def
    field_mask
  by (subst field_get, simp add: yios_consts, simp add: bits_at_def yios_consts)+ (simp add: bits_at_def take_bit_eq_mask)

lemma sys64_in_place:
  "e AND ESR_ELx_SYS64_ISS_OP0_MASK = push_bit 20 (bits_at 20 2 e)" "e AND ESR_ELx_SYS64_ISS_OP1_MASK = push_bit 14 (bits_at 14 3 e)"
  "e AND ESR_ELx_SYS64_ISS_OP2_MASK = push_bit 17 (bits_at 17 3 e)" "e AND ESR_ELx_SYS64_ISS_CRN_MASK = push_bit 10 (bits_at 10 4 e)"
  unfolding ESR_ELx_SYS64_ISS_OP0_MASK_def ESR_ELx_SYS64_ISS_OP1_MASK_def ESR_ELx_SYS64_ISS_OP2_MASK_def
    ESR_ELx_SYS64_ISS_CRN_MASK_def field_mask field_in_place bits_at_def by (simp_all add: yios_consts)

text \<open>Different instructions have different syndromes.\<close>

lemma sys64_inj:
  assumes "sys64_ok op0 op1 op2 crn crm rt dir" and "sys64_ok op0' op1' op2' crn' crm' rt' dir'"
  shows "sys64_iss op0 op1 op2 crn crm rt dir = sys64_iss op0' op1' op2' crn' crm' rt' dir' \<longleftrightarrow>
    op0 = op0' \<and> op1 = op1' \<and> op2 = op2' \<and> crn = crn' \<and> crm = crm' \<and> rt = rt' \<and> dir = dir'"
  using sys64_decode [OF assms(1)] sys64_decode [OF assms(2)] by metis

text \<open>
  C27: Packing and unpacking a trapped system instruction are inverse: from the syndrome made of the fields
  of an access, \<^verbatim>\<open>esr_sys64_to_sysreg\<close> and the other extraction macros give back every field, and the
  reserved bits are clear. The two templates compare \<^verbatim>\<open>op0\<close>, \<^verbatim>\<open>op1\<close>, \<^verbatim>\<open>crn\<close>, the direction and, for cache maintenance,
  \<^verbatim>\<open>op2\<close> with the values in the comments of \<^verbatim>\<open>esr.h\<close>, and nothing else: every value of \<^verbatim>\<open>crm\<close> matches, also
  those outside the sets that the comments give.
\<close>

theorem sys64_codec:
  assumes "sys64_ok op0 op1 op2 crn crm rt dir"
  shows "let e = sys64_iss op0 op1 op2 crn crm rt dir in
    esr_sys64_to_sysreg f e = f op0 op1 crn crm op2 \<and> esr_cp15_to_sysreg f e = f 3 op1 crn crm op2 \<and>
    ESR_ELx_SYS64_ISS_RT e = rt \<and> e AND ESR_ELx_SYS64_ISS_DIR_MASK = dir \<and> e AND ESR_ELx_SYS64_ISS_RES0_MASK = 0 \<and>
    e AND ESR_ELx_ISS_MASK = e \<and>
    (e AND ESR_ELx_SYS64_ISS_EL0_CACHE_OP_MASK = ESR_ELx_SYS64_ISS_EL0_CACHE_OP_VAL \<longleftrightarrow>
       op0 = 1 \<and> op1 = 3 \<and> op2 = 1 \<and> crn = 7 \<and> dir = 0) \<and>
    (e AND ESR_ELx_SYS64_ISS_SYS_MRS_OP_MASK = ESR_ELx_SYS64_ISS_SYS_MRS_OP_VAL \<longleftrightarrow>
       op0 = 3 \<and> op1 = 0 \<and> crn = 0 \<and> dir = 1)"
proof -
  define e where "e = sys64_iss op0 op1 op2 crn crm rt dir"
  note d = sys64_decode [OF assms, folded e_def]
  have c: "e AND ESR_ELx_SYS64_ISS_EL0_CACHE_OP_MASK = sys64_iss op0 op1 op2 crn 0 0 dir"
    unfolding ESR_ELx_SYS64_ISS_EL0_CACHE_OP_MASK_def bit.conj_disj_distrib sys64_in_place sys64_fields(7) d
    by (simp add: sys64_iss_def ESR_ELx_SYS64_ISS_SYS_VAL_def yios_consts or.assoc)
  have m: "e AND ESR_ELx_SYS64_ISS_SYS_MRS_OP_MASK = sys64_iss op0 op1 0 crn 0 0 dir"
    unfolding ESR_ELx_SYS64_ISS_SYS_MRS_OP_MASK_def bit.conj_disj_distrib sys64_in_place sys64_fields(7) d
    by (simp add: sys64_iss_def ESR_ELx_SYS64_ISS_SYS_VAL_def yios_consts or.assoc)
  have v: "ESR_ELx_SYS64_ISS_EL0_CACHE_OP_VAL = sys64_iss 1 3 1 7 0 0 0" "ESR_ELx_SYS64_ISS_SYS_MRS_OP_VAL = sys64_iss 3 0 0 0 0 0 1"
    by (simp_all add: sys64_iss_def ESR_ELx_SYS64_ISS_EL0_CACHE_OP_VAL_def ESR_ELx_SYS64_ISS_SYS_MRS_OP_VAL_def
        ESR_ELx_SYS64_ISS_DIR_WRITE_def ESR_ELx_SYS64_ISS_DIR_READ_def)
  have ok: "sys64_ok op0 op1 op2 crn 0 0 dir" "sys64_ok op0 op1 0 crn 0 0 dir" "sys64_ok 1 3 1 7 0 0 0" "sys64_ok 3 0 0 0 0 0 1"
    using assms by (simp_all add: sys64_ok_def)
  have h: "n < 22" if "bit e n" for n
  proof (rule ccontr)
    assume "\<not> n < 22"
    then have "bit (bits_at 22 42 e) (n - 22)"
      using that bit_imp_le_length [of e n] by (auto simp: bits_at_def bit_simps)
    then show False
      by (simp add: d)
  qed
  have z: "ESR_ELx_SYS64_ISS_RES0_MASK = push_bit 22 (mask 3)"
    by (simp add: yios_consts mask_eq_exp_minus_1)
  have r: "e AND ESR_ELx_SYS64_ISS_RES0_MASK = 0"
    unfolding z by (rule bit_eqI) (auto simp: bit_simps dest: h)
  have s: "e AND ESR_ELx_ISS_MASK = e"
    unfolding masks by (rule bit_eqI) (auto simp: bit_simps dest: h)
  show ?thesis
    unfolding e_def [symmetric] Let_def esr_sys64_to_sysreg_def esr_cp15_to_sysreg_def sys64_fields d c m v
      sys64_inj [OF ok(1,3)] sys64_inj [OF ok(2,4)]
    using r s by simp
qed

theorem sys64_codec_witness:
  "sys64_ok 3 3 0 14 0 5 1 \<and>
   esr_sys64_to_sysreg (\<lambda>a b c d e. [a, b, c, d, e]) (sys64_iss 3 3 0 14 0 5 1) = [3, 3, 14, 0, 0] \<and>
   sys64_iss 3 3 0 14 0 5 1 AND ESR_ELx_SYS64_ISS_SYS_OP_MASK = ESR_ELx_SYS64_ISS_SYS_CNTFRQ"
proof -
  have ok: "sys64_ok 3 3 0 14 0 5 1"
    by (simp add: sys64_ok_def)
  show ?thesis
    using ok sys64_codec [OF ok, of "\<lambda>a b c d e. [a, b, c, d, e]"]
    by (simp add: Let_def sys64_iss_def ESR_ELx_SYS64_ISS_SYS_VAL_def yios_consts)
qed

text \<open>
  Accesses to coprocessor 15 have the layout of system instructions without \<^verbatim>\<open>op0\<close>, so
  \<^verbatim>\<open>esr_cp15_to_sysreg\<close> can use the same masks.
\<close>

lemma cp15_32_roundtrip:
  assumes "sys64_ok 0 op1 op2 crn crm 0 0"
  shows "esr_cp15_to_sysreg f (ESR_ELx_CP15_32_ISS_SYS_VAL op1 op2 crn crm) = f 3 op1 crn crm op2"
proof -
  have "ESR_ELx_CP15_32_ISS_SYS_VAL op1 op2 crn crm = sys64_iss 0 op1 op2 crn crm 0 0"
    by (simp add: sys64_iss_def ESR_ELx_SYS64_ISS_SYS_VAL_def ESR_ELx_CP15_32_ISS_SYS_VAL_def yios_consts)
  then show ?thesis
    unfolding esr_cp15_to_sysreg_def sys64_fields by (simp only: sys64_decode [OF assms])
qed

lemma cp15_64_roundtrip:
  assumes "op1 < 2 ^ 4" and "crm < 2 ^ 4"
  shows "bits_at ESR_ELx_CP15_64_ISS_OP1_SHIFT 4 (ESR_ELx_CP15_64_ISS_SYS_VAL op1 crm) = op1"
    and "bits_at ESR_ELx_CP15_64_ISS_CRM_SHIFT 4 (ESR_ELx_CP15_64_ISS_SYS_VAL op1 crm) = crm"
proof -
  have v: "ESR_ELx_CP15_64_ISS_SYS_VAL op1 crm = push_bit 16 op1 OR push_bit 1 crm"
    unfolding ESR_ELx_CP15_64_ISS_SYS_VAL_def yios_consts by (rule refl)
  show "bits_at ESR_ELx_CP15_64_ISS_OP1_SHIFT 4 (ESR_ELx_CP15_64_ISS_SYS_VAL op1 crm) = op1"
    "bits_at ESR_ELx_CP15_64_ISS_CRM_SHIFT 4 (ESR_ELx_CP15_64_ISS_SYS_VAL op1 crm) = crm"
    unfolding v bits_at_or ESR_ELx_CP15_64_ISS_OP1_SHIFT_def ESR_ELx_CP15_64_ISS_CRM_SHIFT_def
    using bits_at_same [OF assms(1), of 16] bits_at_same [OF assms(2), of 1] bits_at_below [OF assms(2), of 1 16 4] bits_at_above [of 1 4 16 op1]
    by (simp_all only:, simp_all)
qed

lemma cp15_fields:
  "disjoint_masks [ESR_ELx_CP15_32_ISS_DIR_MASK, ESR_ELx_CP15_32_ISS_CRM_MASK, ESR_ELx_CP15_32_ISS_RT_MASK, ESR_ELx_CP15_32_ISS_CRN_MASK,
     ESR_ELx_CP15_32_ISS_OP1_MASK, ESR_ELx_CP15_32_ISS_OP2_MASK, ESR_ELx_COND_MASK, ESR_ELx_CV]"
  "disjoint_masks [ESR_ELx_CP15_64_ISS_DIR_MASK, ESR_ELx_CP15_64_ISS_CRM_MASK, ESR_ELx_CP15_64_ISS_RT_MASK, ESR_ELx_CP15_64_ISS_RT2_MASK,
     ESR_ELx_CP15_64_ISS_OP1_MASK, ESR_ELx_COND_MASK, ESR_ELx_CV]"
  by (simp_all add: yios_consts)

text \<open>The template for a waiting instruction asks for the class and for the direction bit, nothing else.\<close>

lemma wfi_template:
  "ucast esr AND ESR_ELx_WFx_MASK = ESR_ELx_WFx_WFI_VAL \<longleftrightarrow> ESR_ELx_EC esr = ESR_ELx_EC_WFx \<and> \<not> bit esr 0"
proof -
  have m: "ESR_ELx_WFx_MASK = push_bit 26 (mask 6) OR push_bit 0 (mask 1)" "ESR_ELx_WFx_WFI_VAL = push_bit 26 1 OR push_bit 0 0"
    by (simp_all add: yios_consts mask_eq_exp_minus_1)
  have e: "ucast esr AND ESR_ELx_WFx_MASK = push_bit 26 (ESR_ELx_EC esr) OR push_bit 0 (take_bit 1 (ucast esr))"
    unfolding m bit.conj_disj_distrib field_in_place EC_bits by simp
  have s: "ESR_ELx_EC esr < 2 ^ 6" "take_bit 1 (ucast esr :: u64) < 2 ^ 1"
    using EC_lt [of esr] by (simp_all only: word_less_nat_alt unat_take_bit, simp_all)
  have "push_bit 26 a OR push_bit 0 b = (push_bit 26 1 OR push_bit 0 0 :: u64) \<longleftrightarrow> a = 1 \<and> b = 0" if "a < 2 ^ 6" "b < 2 ^ 1" for a b :: u64
  proof
    assume "push_bit 26 a OR push_bit 0 b = (push_bit 26 1 OR push_bit 0 0 :: u64)"
    then have "bits_at 26 6 (push_bit 26 a OR push_bit 0 b) = bits_at 26 6 (push_bit 26 1 OR push_bit 0 0)"
      "bits_at 0 1 (push_bit 26 a OR push_bit 0 b) = bits_at 0 1 (push_bit 26 1 OR push_bit 0 0)"
      by simp_all
    then show "a = 1 \<and> b = 0"
      unfolding bits_at_or using bits_at_same [OF that(1), of 26] bits_at_same [OF that(2), of 0] bits_at_below [OF that(2), of 0 26 6]
        bits_at_above [of 0 1 26 a] by (simp add: bits_at_def)
  qed simp
  moreover have "take_bit 1 (ucast esr :: u64) = 0 \<longleftrightarrow> \<not> bit esr 0"
  proof -
    have "take_bit 1 (ucast esr :: u64) = 0 \<longleftrightarrow> unat esr mod 2 = 0"
      by (simp only: word_unat_eq_iff unat_take_bit unat_ucast_32_64) simp
    moreover have "bit esr 0 \<longleftrightarrow> bit (unat esr) 0"
      by (simp only: bit_unsigned_iff possible_bit_nat simp_thms)
    ultimately show ?thesis
      by (simp add: bit_0 even_iff_mod_2_eq_zero [symmetric])
  qed
  ultimately show ?thesis
    unfolding e m(2) using s by (simp add: ESR_ELx_EC_WFx_def)
qed

section \<open>Aborts\<close>

text \<open>The fields of a data abort do not overlap and, with the one unused bit 13, make up the syndrome.\<close>

definition abort_fields :: "u64 list" where
  "abort_fields = [ESR_ELx_FSC, ESR_ELx_WNR, ESR_ELx_S1PTW, ESR_ELx_CM, ESR_ELx_EA, ESR_ELx_FnV, ESR_ELx_SET_MASK,
     push_bit 13 1, ESR_ELx_AR, ESR_ELx_SF, ESR_ELx_SRT_MASK, ESR_ELx_SSE, ESR_ELx_SAS, ESR_ELx_ISV]"

lemma abort_fields_partition: "disjoint_masks abort_fields" "foldr (OR) abort_fields 0 = ESR_ELx_ISS_MASK"
  by (simp_all add: abort_fields_def yios_consts)

text \<open>
  The fields that an asynchronous error shares with the deferred error register lie in its bottom 13
  bits, as the comment in \<^verbatim>\<open>esr.h\<close> says; each error type is one value of its field.
\<close>

lemma async_error_fields:
  "DISR_EL1_ESR_MASK AND NOT (mask 13) = 0" "DISR_EL1_IDS = ESR_ELx_IDS" "ESR_ELx_IDS AND DISR_EL1_ESR_MASK = 0"
  "\<forall>t \<in> set [ESR_ELx_AET_UC, ESR_ELx_AET_UEU, ESR_ELx_AET_UEO, ESR_ELx_AET_UER, ESR_ELx_AET_CE]. t AND ESR_ELx_AET = t"
  "distinct [ESR_ELx_AET_UC, ESR_ELx_AET_UEU, ESR_ELx_AET_UEO, ESR_ELx_AET_UER, ESR_ELx_AET_CE]"
  by (simp_all add: yios_consts mask_eq_exp_minus_1)

text \<open>
  The template of a breakpoint instruction is not the syndrome itself: the sign extension sets the upper
  half of the 64-bit value, so only its lower half compares equal to the 32-bit register.
\<close>

lemma brk64_template:
  "drop_bit 32 (ESR_ELx_VAL_BRK64 imm) = 0xffffffff" "ESR_ELx_EC (ucast (ESR_ELx_VAL_BRK64 imm)) = ESR_ELx_EC_BRK64"
  "ucast (ucast (ESR_ELx_VAL_BRK64 imm) :: u32) \<noteq> ESR_ELx_VAL_BRK64 imm"
proof -
  have v: "ESR_ELx_VAL_BRK64 imm = 0xfffffffff2000000 OR (imm AND mask 16)"
  proof -
    have "scast (push_bit ESR_ELx_EC_SHIFT (ucast ESR_ELx_EC_BRK64) :: u32) OR ESR_ELx_IL = (0xfffffffff2000000 :: u64)"
      by code_simp
    then show ?thesis
      by (simp add: ESR_ELx_VAL_BRK64_def mask_eq_exp_minus_1 or.assoc [symmetric])
  qed
  have "drop_bit 32 (imm AND mask 16) = 0" "drop_bit 26 (imm AND mask 16) = 0"
    by (rule bit_eqI, simp add: bit_simps)+
  then show h: "drop_bit 32 (ESR_ELx_VAL_BRK64 imm) = 0xffffffff"
    by (simp add: v drop_bit_or)
  show "ESR_ELx_EC (ucast (ESR_ELx_VAL_BRK64 imm)) = ESR_ELx_EC_BRK64"
  proof -
    have "ESR_ELx_EC (ucast (ESR_ELx_VAL_BRK64 imm)) = take_bit 6 (drop_bit 26 (ESR_ELx_VAL_BRK64 imm))"
      unfolding EC_bits by (rule bit_eqI) (auto simp: bit_simps)
    also have "\<dots> = 0x3C"
      unfolding v drop_bit_or \<open>drop_bit 26 (imm AND mask 16) = 0\<close> by simp
    finally show ?thesis
      by (simp add: ESR_ELx_EC_BRK64_def)
  qed
  have "drop_bit 32 (ucast (ucast (ESR_ELx_VAL_BRK64 imm) :: u32) :: u64) = 0"
    by (rule bit_eqI) (auto simp: bit_simps)
  then show "ucast (ucast (ESR_ELx_VAL_BRK64 imm) :: u32) \<noteq> ESR_ELx_VAL_BRK64 imm"
    using h by (intro notI) simp
qed

text \<open>
  The fault types of \<^verbatim>\<open>esr.h\<close> and the strings of \<^verbatim>\<open>data_fault_code\<close> agree: the two low bits of the status are
  the level. Access and permission faults at level 0 have no string, nor have external aborts.
\<close>

definition fault_text :: "string \<Rightarrow> nat \<Rightarrow> string option" where
  "fault_text what level = Some (what @ '' fault, level'' @ [char_of (48 + level)])"

lemma fault_code_types:
  "k - k mod 4 = 4 \<Longrightarrow> data_fault_code ! k = fault_text ''Translation'' (k mod 4)"
  "k - k mod 4 = 8 \<Longrightarrow> data_fault_code ! k = (if k mod 4 = 0 then None else fault_text ''Access flag'' (k mod 4))"
  "k - k mod 4 = 12 \<Longrightarrow> data_fault_code ! k = (if k mod 4 = 0 then None else fault_text ''Permission'' (k mod 4))"
  "k = 16 \<or> k = 17 \<Longrightarrow> data_fault_code ! k = None"
proof -
  have d: "take 14 (drop 4 data_fault_code) =
      map (fault_text ''Translation'') [0, 1, 2, 3] @ None # map (fault_text ''Access flag'') [1, 2, 3] @
      None # map (fault_text ''Permission'') [1, 2, 3] @ [None, None]"
    by code_simp
  have n: "data_fault_code ! (4 + i) = take 14 (drop 4 data_fault_code) ! i" if "i < 14" for i
    using that by (simp add: data_fault_code_def)
  have c: "k - k mod 4 = q \<Longrightarrow> k = q \<or> k = q + 1 \<or> k = q + 2 \<or> k = q + 3" for q
    by presburger
  show "k - k mod 4 = 4 \<Longrightarrow> data_fault_code ! k = fault_text ''Translation'' (k mod 4)"
    using c [of 4] n [of 0] n [of 1] n [of 2] n [of 3] unfolding d by auto
  show "k - k mod 4 = 8 \<Longrightarrow> data_fault_code ! k = (if k mod 4 = 0 then None else fault_text ''Access flag'' (k mod 4))"
    using c [of 8] n [of 4] n [of 5] n [of 6] n [of 7] unfolding d by auto
  show "k - k mod 4 = 12 \<Longrightarrow> data_fault_code ! k = (if k mod 4 = 0 then None else fault_text ''Permission'' (k mod 4))"
    using c [of 12] n [of 8] n [of 9] n [of 10] n [of 11] unfolding d by auto
  show "k = 16 \<or> k = 17 \<Longrightarrow> data_fault_code ! k = None"
    using n [of 12] n [of 13] unfolding d by auto
qed

lemma fault_type_strings:
  "ucast esr AND ESR_ELx_FSC_TYPE = ESR_ELx_FSC_FAULT \<Longrightarrow>
     esr_get_dfsc_string esr = Inr (fault_text ''Translation'' (unat (esr AND 3)))"
  "ucast esr AND ESR_ELx_FSC_TYPE = ESR_ELx_FSC_ACCESS \<Longrightarrow>
     esr_get_dfsc_string esr = Inr (if esr AND 3 = 0 then None else fault_text ''Access flag'' (unat (esr AND 3)))"
  "ucast esr AND ESR_ELx_FSC_TYPE = ESR_ELx_FSC_PERM \<Longrightarrow>
     esr_get_dfsc_string esr = Inr (if esr AND 3 = 0 then None else fault_text ''Permission'' (unat (esr AND 3)))"
  "ucast esr AND ESR_ELx_FSC = ESR_ELx_FSC_EXTABT \<or> ucast esr AND ESR_ELx_FSC = ESR_ELx_FSC_SERROR \<Longrightarrow>
     esr_get_dfsc_string esr = Inr None"
proof -
  define k where "k = unat esr mod 64"
  have k: "k < 64" "k mod 4 = unat esr mod 4"
    by (simp_all add: k_def mod_mod_cancel)
  have m: "(0x3f :: u32) = mask 6" "(3 :: u32) = mask 2" "(0x3F :: u64) = mask 6" "(0x3C :: u64) = mask 6 AND NOT (mask 2)"
    by (simp_all add: mask_eq_exp_minus_1)
  have u: "unat (esr AND 0x3f) = k" "unat (esr AND 3) = k mod 4" "unat ((ucast esr :: u64) AND 0x3F) = k"
    "unat ((ucast esr :: u64) AND 0x3C) = k - k mod 4"
    unfolding m and.assoc [symmetric] unat_and_not_mask unat_and_mask k(2) unat_ucast_32_64 by (simp_all add: k_def mod_mod_cancel)
  have f: "ucast esr AND ESR_ELx_FSC_TYPE = v \<longleftrightarrow> k - k mod 4 = unat v" "ucast esr AND ESR_ELx_FSC = v \<longleftrightarrow> k = unat v" for v :: u64
    unfolding word_unat_eq_iff ESR_ELx_FSC_TYPE_def ESR_ELx_FSC_def u by (rule refl)+
  have z: "esr AND 3 = 0 \<longleftrightarrow> k mod 4 = 0"
    unfolding word_unat_eq_iff u by simp
  have l: "length data_fault_code = 0x36"
    by code_simp
  have g: "esr_get_dfsc_string esr = Inr (data_fault_code ! k)" if "k < 0x36"
    using that by (simp add: esr_get_dfsc_string_def Let_def u l)
  have b: "k < 0x36" if "k - k mod 4 = 4 \<or> k - k mod 4 = 8 \<or> k - k mod 4 = 12 \<or> k = 16 \<or> k = 17"
    using that by presburger
  show "ucast esr AND ESR_ELx_FSC_TYPE = ESR_ELx_FSC_FAULT \<Longrightarrow>
      esr_get_dfsc_string esr = Inr (fault_text ''Translation'' (unat (esr AND 3)))"
    "ucast esr AND ESR_ELx_FSC_TYPE = ESR_ELx_FSC_ACCESS \<Longrightarrow>
      esr_get_dfsc_string esr = Inr (if esr AND 3 = 0 then None else fault_text ''Access flag'' (unat (esr AND 3)))"
    "ucast esr AND ESR_ELx_FSC_TYPE = ESR_ELx_FSC_PERM \<Longrightarrow>
      esr_get_dfsc_string esr = Inr (if esr AND 3 = 0 then None else fault_text ''Permission'' (unat (esr AND 3)))"
    "ucast esr AND ESR_ELx_FSC = ESR_ELx_FSC_EXTABT \<or> ucast esr AND ESR_ELx_FSC = ESR_ELx_FSC_SERROR \<Longrightarrow>
      esr_get_dfsc_string esr = Inr None"
    unfolding f z u ESR_ELx_FSC_FAULT_def ESR_ELx_FSC_ACCESS_def ESR_ELx_FSC_PERM_def ESR_ELx_FSC_EXTABT_def ESR_ELx_FSC_SERROR_def
    using g b fault_code_types [of k] by simp_all
qed

end
