(* ===== verification/Page_Alloc.thy ===== *)
theory Page_Alloc
  imports Memory
begin

text \<open>
  The page macros of \<^verbatim>\<open>include/yios/page.h\<close>, the memory layout of \<^verbatim>\<open>include/yios/config.h\<close> and
  \<^verbatim>\<open>include/yios/mm.h\<close>, and the page allocator of \<^verbatim>\<open>mm/page_alloc.c\<close>. The allocator's state is the
  array \<^verbatim>\<open>mem_map\<close> of \<^verbatim>\<open>NR_PAGES\<close> use counts, a function on indices here; an access at an index
  outside the array is a fault.

  The locale \<open>page_provider\<close> is the contract the allocator gives its clients (the page-table code
  and \<^verbatim>\<open>do_fork\<close>): a page that was free, no longer free afterwards, nothing else taken; it is
  interpreted on \<open>get_free_page\<close>.
\<close>

section \<open>Constants\<close>

definition PAGE_SHIFT :: nat where [yios_consts]: "PAGE_SHIFT = 12"

definition TABLE_SHIFT :: nat where [yios_consts]: "TABLE_SHIFT = 9"

definition PAGE_SIZE :: u64 where [yios_consts]: "PAGE_SIZE = 4096"

definition PAGE_MASK :: u64 where "PAGE_MASK = NOT (PAGE_SIZE - 1)"

definition PAGE_ALIGN :: "u64 \<Rightarrow> u64" where
  "PAGE_ALIGN x = ALIGN x PAGE_SIZE"

definition PAGE_BALIGN :: "u64 \<Rightarrow> u64" where
  "PAGE_BALIGN x = BALIGN x PAGE_SIZE"

definition IS_PAGE_ALIGN :: "u64 \<Rightarrow> bool" where
  "IS_PAGE_ALIGN x \<longleftrightarrow> x AND (PAGE_SIZE - 1) = 0"

definition IS_BLOCK_ALIGN :: "u64 \<Rightarrow> bool" where
  "IS_BLOCK_ALIGN x \<longleftrightarrow> x AND 0x1fffff = 0"

definition TOTAL_MEMORY :: u64 where [yios_consts]: "TOTAL_MEMORY = 0x100000 * 512"

definition NR_PAGES :: nat where [yios_consts]: "NR_PAGES = 0x100000 * 512 div 4096"

definition LOW_MEMORY :: u64 where [yios_consts]: "LOW_MEMORY = 0x400000"

section \<open>The allocator\<close>

type_synonym mem_map = "nat \<Rightarrow> u16"

text \<open>
  The loop of \<^verbatim>\<open>get_free_page\<close> from index \<open>i\<close> on. The address \<^verbatim>\<open>LOW_MEMORY + i * PAGE_SIZE\<close> is
  computed from an \<^verbatim>\<open>int\<close> product below \<open>2\<^sup>3\<^sup>1\<close>, so it does not overflow.
\<close>

function get_free_page_from :: "nat \<Rightarrow> mem_map \<Rightarrow> u64 \<times> mem_map" where
  "get_free_page_from i mm =
     (if i < NR_PAGES
      then if mm i = 0 then (LOW_MEMORY + of_nat i * PAGE_SIZE, mm(i := 1))
           else get_free_page_from (Suc i) mm
      else (0, mm))"
  by pat_completeness auto
termination
  by (relation "measure (\<lambda>(i, mm). NR_PAGES - i)") auto

declare get_free_page_from.simps [simp del]

definition get_free_page :: "mem_map \<Rightarrow> u64 \<times> mem_map" where
  "get_free_page mm = get_free_page_from 0 mm"

definition free_page :: "u64 \<Rightarrow> mem_map \<Rightarrow> fault + mem_map" where
  "free_page p mm =
     (let i = unat ((p - LOW_MEMORY) div PAGE_SIZE) in
      if i < NR_PAGES then Inr (mm(i := 0)) else Inl Out_Of_Bounds)"

text \<open>
  \<^verbatim>\<open>mem_init\<close> changes no allocator state: it computes the two numbers it prints, the free bytes
  in KB and the number of whole pages between \<^verbatim>\<open>start\<close> and \<^verbatim>\<open>end\<close>.
\<close>

partial_function (option) count_pages :: "u64 \<Rightarrow> u64 \<Rightarrow> u64 \<Rightarrow> u64 option" where
  "count_pages start stop n =
     (if start < stop then count_pages (start + PAGE_SIZE) stop (n + 1) else Some n)"

declare count_pages.simps [code]

definition mem_init :: "u64 \<Rightarrow> u64 \<Rightarrow> (u64 \<times> u64) option" where
  "mem_init start stop =
     (let start = PAGE_BALIGN start;
          stop = stop AND PAGE_MASK;
          free = stop - start
      in do { nr_free_pages \<leftarrow> count_pages start stop 0; Some (free div 1024, nr_free_pages) })"

text \<open>The pages that \<open>k\<close> calls of an allocator in a row return.\<close>

primrec get_many :: "('s \<Rightarrow> u64 \<times> 's) \<Rightarrow> nat \<Rightarrow> 's \<Rightarrow> u64 list" where
  "get_many get 0 s = []"
| "get_many get (Suc k) s = fst (get s) # get_many get k (snd (get s))"

section \<open>Page arithmetic\<close>

lemma PAGE_SIZE_2p: "PAGE_SIZE = 2 ^ 12"
  by (simp add: PAGE_SIZE_def)

lemma PAGE_MASK_eq: "PAGE_MASK = NOT (mask 12)"
  by (simp add: PAGE_MASK_def PAGE_SIZE_def mask_eq_exp_minus_1)

lemma unat_PAGE_MASK: "unat (x AND PAGE_MASK) = 4096 * (unat x div 4096)"
  using unat_and_not_mask_div [of x 12] by (simp add: PAGE_MASK_eq)

lemma unat_PAGE_BALIGN:
  "unat x + 4095 < 2 ^ 64 \<Longrightarrow> unat (PAGE_BALIGN x) = 4096 * ((unat x + 4095) div 4096)"
  using unat_BALIGN [of x 12] by (simp add: PAGE_BALIGN_def PAGE_SIZE_2p)

definition page_aligned :: "u64 \<Rightarrow> bool" where
  "page_aligned x \<longleftrightarrow> unat x mod 4096 = 0"

lemma IS_PAGE_ALIGN_iff: "IS_PAGE_ALIGN x \<longleftrightarrow> page_aligned x"
proof -
  have "x AND (PAGE_SIZE - 1) = x AND mask 12"
    by (simp add: PAGE_SIZE_def mask_eq_exp_minus_1)
  then show ?thesis
    using unat_and_mask [of x 12] by (simp add: IS_PAGE_ALIGN_def page_aligned_def unat_eq_0 [symmetric])
qed

lemma page_aligned_PAGE_MASK [simp]: "page_aligned (x AND PAGE_MASK)"
  by (simp add: page_aligned_def unat_PAGE_MASK)

section \<open>The allocator's behaviour\<close>

definition page_of :: "nat \<Rightarrow> u64" where
  "page_of i = LOW_MEMORY + of_nat i * PAGE_SIZE"

definition free_pages :: "mem_map \<Rightarrow> u64 set" where
  "free_pages mm = page_of ` {i. i < NR_PAGES \<and> mm i = 0}"

lemma unat_page_of: "i < NR_PAGES \<Longrightarrow> unat (page_of i) = 0x400000 + i * 4096"
proof -
  assume i: "i < NR_PAGES"
  then have "page_of i = of_nat (0x400000 + i * 4096)"
    by (simp add: page_of_def LOW_MEMORY_def PAGE_SIZE_def)
  also have "unat \<dots> = 0x400000 + i * 4096"
    using i by (intro unat_of_nat_64) (simp add: NR_PAGES_def)
  finally show ?thesis .
qed

lemma page_of_inj: "i < NR_PAGES \<Longrightarrow> j < NR_PAGES \<Longrightarrow> page_of i = page_of j \<Longrightarrow> i = j"
  by (drule arg_cong [where f = unat]) (simp add: unat_page_of)

lemma free_pages_props:
  assumes "p \<in> free_pages mm"
  shows "page_aligned p" and "0x400000 \<le> unat p" and "unat p < 0x20400000"
  using assms by (auto simp: free_pages_def page_aligned_def unat_page_of NR_PAGES_def)

lemma finite_free_pages [simp]: "finite (free_pages mm)"
  by (simp add: free_pages_def)

lemma card_free_pages: "card (free_pages mm) = card {i. i < NR_PAGES \<and> mm i = 0}"
  unfolding free_pages_def by (rule card_image) (auto simp: inj_on_def dest: page_of_inj)

lemma card_all_free [simp]: "card (free_pages (\<lambda>_. 0)) = 131072"
  by (simp add: card_free_pages NR_PAGES_def)

lemma free_pages_upd:
  assumes "i < NR_PAGES" and "v \<noteq> 0"
  shows "free_pages (mm(i := v)) = free_pages mm - {page_of i}"
  using assms unfolding free_pages_def by (auto dest: page_of_inj)

lemma get_free_page_from_cases:
  "(\<exists>j \<ge> i. j < NR_PAGES \<and> mm j = 0 \<and> (\<forall>k. i \<le> k \<and> k < j \<longrightarrow> mm k \<noteq> 0) \<and>
      get_free_page_from i mm = (page_of j, mm(j := 1))) \<or>
   (\<forall>j. i \<le> j \<and> j < NR_PAGES \<longrightarrow> mm j \<noteq> 0) \<and> get_free_page_from i mm = (0, mm)"
proof (induction i mm rule: get_free_page_from.induct)
  case (1 i mm)
  show ?case
  proof (cases "i < NR_PAGES \<and> mm i \<noteq> 0")
    case True
    then have e: "get_free_page_from i mm = get_free_page_from (Suc i) mm"
      by (simp add: get_free_page_from.simps [of i])
    have le: "i \<le> j \<longleftrightarrow> j = i \<or> Suc i \<le> j" for j
      by auto
    from "1.IH" True show ?thesis
      unfolding e le by blast
  next
    case False
    then consider "\<not> i < NR_PAGES" | "i < NR_PAGES" "mm i = 0"
      by auto
    then show ?thesis
    proof cases
      case 1
      then show ?thesis
        by (intro disjI2) (auto simp: get_free_page_from.simps [of i])
    next
      case 2
      then have "get_free_page_from i mm = (page_of i, mm(i := 1))"
        by (simp add: get_free_page_from.simps [of i] page_of_def)
      with 2 show ?thesis
        by (intro disjI1 exI [of _ i]) auto
    qed
  qed
qed

lemma get_free_page_cases:
  obtains (some) j where "j < NR_PAGES" "mm j = 0" "\<forall>k < j. mm k \<noteq> 0"
      "get_free_page mm = (page_of j, mm(j := 1))"
    | (none) "\<forall>j < NR_PAGES. mm j \<noteq> 0" "get_free_page mm = (0, mm)"
  using get_free_page_from_cases [of 0 mm] unfolding get_free_page_def by auto

lemma get_free_page_taken:
  assumes "free_pages mm \<noteq> {}" and "get_free_page mm = (p, mm')"
  shows "p \<in> free_pages mm" and "free_pages mm' = free_pages mm - {p}"
proof -
  from assms(1) have ex: "\<exists>j < NR_PAGES. mm j = 0"
    by (auto simp: free_pages_def)
  obtain j where j: "j < NR_PAGES" "mm j = 0" and g: "get_free_page mm = (page_of j, mm(j := 1))"
    using ex by (cases rule: get_free_page_cases [of mm]) auto
  with assms(2) have "p = page_of j" and "mm' = mm(j := 1)"
    by auto
  with j show "p \<in> free_pages mm" and "free_pages mm' = free_pages mm - {p}"
    by (auto simp: free_pages_upd) (auto simp: free_pages_def)
qed

lemma get_free_page_none:
  assumes "free_pages mm = {}"
  shows "get_free_page mm = (0, mm)"
  using assms by (cases rule: get_free_page_cases [of mm]) (auto simp: free_pages_def)

locale page_provider =
  fixes get :: "'s \<Rightarrow> u64 \<times> 's"
    and free :: "'s \<Rightarrow> u64 set"
  assumes fin: "finite (free s)"
    and taken: "free s \<noteq> {} \<Longrightarrow> get s = (p, s') \<Longrightarrow> p \<in> free s \<and> free s' = free s - {p}"
begin

lemma get_many_fresh:
  "k \<le> card (free s) \<Longrightarrow> distinct (get_many get k s) \<and> set (get_many get k s) \<subseteq> free s"
proof (induction k arbitrary: s)
  case 0
  then show ?case by simp
next
  case (Suc k)
  then have "free s \<noteq> {}"
    by auto
  then have t: "fst (get s) \<in> free s" "free (snd (get s)) = free s - {fst (get s)}"
    using taken [of s "fst (get s)" "snd (get s)"] by auto
  then have "k \<le> card (free (snd (get s)))"
    using Suc.prems by (simp add: fin)
  from Suc.IH [OF this] t show ?case
    by auto
qed

end

interpretation pages: page_provider get_free_page free_pages
  by unfold_locales (simp_all add: get_free_page_taken)

lemma free_page_of:
  assumes "i < NR_PAGES"
  shows "free_page (page_of i) mm = Inr (mm(i := 0))"
proof -
  have "page_of i - LOW_MEMORY = of_nat (i * 4096)"
    by (simp add: page_of_def PAGE_SIZE_def)
  moreover have "unat (of_nat (i * 4096) :: u64) = i * 4096"
    using assms by (intro unat_of_nat_64) (simp add: NR_PAGES_def)
  ultimately have "unat ((page_of i - LOW_MEMORY) div PAGE_SIZE) = i"
    by (simp add: unat_div PAGE_SIZE_def)
  with assms show ?thesis
    by (simp add: free_page_def)
qed

lemma count_pages_run:
  assumes "unat start + k * 4096 = unat stop"
  shows "count_pages start stop n = Some (n + of_nat k)"
  using assms
proof (induction k arbitrary: start n)
  case 0
  then show ?case by (simp add: count_pages.simps word_unat_eq_iff [symmetric])
next
  case (Suc k)
  have "unat start + 4096 < 18446744073709551616"
    using Suc.prems unat_lt_64 [of stop] unfolding mult_Suc by arith
  then have "unat (start + PAGE_SIZE) = unat start + 4096"
    by (subst unat_add_no_wrap) (simp_all add: PAGE_SIZE_def)
  then have "count_pages (start + PAGE_SIZE) stop (n + 1) = Some (n + 1 + of_nat k)"
    using Suc.prems by (intro Suc.IH) simp
  moreover have "start < stop"
    using Suc.prems by (simp add: word_less_nat_alt)
  ultimately show ?case
    by (simp add: count_pages.simps [of start] add.assoc)
qed

lemma mem_init_run:
  assumes "unat start + 4095 < 2 ^ 64" and "PAGE_BALIGN start \<le> stop AND PAGE_MASK"
  shows "mem_init start stop =
    (let n = unat stop div 4096 - (unat start + 4095) div 4096 in Some (of_nat (4 * n), of_nat n))"
proof -
  define a b where "a = (unat start + 4095) div 4096" and "b = unat stop div 4096"
  have s: "unat (PAGE_BALIGN start) = 4096 * a" "unat (stop AND PAGE_MASK) = 4096 * b"
    using assms(1) by (simp_all add: unat_PAGE_BALIGN unat_PAGE_MASK a_def b_def)
  then have le: "a \<le> b"
    using assms(2) by (simp add: word_le_nat_alt)
  then have c: "count_pages (PAGE_BALIGN start) (stop AND PAGE_MASK) 0 = Some (of_nat (b - a))"
    using count_pages_run [of "PAGE_BALIGN start" "b - a" "stop AND PAGE_MASK" 0] s by (simp add: algebra_simps)
  have "unat ((stop AND PAGE_MASK) - PAGE_BALIGN start) = 4096 * (b - a)"
    using assms(2) s by (simp add: unat_sub algebra_simps)
  then have "unat (((stop AND PAGE_MASK) - PAGE_BALIGN start) div 1024) = 4 * (b - a)"
    by (simp add: unat_div)
  moreover have "4 * (b - a) < 2 ^ 64"
    using unat_lt_64 [of "stop AND PAGE_MASK"] s(2) by simp
  ultimately have "((stop AND PAGE_MASK) - PAGE_BALIGN start) div 1024 = of_nat (4 * (b - a))"
    by (metis word_unat_eq_iff unat_of_nat_64)
  with c show ?thesis
    by (simp add: mem_init_def Let_def a_def b_def)
qed

lemma free_page_index: "unat ((p - LOW_MEMORY) div PAGE_SIZE) = unat (p - LOW_MEMORY) div 4096"
  by (simp add: unat_div PAGE_SIZE_def)

lemma unat_sub_LOW: "unat (p - LOW_MEMORY) =
    (if 0x400000 \<le> unat p then unat p - 0x400000 else unat p + (2 ^ 64 - 0x400000))"
  by (auto simp: unat_sub_if' LOW_MEMORY_def)

section \<open>Properties\<close>

text \<open>
  C22: \<^verbatim>\<open>get_free_page\<close> returns the lowest page whose use count is 0, marks it used and changes no other
  count; only when every count is non-zero does it return 0, with the counts unchanged.
\<close>

theorem get_free_page_lowest:
  "(\<exists>j < NR_PAGES. mm j = 0 \<and> (\<forall>k < j. mm k \<noteq> 0) \<and>
      get_free_page mm = (LOW_MEMORY + of_nat j * PAGE_SIZE, mm(j := 1))) \<or>
   (\<forall>j < NR_PAGES. mm j \<noteq> 0) \<and> get_free_page mm = (0, mm)"
  by (cases rule: get_free_page_cases [of mm]) (auto simp: page_of_def)

theorem get_free_page_lowest_witness: "fst (get_free_page ((\<lambda>_. 0)(0 := 1))) = 0x401000"
proof -
  define mm :: mem_map where "mm = (\<lambda>_. 0)(0 := 1)"
  have "1 < NR_PAGES" and "mm 1 = 0"
    by (simp_all add: NR_PAGES_def mm_def)
  then have "\<not> (\<forall>j < NR_PAGES. mm j \<noteq> 0)"
    by blast
  with get_free_page_lowest [of mm] obtain j where "mm j = 0" "\<forall>k < j. mm k \<noteq> 0"
    and g: "get_free_page mm = (LOW_MEMORY + of_nat j * PAGE_SIZE, mm(j := 1))"
    by blast
  then have "j = 1"
    by (cases j) (auto simp: mm_def split: if_splits)
  with g show ?thesis
    by (simp add: mm_def [symmetric] LOW_MEMORY_def PAGE_SIZE_def)
qed

text \<open>
  Successive calls of \<^verbatim>\<open>get_free_page\<close> hand out distinct pages: the first \<open>k\<close> pages it returns, for
  any \<open>k\<close> up to the number of free pages, differ from each other, were all free, are page-aligned
  and lie above the kernel's low memory.
\<close>

theorem get_free_page_disjoint:
  assumes "k \<le> card (free_pages mm)"
  shows "distinct (get_many get_free_page k mm) \<and>
    (\<forall>p \<in> set (get_many get_free_page k mm). p \<in> free_pages mm \<and> page_aligned p \<and> LOW_MEMORY \<le> p)"
  using pages.get_many_fresh [OF assms] free_pages_props(1,2) [of _ mm]
  by (auto simp: word_le_nat_alt LOW_MEMORY_def)

theorem get_free_page_disjoint_witness:
  "distinct (get_many get_free_page 1000 (\<lambda>_. 0))"
  using get_free_page_disjoint [of 1000 "\<lambda>_. 0"] by simp

text \<open>Freeing the page just allocated restores the allocator's state exactly.\<close>

theorem free_page_undoes_get:
  assumes "get_free_page mm = (p, mm')" and "p \<noteq> 0"
  shows "free_page p mm' = Inr mm"
proof (cases rule: get_free_page_cases [of mm])
  case (some j)
  then show ?thesis
    using assms free_page_of [of j mm'] by (auto simp: fun_upd_idem)
next
  case none
  then show ?thesis
    using assms by simp
qed

theorem free_page_undoes_get_witness:
  "\<exists>mm'. get_free_page (\<lambda>_. 0) = (0x400000, mm') \<and> free_page 0x400000 mm' = Inr (\<lambda>_. 0)"
proof -
  have "get_free_page (\<lambda>_. 0) = (0x400000, (\<lambda>_. 0)(0 := 1))"
    by (simp add: get_free_page_def get_free_page_from.simps NR_PAGES_def LOW_MEMORY_def)
  with free_page_undoes_get [OF this] show ?thesis
    by simp
qed

text \<open>
  \<^verbatim>\<open>free_page\<close> has no bounds check: it stays inside \<^verbatim>\<open>mem_map\<close> exactly for the addresses of the
  pool, and for every other address (0, the value of a failed \<^verbatim>\<open>get_free_page\<close>, included) it writes
  outside the array.
\<close>

theorem free_page_bounds:
  "free_page p mm = Inl Out_Of_Bounds \<longleftrightarrow> \<not> (LOW_MEMORY \<le> p \<and> unat p < 0x400000 + NR_PAGES * 4096)"
proof -
  have "unat (p - LOW_MEMORY) div 4096 < NR_PAGES \<longleftrightarrow> LOW_MEMORY \<le> p \<and> unat p < 0x400000 + NR_PAGES * 4096"
    unfolding unat_sub_LOW by (auto simp: word_le_nat_alt LOW_MEMORY_def NR_PAGES_def)
  then show ?thesis
    by (simp add: free_page_def free_page_index)
qed



text \<open>
  \<^verbatim>\<open>mem_init\<close> terminates and reports the number of whole pages between its two addresses and their
  size in KB (four per page), when the range holds at least its rounded start.
\<close>

theorem mem_init_counts:
  assumes "unat start + 4095 < 2 ^ 64" and "PAGE_BALIGN start \<le> stop AND PAGE_MASK"
  shows "mem_init start stop =
    (let n = unat stop div 4096 - (unat start + 4095) div 4096 in Some (of_nat (4 * n), of_nat n))"
  using mem_init_run [OF assms] .

theorem mem_init_counts_witness: "mem_init 0x90001 0x20000000 = Some (523708, 130927)"
  using mem_init_counts [of "0x90001" "0x20000000"]
  by (simp add: PAGE_BALIGN_def BALIGN_def round_mask_def PAGE_MASK_def PAGE_SIZE_def)

end
