(* ===== verification/Pgtable.thy ===== *)
theory Pgtable
  imports Page_Alloc
begin

text \<open>
  The page-table format: the level geometry and descriptor bits of \<^verbatim>\<open>asm/pgtable_hwdef.h\<close>, the
  protections of \<^verbatim>\<open>asm/pgtable_prot.h\<close>, the memory types of \<^verbatim>\<open>asm/memory.h\<close>, and the accessors of
  \<^verbatim>\<open>asm/pgtable.h\<close>. The structs \<^verbatim>\<open>pgd_t\<close>, \<^verbatim>\<open>pud_t\<close>, \<^verbatim>\<open>pmd_t\<close>, \<^verbatim>\<open>pte_t\<close> wrap one 64-bit word; the model
  uses the word, and a pointer to one is the address of an 8-byte slot of physical memory.
\<close>

section \<open>Types\<close>

type_synonym pgd_t = u64
type_synonym pud_t = u64
type_synonym pmd_t = u64
type_synonym pte_t = u64

text \<open>
  The state the page-table code works on: physical memory and the allocator's \<^verbatim>\<open>mem_map\<close>. The
  barriers (\<^verbatim>\<open>dsb\<close>, \<^verbatim>\<open>isb\<close>) order accesses and change no state.
\<close>

record mmstate =
  pmem :: mem
  mmap :: mem_map

section \<open>Geometry\<close>

definition VA_BITS :: nat where [yios_consts]: "VA_BITS = 48"

definition PGDIR_SHIFT :: nat where [yios_consts]: "PGDIR_SHIFT = 39"
definition PGDIR_SIZE :: u64 where "PGDIR_SIZE = push_bit PGDIR_SHIFT 1"
definition PGDIR_MASK :: u64 where "PGDIR_MASK = NOT (PGDIR_SIZE - 1)"
definition PTRS_PER_PGD :: u64 where "PTRS_PER_PGD = push_bit (VA_BITS - PGDIR_SHIFT) 1"

definition PUD_SHIFT :: nat where [yios_consts]: "PUD_SHIFT = 30"
definition PUD_SIZE :: u64 where "PUD_SIZE = push_bit PUD_SHIFT 1"
definition PUD_MASK :: u64 where "PUD_MASK = NOT (PUD_SIZE - 1)"
definition PTRS_PER_PUD :: u64 where "PTRS_PER_PUD = push_bit (PGDIR_SHIFT - PUD_SHIFT) 1"

definition PMD_SHIFT :: nat where [yios_consts]: "PMD_SHIFT = 21"
definition PMD_SIZE :: u64 where "PMD_SIZE = push_bit PMD_SHIFT 1"
definition PMD_MASK :: u64 where "PMD_MASK = NOT (PMD_SIZE - 1)"
definition PTRS_PER_PMD :: u64 where "PTRS_PER_PMD = push_bit (PUD_SHIFT - PMD_SHIFT) 1"

definition PTE_SHIFT :: nat where [yios_consts]: "PTE_SHIFT = 12"
definition PTRS_PER_PTE :: u64 where "PTRS_PER_PTE = push_bit (PMD_SHIFT - PTE_SHIFT) 1"

definition SECTION_SHIFT :: nat where [yios_consts]: "SECTION_SHIFT = PMD_SHIFT"
definition SECTION_SIZE :: u64 where "SECTION_SIZE = push_bit SECTION_SHIFT 1"
definition SECTION_MASK :: u64 where "SECTION_MASK = NOT (SECTION_SIZE - 1)"

section \<open>Descriptor bits\<close>

definition PUD_TYPE_TABLE :: u64 where [yios_consts]: "PUD_TYPE_TABLE = 3"
definition PUD_TYPE_MASK :: u64 where [yios_consts]: "PUD_TYPE_MASK = 3"
definition PUD_TYPE_SECT :: u64 where [yios_consts]: "PUD_TYPE_SECT = 1"
definition PMD_TYPE_MASK :: u64 where [yios_consts]: "PMD_TYPE_MASK = 3"
definition PMD_TYPE_TABLE :: u64 where [yios_consts]: "PMD_TYPE_TABLE = 3"
definition PMD_TYPE_SECT :: u64 where [yios_consts]: "PMD_TYPE_SECT = 1"

definition PTE_TYPE_PAGE :: u64 where [yios_consts]: "PTE_TYPE_PAGE = 3"
definition PTE_TABLE_BIT :: u64 where [yios_consts]: "PTE_TABLE_BIT = push_bit 1 1"
definition PTE_USER :: u64 where [yios_consts]: "PTE_USER = push_bit 6 1"
definition PTE_RDONLY :: u64 where [yios_consts]: "PTE_RDONLY = push_bit 7 1"
definition PTE_SHARED :: u64 where [yios_consts]: "PTE_SHARED = push_bit 8 3"
definition PTE_AF :: u64 where [yios_consts]: "PTE_AF = push_bit 10 1"
definition PTE_NG :: u64 where [yios_consts]: "PTE_NG = push_bit 11 1"
definition PTE_DBM :: u64 where [yios_consts]: "PTE_DBM = push_bit 51 1"
definition PTE_CONT :: u64 where [yios_consts]: "PTE_CONT = push_bit 52 1"
definition PTE_PXN :: u64 where [yios_consts]: "PTE_PXN = push_bit 53 1"
definition PTE_UXN :: u64 where [yios_consts]: "PTE_UXN = push_bit 54 1"

definition PTE_ADDR_MASK :: u64 where
  "PTE_ADDR_MASK = push_bit PAGE_SHIFT (push_bit (48 - PAGE_SHIFT) 1 - 1)"

definition PTE_ATTRINDX :: "u64 \<Rightarrow> u64" where
  "PTE_ATTRINDX t = push_bit 2 t"

definition PTE_ATTRINDX_MASK :: u64 where [yios_consts]: "PTE_ATTRINDX_MASK = push_bit 2 7"

definition PTE_VALID :: u64 where [yios_consts]: "PTE_VALID = push_bit 0 1"
definition PTE_WRITE :: u64 where [yios_consts]: "PTE_WRITE = PTE_DBM"
definition PTE_DIRTY :: u64 where [yios_consts]: "PTE_DIRTY = push_bit 55 1"

definition MT_DEVICE_nGnRnE :: u64 where [yios_consts]: "MT_DEVICE_nGnRnE = 0"
definition MT_DEVICE_nGnRE :: u64 where [yios_consts]: "MT_DEVICE_nGnRE = 1"
definition MT_DEVICE_GRE :: u64 where [yios_consts]: "MT_DEVICE_GRE = 2"
definition MT_NORMAL_NC :: u64 where [yios_consts]: "MT_NORMAL_NC = 3"
definition MT_NORMAL :: u64 where [yios_consts]: "MT_NORMAL = 4"
definition MT_NORMAL_WT :: u64 where [yios_consts]: "MT_NORMAL_WT = 5"

definition MAIR :: "u64 \<Rightarrow> u64 \<Rightarrow> u64" where
  "MAIR attr mt = push_bit (unat (mt * 8)) attr"

definition PROT_DEFAULT :: u64 where [yios_consts]:
  "PROT_DEFAULT = PTE_TYPE_PAGE OR PTE_AF OR PTE_SHARED"

definition PROT_DEVICE_nGnRnE :: u64 where [yios_consts]:
  "PROT_DEVICE_nGnRnE =
     PROT_DEFAULT OR PTE_PXN OR PTE_UXN OR PTE_DIRTY OR PTE_WRITE OR PTE_ATTRINDX MT_DEVICE_nGnRnE"

definition PROT_NORMAL :: u64 where [yios_consts]:
  "PROT_NORMAL =
     PROT_DEFAULT OR PTE_PXN OR PTE_UXN OR PTE_DIRTY OR PTE_WRITE OR PTE_ATTRINDX MT_NORMAL"

definition PAGE_KERNEL_RO :: u64 where [yios_consts]:
  "PAGE_KERNEL_RO = (PROT_NORMAL AND NOT PTE_WRITE) OR PTE_RDONLY"

definition PAGE_KERNNEL_ROX :: u64 where [yios_consts]:
  "PAGE_KERNNEL_ROX = (PROT_NORMAL AND NOT (PTE_WRITE OR PTE_PXN)) OR PTE_RDONLY"

definition PAGE_KERNEL_EXEC :: u64 where [yios_consts]:
  "PAGE_KERNEL_EXEC = PROT_NORMAL AND NOT PTE_PXN"

definition PAGE_KERNEL :: u64 where [yios_consts]: "PAGE_KERNEL = PROT_NORMAL"

section \<open>Accessors\<close>

definition pgd_index :: "u64 \<Rightarrow> u64" where
  "pgd_index addr = drop_bit PGDIR_SHIFT addr AND (PTRS_PER_PGD - 1)"

definition pgd_offset_raw :: "u64 \<Rightarrow> u64 \<Rightarrow> u64" where
  "pgd_offset_raw pgd addr = pgd + pgd_index addr * 8"

definition pgd_addr_end :: "u64 \<Rightarrow> u64 \<Rightarrow> u64" where
  "pgd_addr_end addr stop =
     (let boundary = (addr + PGDIR_SIZE) AND PGDIR_MASK in
      if boundary - 1 < stop - 1 then boundary else stop)"

definition pud_addr_end :: "u64 \<Rightarrow> u64 \<Rightarrow> u64" where
  "pud_addr_end addr stop =
     (let boundary = (addr + PUD_SIZE) AND PUD_MASK in
      if boundary - 1 < stop - 1 then boundary else stop)"

definition pmd_addr_end :: "u64 \<Rightarrow> u64 \<Rightarrow> u64" where
  "pmd_addr_end addr stop =
     (let boundary = (addr + PMD_SIZE) AND PMD_MASK in
      if boundary - 1 < stop - 1 then boundary else stop)"

definition pgd_none :: "pgd_t \<Rightarrow> bool" where "pgd_none pgd \<longleftrightarrow> pgd = 0"
definition pud_none :: "pud_t \<Rightarrow> bool" where "pud_none pud \<longleftrightarrow> pud = 0"
definition pmd_none :: "pmd_t \<Rightarrow> bool" where "pmd_none pmd \<longleftrightarrow> pmd = 0"

definition pmd_sect :: "pmd_t \<Rightarrow> bool" where
  "pmd_sect pmd \<longleftrightarrow> pmd AND PMD_TYPE_MASK = PMD_TYPE_SECT"

definition pud_sect :: "pud_t \<Rightarrow> bool" where
  "pud_sect pud \<longleftrightarrow> pud AND PUD_TYPE_MASK = PUD_TYPE_SECT"

definition pgd_page_paddr :: "pgd_t \<Rightarrow> u64" where "pgd_page_paddr pgd = pgd AND PTE_ADDR_MASK"
definition pud_page_paddr :: "pud_t \<Rightarrow> u64" where "pud_page_paddr pud = pud AND PTE_ADDR_MASK"
definition pmd_page_paddr :: "pmd_t \<Rightarrow> u64" where "pmd_page_paddr pmd = pmd AND PTE_ADDR_MASK"

definition pud_index :: "u64 \<Rightarrow> u64" where
  "pud_index addr = drop_bit PUD_SHIFT addr AND (PTRS_PER_PUD - 1)"

definition pud_offset_phys :: "mem \<Rightarrow> u64 \<Rightarrow> u64 \<Rightarrow> u64" where
  "pud_offset_phys m pgdp addr = pgd_page_paddr (ld64 m pgdp) + pud_index addr * 8"

definition pmd_index :: "u64 \<Rightarrow> u64" where
  "pmd_index addr = drop_bit PMD_SHIFT addr AND (PTRS_PER_PMD - 1)"

definition pmd_offset_phys :: "mem \<Rightarrow> u64 \<Rightarrow> u64 \<Rightarrow> u64" where
  "pmd_offset_phys m pudp addr = pud_page_paddr (ld64 m pudp) + pmd_index addr * 8"

definition pte_index :: "u64 \<Rightarrow> u64" where
  "pte_index addr = drop_bit PAGE_SHIFT addr AND (PTRS_PER_PTE - 1)"

definition pte_offset_phys :: "mem \<Rightarrow> u64 \<Rightarrow> u64 \<Rightarrow> u64" where
  "pte_offset_phys m pmdp addr = pmd_page_paddr (ld64 m pmdp) + pte_index addr * 8"

definition pfn_pmd :: "u64 \<Rightarrow> u64 \<Rightarrow> pmd_t" where
  "pfn_pmd pfn prot = push_bit PMD_SHIFT pfn OR prot"

definition pfn_pte :: "u64 \<Rightarrow> u64 \<Rightarrow> pte_t" where
  "pfn_pte pfn prot = push_bit PAGE_SHIFT pfn OR prot"

definition set_pgd :: "u64 \<Rightarrow> pgd_t \<Rightarrow> mmstate \<Rightarrow> mmstate" where
  "set_pgd pgdp pgd s = s\<lparr>pmem := st64 (pmem s) pgdp pgd\<rparr>"

definition set_pud :: "u64 \<Rightarrow> pud_t \<Rightarrow> mmstate \<Rightarrow> mmstate" where
  "set_pud pudp pud s = s\<lparr>pmem := st64 (pmem s) pudp pud\<rparr>"

definition set_pmd :: "u64 \<Rightarrow> pmd_t \<Rightarrow> mmstate \<Rightarrow> mmstate" where
  "set_pmd pmdp pmd s = s\<lparr>pmem := st64 (pmem s) pmdp pmd\<rparr>"

definition set_pte :: "u64 \<Rightarrow> pte_t \<Rightarrow> mmstate \<Rightarrow> mmstate" where
  "set_pte ptep pte s = s\<lparr>pmem := st64 (pmem s) ptep pte\<rparr>"

definition mk_sect_prot :: "u64 \<Rightarrow> u64" where
  "mk_sect_prot prot = prot AND NOT PTE_TABLE_BIT"

end
