(* ===== verification/Mmu.thy ===== *)
theory Mmu
  imports Pgtable Device
begin

text \<open>
  \<^verbatim>\<open>arch/arm64/core/mmu.c\<close>: the construction of the identity page tables. The four levels of table
  filling call each other as in the source, with the page-table allocator as an argument, as
  there; each \<^verbatim>\<open>do \<dots> while (addr != end)\<close> loop is a \<^theory_text>\<open>partial_function\<close>, whose value \<^const>\<open>None\<close>
  means that the loop never meets its end address. The theory \<open>Mmu_Refine\<close> proves what the
  tables map afterwards.
\<close>

section \<open>Filling the tables\<close>

type_synonym pgtable_alloc = "mmstate \<Rightarrow> u64 \<times> mmstate"

definition NO_BLOCK_MAPPINGS :: u64 where [yios_consts]: "NO_BLOCK_MAPPINGS = BIT 0"

definition early_pgtable_alloc :: pgtable_alloc where
  "early_pgtable_alloc s =
     (let (phys, mm) = get_free_page (mmap s)
      in (phys, s\<lparr>mmap := mm, pmem := memset (pmem s) phys 0 PAGE_SIZE\<rparr>))"

definition pmd_set_section :: "u64 \<Rightarrow> u64 \<Rightarrow> u64 \<Rightarrow> mmstate \<Rightarrow> mmstate" where
  "pmd_set_section pmdp phys prot s =
     (let sect_prot = PMD_TYPE_SECT OR mk_sect_prot prot;
          new_pmd = pfn_pmd (drop_bit PMD_SHIFT phys) sect_prot
      in set_pmd pmdp new_pmd s)"

partial_function (option) pte_loop ::
  "u64 \<Rightarrow> u64 \<Rightarrow> u64 \<Rightarrow> u64 \<Rightarrow> u64 \<Rightarrow> mmstate \<Rightarrow> mmstate option" where
  "pte_loop ptep addr stop phys prot s =
     (let s = set_pte ptep (pfn_pte (drop_bit PAGE_SHIFT phys) prot) s;
          phys = phys + PAGE_SIZE;
          ptep = ptep + 8;
          addr = addr + PAGE_SIZE
      in if addr \<noteq> stop then pte_loop ptep addr stop phys prot s else Some s)"

declare pte_loop.simps [code]

definition alloc_init_pte ::
  "u64 \<Rightarrow> u64 \<Rightarrow> u64 \<Rightarrow> u64 \<Rightarrow> u64 \<Rightarrow> pgtable_alloc \<Rightarrow> u64 \<Rightarrow> mmstate \<Rightarrow> mmstate option" where
  "alloc_init_pte pmdp addr stop phys prot alloc flags s =
     (let s = (if pmd_none (ld64 (pmem s) pmdp)
               then let (pte_phys, s) = alloc s in set_pmd pmdp (pte_phys OR PMD_TYPE_TABLE) s
               else s);
          ptep = pte_offset_phys (pmem s) pmdp addr
      in pte_loop ptep addr stop phys prot s)"

text \<open>The body of the loop of \<^verbatim>\<open>alloc_init_pmd\<close>: a 2 MB section where it fits, a table otherwise.\<close>

definition pmd_entry ::
  "u64 \<Rightarrow> u64 \<Rightarrow> u64 \<Rightarrow> u64 \<Rightarrow> u64 \<Rightarrow> pgtable_alloc \<Rightarrow> u64 \<Rightarrow> mmstate \<Rightarrow> mmstate option" where
  "pmd_entry pmdp addr nxt phys prot alloc flags s =
     (if (addr OR nxt OR phys) AND NOT SECTION_MASK = 0 \<and> flags AND NO_BLOCK_MAPPINGS = 0
      then Some (pmd_set_section pmdp phys prot s)
      else alloc_init_pte pmdp addr nxt phys prot alloc flags s)"

partial_function (option) pmd_loop ::
  "u64 \<Rightarrow> u64 \<Rightarrow> u64 \<Rightarrow> u64 \<Rightarrow> u64 \<Rightarrow> pgtable_alloc \<Rightarrow> u64 \<Rightarrow> mmstate \<Rightarrow> mmstate option" where
  "pmd_loop pmdp addr stop phys prot alloc flags s =
     (let nxt = pmd_addr_end addr stop in
      do { s \<leftarrow> pmd_entry pmdp addr nxt phys prot alloc flags s;
           if nxt \<noteq> stop
           then pmd_loop (pmdp + 8) nxt stop (phys + (nxt - addr)) prot alloc flags s
           else Some s })"

declare pmd_loop.simps [code]

definition alloc_init_pmd ::
  "u64 \<Rightarrow> u64 \<Rightarrow> u64 \<Rightarrow> u64 \<Rightarrow> u64 \<Rightarrow> pgtable_alloc \<Rightarrow> u64 \<Rightarrow> mmstate \<Rightarrow> mmstate option" where
  "alloc_init_pmd pudp addr stop phys prot alloc flags s =
     (let s = (if pud_none (ld64 (pmem s) pudp)
               then let (pmd_phys, s) = alloc s in set_pud pudp (pmd_phys OR PUD_TYPE_TABLE) s
               else s);
          pmdp = pmd_offset_phys (pmem s) pudp addr
      in pmd_loop pmdp addr stop phys prot alloc flags s)"

partial_function (option) pud_loop ::
  "u64 \<Rightarrow> u64 \<Rightarrow> u64 \<Rightarrow> u64 \<Rightarrow> u64 \<Rightarrow> pgtable_alloc \<Rightarrow> u64 \<Rightarrow> mmstate \<Rightarrow> mmstate option" where
  "pud_loop pudp addr stop phys prot alloc flags s =
     (let nxt = pud_addr_end addr stop in
      do { s \<leftarrow> alloc_init_pmd pudp addr nxt phys prot alloc flags s;
           if nxt \<noteq> stop
           then pud_loop (pudp + 8) nxt stop (phys + (nxt - addr)) prot alloc flags s
           else Some s })"

declare pud_loop.simps [code]

definition alloc_init_pud ::
  "u64 \<Rightarrow> u64 \<Rightarrow> u64 \<Rightarrow> u64 \<Rightarrow> u64 \<Rightarrow> pgtable_alloc \<Rightarrow> u64 \<Rightarrow> mmstate \<Rightarrow> mmstate option" where
  "alloc_init_pud pgdp addr stop phys prot alloc flags s =
     (let s = (if pgd_none (ld64 (pmem s) pgdp)
               then let (pud_phys, s) = alloc s in set_pgd pgdp (pud_phys OR PUD_TYPE_TABLE) s
               else s);
          pudp = pud_offset_phys (pmem s) pgdp addr
      in pud_loop pudp addr stop phys prot alloc flags s)"

partial_function (option) pgd_loop ::
  "u64 \<Rightarrow> u64 \<Rightarrow> u64 \<Rightarrow> u64 \<Rightarrow> u64 \<Rightarrow> pgtable_alloc \<Rightarrow> u64 \<Rightarrow> mmstate \<Rightarrow> mmstate option" where
  "pgd_loop pgdp addr stop phys prot alloc flags s =
     (let nxt = pgd_addr_end addr stop in
      do { s \<leftarrow> alloc_init_pud pgdp addr nxt phys prot alloc flags s;
           if nxt \<noteq> stop
           then pgd_loop (pgdp + 8) nxt stop (phys + (nxt - addr)) prot alloc flags s
           else Some s })"

declare pgd_loop.simps [code]

definition create_pgd_mapping ::
  "u64 \<Rightarrow> u64 \<Rightarrow> u64 \<Rightarrow> u64 \<Rightarrow> u64 \<Rightarrow> pgtable_alloc \<Rightarrow> u64 \<Rightarrow> mmstate \<Rightarrow> mmstate option" where
  "create_pgd_mapping pgdir phys virt sz prot alloc flags s =
     (let pgdp = pgd_offset_raw pgdir virt;
          phys = phys AND PAGE_MASK;
          addr = virt AND PAGE_MASK;
          stop = PAGE_BALIGN (virt + sz)
      in pgd_loop pgdp addr stop phys prot alloc flags s)"

section \<open>The kernel's own mappings\<close>

text \<open>
  The addresses the linker script defines (\<^verbatim>\<open>arch/arm64/lds/vmyios.lds.S\<close>) and the C code takes
  as \<^verbatim>\<open>extern char\<close> arrays.
\<close>

record layout =
  text_boot :: u64
  etext :: u64
  idmap_pg_dir :: u64


definition create_identical_mapping :: "layout \<Rightarrow> mmstate \<Rightarrow> mmstate option" where
  "create_identical_mapping L s =
     do { let start = text_boot L;
          let stop = etext L;
          s \<leftarrow> create_pgd_mapping (idmap_pg_dir L) start start (stop - start)
                 PAGE_KERNNEL_ROX early_pgtable_alloc 0 s;
          let start = PAGE_BALIGN (etext L);
          let stop = TOTAL_MEMORY;
          create_pgd_mapping (idmap_pg_dir L) start start (stop - start)
            PAGE_KERNEL early_pgtable_alloc 0 s }"

definition create_mmio_mapping :: "layout \<Rightarrow> mmstate \<Rightarrow> mmstate option" where
  "create_mmio_mapping L s =
     create_pgd_mapping (idmap_pg_dir L) PBASE PBASE DEVICE_SIZE
       PROT_DEVICE_nGnRnE early_pgtable_alloc 0 s"

end
