(* ===== verification/Table_Spec.thy ===== *)
theory Table_Spec
  imports Pgtable
begin

text \<open>
  What a page table means: the abstract side of the refinement of \<^verbatim>\<open>mmu.c\<close>. Memory is seen as a
  function \<open>w\<close> from slot addresses to doublewords. Levels count from the leaves: 0 is the PTE
  level, 1 the PMD, 2 the PUD and 3 the PGD level; an entry of level \<open>n\<close> covers
  \<open>2 ^ (12 + 9 * n)\<close> bytes.

  \<open>look n w e va\<close> descends from the entry \<open>e\<close> of level \<open>n\<close> the way the walkers of
  \<^verbatim>\<open>kernel/dump_pgtable.c\<close> do and gives the output address and the attribute bits of the leaf it
  ends in. \<open>ent n w e F\<close> says that the tables below \<open>e\<close> form a tree that occupies exactly the pages
  \<open>F\<close>, no page used twice; it is what makes an update of one entry local.
\<close>

section \<open>Geometry in numbers\<close>

definition sh :: "nat \<Rightarrow> nat" where
  "sh n = 12 + 9 * n"

definition idx :: "nat \<Rightarrow> u64 \<Rightarrow> nat" where
  "idx n va = unat va div 2 ^ sh n mod 512"

definition slot :: "u64 \<Rightarrow> nat \<Rightarrow> u64" where
  "slot p i = p + of_nat i * 8"

definition pg :: "u64 \<Rightarrow> u64" where
  "pg a = a AND PAGE_MASK"

definition paddr :: "u64 \<Rightarrow> u64" where
  "paddr e = e AND PTE_ADDR_MASK"

definition attrs :: "u64 \<Rightarrow> u64" where
  "attrs e = e AND NOT PTE_ADDR_MASK AND NOT 3"

section \<open>Tables as trees\<close>

fun ent :: "nat \<Rightarrow> (u64 \<Rightarrow> u64) \<Rightarrow> u64 \<Rightarrow> u64 set \<Rightarrow> bool" where
  "ent 0 w e F \<longleftrightarrow> F = {}"
| "ent (Suc n) w e F \<longleftrightarrow>
     e = 0 \<and> F = {} \<or> n = 0 \<and> e AND 3 = 1 \<and> F = {} \<or>
     e AND 3 = 3 \<and>
     (\<exists>Fs. F = insert (paddr e) (\<Union>i<512. Fs i) \<and>
       (\<forall>i<512. paddr e \<notin> Fs i \<and> ent n w (w (slot (paddr e) i)) (Fs i)) \<and>
       (\<forall>i<512. \<forall>j<512. i \<noteq> j \<longrightarrow> Fs i \<inter> Fs j = {}))"

definition tbl :: "nat \<Rightarrow> (u64 \<Rightarrow> u64) \<Rightarrow> u64 \<Rightarrow> u64 set \<Rightarrow> bool" where
  "tbl n w p F \<longleftrightarrow>
     (\<exists>Fs. F = insert p (\<Union>i<512. Fs i) \<and>
       (\<forall>i<512. p \<notin> Fs i \<and> ent n w (w (slot p i)) (Fs i)) \<and>
       (\<forall>i<512. \<forall>j<512. i \<noteq> j \<longrightarrow> Fs i \<inter> Fs j = {}))"

fun look :: "nat \<Rightarrow> (u64 \<Rightarrow> u64) \<Rightarrow> u64 \<Rightarrow> u64 \<Rightarrow> (u64 \<times> u64) option" where
  "look 0 w e va =
     (if e AND 3 = 3 then Some (paddr e + of_nat (unat va mod 2 ^ 12), attrs e) else None)"
| "look (Suc n) w e va =
     (if n = 0 \<and> e AND 3 = 1 then Some (paddr e + of_nat (unat va mod 2 ^ 21), attrs e)
      else if e AND 3 = 3 then look n w (w (slot (paddr e) (idx n va))) va
      else None)"

definition ltab :: "nat \<Rightarrow> (u64 \<Rightarrow> u64) \<Rightarrow> u64 \<Rightarrow> u64 \<Rightarrow> (u64 \<times> u64) option" where
  "ltab n w p va = look n w (w (slot p (idx n va))) va"

section \<open>Slots and pages\<close>

lemma sh_Suc: "sh (Suc n) = sh n + 9"
  by (simp add: sh_def)

lemma idx_lt [simp]: "idx n va < 512"
  by (simp add: idx_def)

lemma unat_slot:
  assumes "page_aligned p" and "i < 512"
  shows "unat (slot p i) = unat p + 8 * i"
proof -
  obtain k where "unat p = 4096 * k"
    using assms(1) by (auto simp: page_aligned_def)
  then have "unat p \<le> 18446744073709547520"
    using unat_lt_64 [of p] by simp
  moreover have "unat (of_nat i * 8 :: u64) = 8 * i"
    using unat_of_nat_64 [of "8 * i"] assms(2) by (simp add: mult.commute)
  ultimately show ?thesis
    using assms(2) by (simp add: slot_def unat_add_no_wrap)
qed

lemma unat_pg: "unat (pg a) = 4096 * (unat a div 4096)"
  by (simp add: pg_def unat_PAGE_MASK)

lemma page_aligned_pg [simp]: "page_aligned (pg a)"
  by (simp add: pg_def)

lemma pg_slot [simp]: "page_aligned p \<Longrightarrow> i < 512 \<Longrightarrow> pg (slot p i) = p"
  by (auto simp: word_unat_eq_iff unat_pg unat_slot page_aligned_def elim!: dvdE)

lemma aligned8_slot [simp]: "page_aligned p \<Longrightarrow> i < 512 \<Longrightarrow> aligned8 (slot p i)"
  unfolding aligned8_def page_aligned_def [of p]
  by (subst unat_slot) (auto simp: page_aligned_def mod_eq_0_iff_dvd dvd_trans [of 8 4096])

lemma slot_inj: "page_aligned p \<Longrightarrow> i < 512 \<Longrightarrow> j < 512 \<Longrightarrow> slot p i = slot p j \<longleftrightarrow> i = j"
  using unat_slot [of p i] unat_slot [of p j] by (auto simp: word_unat_eq_iff)

lemma slot_Suc: "slot p i + 8 = slot p (Suc i)"
  by (simp add: slot_def algebra_simps)

lemma PTE_ADDR_MASK_eq: "PTE_ADDR_MASK = push_bit 12 (mask 36)"
  by (simp add: PTE_ADDR_MASK_def PAGE_SHIFT_def mask_eq_exp_minus_1)

lemma bit_PTE_ADDR_MASK: "bit PTE_ADDR_MASK n \<longleftrightarrow> 12 \<le> n \<and> n < 48"
  by (auto simp: PTE_ADDR_MASK_eq bit_simps)

lemma page_aligned_bits: "page_aligned p \<longleftrightarrow> (\<forall>n < 12. \<not> bit p n)"
proof -
  have "page_aligned p \<longleftrightarrow> take_bit 12 p = 0"
    by (simp add: page_aligned_def word_unat_eq_iff unat_take_bit)
  also have "\<dots> \<longleftrightarrow> (\<forall>n < 12. \<not> bit p n)"
    by (auto simp: bit_eq_iff bit_simps)
  finally show ?thesis .
qed

lemma below_2p48_bits: "unat (p :: u64) < 2 ^ 48 \<Longrightarrow> bit p n \<Longrightarrow> n < 48"
proof -
  assume "unat p < 2 ^ 48" and b: "bit p n"
  then have "take_bit 48 p = p"
    by (simp add: word_unat_eq_iff unat_take_bit)
  with b show "n < 48"
    by (metis bit_take_bit_iff)
qed

lemma page_aligned_paddr [simp]: "page_aligned (paddr e)"
  by (auto simp: page_aligned_bits paddr_def bit_simps bit_PTE_ADDR_MASK)

lemma three_eq_mask: "(3 :: u64) = mask 2"
  by (simp add: mask_eq_exp_minus_1)

lemma paddr_table [simp]:
  assumes "page_aligned q" and "unat q < 2 ^ 48"
  shows "paddr (q OR 3) = q" and "(q OR 3) AND 3 = 3"
proof -
  have "12 \<le> n \<and> n < 48" if "bit q n" for n
    using assms that below_2p48_bits [OF assms(2)] by (auto simp: page_aligned_bits simp flip: not_less)
  then show "paddr (q OR 3) = q" and "(q OR 3) AND 3 = 3"
    unfolding three_eq_mask by (auto simp: bit_eq_iff bit_simps paddr_def bit_PTE_ADDR_MASK)
qed

section \<open>Trees are local\<close>

lemma ent_Suc:
  "ent (Suc n) w e F \<longleftrightarrow>
     e = 0 \<and> F = {} \<or> n = 0 \<and> e AND 3 = 1 \<and> F = {} \<or> e AND 3 = 3 \<and> tbl n w (paddr e) F"
  by (simp add: tbl_def)

declare ent.simps(2) [simp del]

lemma ent_zero [simp]: "ent n w 0 {}"
  by (cases n) (simp_all add: ent_Suc)

lemma look_zero [simp]: "look n w 0 va = None"
  by (cases n) simp_all

lemma tblE:
  assumes "tbl n w p F"
  obtains Fs where "F = insert p (\<Union>i<512. Fs i)"
    and "\<And>i. i < 512 \<Longrightarrow> p \<notin> Fs i" and "\<And>i. i < 512 \<Longrightarrow> ent n w (w (slot p i)) (Fs i)"
    and "\<And>i j. i < 512 \<Longrightarrow> j < 512 \<Longrightarrow> i \<noteq> j \<Longrightarrow> Fs i \<inter> Fs j = {}"
  using assms unfolding tbl_def by blast

lemma tblI:
  assumes "F = insert p (\<Union>i<512. Fs i)"
    and "\<And>i. i < 512 \<Longrightarrow> p \<notin> Fs i" and "\<And>i. i < 512 \<Longrightarrow> ent n w (w (slot p i)) (Fs i)"
    and "\<And>i j. i < 512 \<Longrightarrow> j < 512 \<Longrightarrow> i \<noteq> j \<Longrightarrow> Fs i \<inter> Fs j = {}"
  shows "tbl n w p F"
  using assms unfolding tbl_def by blast

lemma tbl_root [simp]: "tbl n w p F \<Longrightarrow> p \<in> F"
  by (auto simp: tbl_def)

lemma ent_cong:
  assumes "ent n w e F" and "\<And>a. aligned8 a \<Longrightarrow> pg a \<in> F \<Longrightarrow> w' a = w a"
  shows "ent n w' e F \<and> look n w' e va = look n w e va"
  using assms
proof (induction n arbitrary: e F)
  case 0
  then show ?case by simp
next
  case (Suc n)
  show ?case
  proof (cases "e AND 3 = 3 \<and> tbl n w (paddr e) F")
    case False
    with Suc.prems(1) show ?thesis
      by (auto simp: ent_Suc)
  next
    case True
    then obtain Fs where F: "F = insert (paddr e) (\<Union>i<512. Fs i)"
      and p: "\<And>i. i < 512 \<Longrightarrow> paddr e \<notin> Fs i"
      and en: "\<And>i. i < 512 \<Longrightarrow> ent n w (w (slot (paddr e) i)) (Fs i)"
      and dj: "\<And>i j. i < 512 \<Longrightarrow> j < 512 \<Longrightarrow> i \<noteq> j \<Longrightarrow> Fs i \<inter> Fs j = {}"
      by (auto elim: tblE)
    have sl: "w' (slot (paddr e) i) = w (slot (paddr e) i)" if "i < 512" for i
      using that F by (intro Suc.prems(2)) simp_all
    have sub: "ent n w' (w (slot (paddr e) i)) (Fs i) \<and>
        look n w' (w (slot (paddr e) i)) va = look n w (w (slot (paddr e) i)) va" if "i < 512" for i
      using that F by (intro Suc.IH en Suc.prems(2)) auto
    have "tbl n w' (paddr e) F"
      by (rule tblI [OF F p _ dj]) (simp_all add: sl sub)
    with True sub show ?thesis
      by (simp add: ent_Suc sl)
  qed
qed

lemma tbl_update:
  assumes p: "page_aligned p" and i: "i < 512"
    and F: "F = insert p (\<Union>i<512. Fs i)"
    and nin: "\<And>i. i < 512 \<Longrightarrow> p \<notin> Fs i"
    and en: "\<And>i. i < 512 \<Longrightarrow> ent n w (w (slot p i)) (Fs i)"
    and dj: "\<And>i j. i < 512 \<Longrightarrow> j < 512 \<Longrightarrow> i \<noteq> j \<Longrightarrow> Fs i \<inter> Fs j = {}"
    and new: "ent n w' (w' (slot p i)) G" and G: "G \<inter> (F - Fs i) = {}"
    and frame: "\<And>a. aligned8 a \<Longrightarrow> a \<noteq> slot p i \<Longrightarrow> pg a \<in> F - Fs i \<Longrightarrow> w' a = w a"
  shows "tbl n w' p ((F - Fs i) \<union> G)"
    and "\<And>j va. j < 512 \<Longrightarrow> j \<noteq> i \<Longrightarrow> look n w' (w' (slot p j)) va = look n w (w (slot p j)) va"
proof -
  have out: "Fs j \<subseteq> F - Fs i" if "j < 512" "j \<noteq> i" for j
    using dj [OF that(1) i that(2)] that F by auto
  have pin: "p \<in> F - Fs i"
    using nin [OF i] F by auto
  have sl: "w' (slot p j) = w (slot p j)" if "j < 512" "j \<noteq> i" for j
    using that p i pin by (intro frame) (simp_all add: slot_inj)
  have sub: "ent n w' (w (slot p j)) (Fs j) \<and> look n w' (w (slot p j)) va = look n w (w (slot p j)) va"
    if "j < 512" "j \<noteq> i" for j va
  proof (rule ent_cong [OF en])
    fix a assume "aligned8 a" "pg a \<in> Fs j"
    with that out nin p i show "w' a = w a"
      by (intro frame) auto
  qed (use that in simp)
  then show "look n w' (w' (slot p j)) va = look n w (w (slot p j)) va" if "j < 512" "j \<noteq> i" for j va
    using that by (simp add: sl)
  show "tbl n w' p ((F - Fs i) \<union> G)"
  proof (rule tblI [of _ _ "Fs(i := G)"])
    show "F - Fs i \<union> G = insert p (\<Union>j<512. (Fs(i := G)) j)"
      using i pin out F by (fastforce split: if_splits)
    show "p \<notin> (Fs(i := G)) j" if "j < 512" for j
      using that nin pin G by auto
    show "ent n w' (w' (slot p j)) ((Fs(i := G)) j)" if "j < 512" for j
      using that new sub [of j] by (cases "j = i") (auto simp: sl)
    show "(Fs(i := G)) j \<inter> (Fs(i := G)) k = {}" if "j < 512" "k < 512" "j \<noteq> k" for j k
      using that dj out G by (cases "j = i"; cases "k = i") (auto, blast+)
  qed
qed

lemma tbl_empty:
  assumes "\<And>i. i < 512 \<Longrightarrow> w (slot q i) = 0"
  shows "tbl n w q {q}" and "ltab n w q va = None"
  using assms by (auto intro!: tblI [of _ _ "\<lambda>_. {}"] simp: ltab_def)

end
