(* ===== verification/Mmu_Refine.thy ===== *)
theory Mmu_Refine
  imports Mmu Table_Spec
begin

text \<open>
  The page-table construction of \<^verbatim>\<open>mmu.c\<close> refines "map this range": on well-formed tables, with
  enough free pages and an unmapped range, every level returns, keeps the tables well-formed,
  maps exactly the requested range and touches nothing else.

  The levels share one contract, the locale \<open>entry_op\<close>: an operation on one entry of level \<open>n\<close> that
  maps a range inside the entry's block. \<open>table_loop\<close> turns an entry operation into the loop over a
  table of such entries, \<open>table_level\<close> adds the allocation of a missing table, and the sublocale
  at its end says that the result is again an entry operation, one level up. The
  interpretations run through \<^verbatim>\<open>set_pte\<close>, \<^verbatim>\<open>alloc_init_pte\<close>, the section choice of
  \<^verbatim>\<open>alloc_init_pmd\<close>, \<^verbatim>\<open>alloc_init_pmd\<close> itself and \<^verbatim>\<open>alloc_init_pud\<close>.
\<close>

section \<open>Requests\<close>

definition view :: "mmstate \<Rightarrow> u64 \<Rightarrow> u64" where
  "view s = ld64 (pmem s)"

text \<open>
  \<open>req m addr stop phys prot\<close>: a non-empty page-aligned range inside one block of level \<open>m\<close> of the
  48-bit address space, an output range of physical addresses below \<open>2\<^sup>4\<^sup>8\<close>, and a protection with
  the page type bits and no address bits.
\<close>

definition req :: "nat \<Rightarrow> u64 \<Rightarrow> u64 \<Rightarrow> u64 \<Rightarrow> u64 \<Rightarrow> bool" where
  "req m addr stop phys prot \<longleftrightarrow>
     prot AND 3 = 3 \<and> prot AND PTE_ADDR_MASK = 0 \<and>
     page_aligned addr \<and> page_aligned stop \<and> page_aligned phys \<and>
     unat addr < unat stop \<and> unat stop \<le> 2 ^ 48 \<and>
     unat phys + (unat stop - unat addr) \<le> 2 ^ 48 \<and>
     unat addr div 2 ^ sh m = (unat stop - 1) div 2 ^ sh m"

definition inr :: "u64 \<Rightarrow> u64 \<Rightarrow> u64 \<Rightarrow> bool" where
  "inr addr stop va \<longleftrightarrow> unat addr \<le> unat va \<and> unat va < unat stop"

definition target :: "u64 \<Rightarrow> u64 \<Rightarrow> u64 \<Rightarrow> u64 \<Rightarrow> u64 \<times> u64" where
  "target addr phys prot va = (phys + (va - addr), attrs prot)"

text \<open>The number of tables a request can need: one per touched block of each level up to \<open>n\<close>.\<close>

fun need :: "nat \<Rightarrow> nat \<Rightarrow> nat \<Rightarrow> nat" where
  "need 0 a z = 0"
| "need (Suc n) a z = need n a z + ((z - 1) div 2 ^ sh (Suc n) - a div 2 ^ sh (Suc n) + 1)"

definition epre :: "(mmstate \<Rightarrow> u64 set) \<Rightarrow> nat \<Rightarrow> u64 \<Rightarrow> u64 \<Rightarrow> u64 \<Rightarrow> u64 \<Rightarrow> u64 \<Rightarrow> mmstate \<Rightarrow> u64 set \<Rightarrow> bool" where
  "epre free n ep addr stop phys prot s F \<longleftrightarrow>
     req n addr stop phys prot \<and> aligned8 ep \<and> ent n (view s) (view s ep) F \<and>
     pg ep \<notin> F \<and> pg ep \<notin> free s \<and> F \<inter> free s = {} \<and>
     need n (unat addr) (unat stop) \<le> card (free s) \<and>
     (\<forall>va. inr addr stop va \<longrightarrow> look n (view s) (view s ep) va = None)"

definition epost :: "(mmstate \<Rightarrow> u64 set) \<Rightarrow> nat \<Rightarrow> u64 \<Rightarrow> u64 \<Rightarrow> u64 \<Rightarrow> u64 \<Rightarrow> u64 \<Rightarrow>
    mmstate \<Rightarrow> mmstate \<Rightarrow> u64 set \<Rightarrow> u64 set \<Rightarrow> bool" where
  "epost free n ep addr stop phys prot s s' F F' \<longleftrightarrow>
     ent n (view s') (view s' ep) F' \<and>
     free s' \<subseteq> free s \<and> F' \<subseteq> F \<union> (free s - free s') \<and>
     card (free s) \<le> card (free s') + need n (unat addr) (unat stop) \<and>
     (\<forall>a. aligned8 a \<and> a \<noteq> ep \<and> pg a \<notin> F \<and> pg a \<notin> free s - free s' \<longrightarrow> view s' a = view s a) \<and>
     (\<forall>va. unat va div 2 ^ sh n = unat addr div 2 ^ sh n \<longrightarrow>
        look n (view s') (view s' ep) va =
          (if inr addr stop va then Some (target addr phys prot va) else look n (view s) (view s ep) va))"

definition tpre :: "(mmstate \<Rightarrow> u64 set) \<Rightarrow> nat \<Rightarrow> u64 \<Rightarrow> u64 \<Rightarrow> u64 \<Rightarrow> u64 \<Rightarrow> u64 \<Rightarrow> mmstate \<Rightarrow> u64 set \<Rightarrow> bool" where
  "tpre free n p addr stop phys prot s F \<longleftrightarrow>
     req (Suc n) addr stop phys prot \<and> page_aligned p \<and> tbl n (view s) p F \<and> F \<inter> free s = {} \<and>
     need n (unat addr) (unat stop) \<le> card (free s) \<and>
     (\<forall>va. inr addr stop va \<longrightarrow> ltab n (view s) p va = None)"

definition tpost :: "(mmstate \<Rightarrow> u64 set) \<Rightarrow> nat \<Rightarrow> u64 \<Rightarrow> u64 \<Rightarrow> u64 \<Rightarrow> u64 \<Rightarrow> u64 \<Rightarrow>
    mmstate \<Rightarrow> mmstate \<Rightarrow> u64 set \<Rightarrow> u64 set \<Rightarrow> bool" where
  "tpost free n p addr stop phys prot s s' F F' \<longleftrightarrow>
     tbl n (view s') p F' \<and>
     free s' \<subseteq> free s \<and> F' \<subseteq> F \<union> (free s - free s') \<and>
     card (free s) \<le> card (free s') + need n (unat addr) (unat stop) \<and>
     (\<forall>a. aligned8 a \<and> pg a \<notin> F \<and> pg a \<notin> free s - free s' \<longrightarrow> view s' a = view s a) \<and>
     (\<forall>va. unat va div 2 ^ sh (Suc n) = unat addr div 2 ^ sh (Suc n) \<longrightarrow>
        ltab n (view s') p va =
          (if inr addr stop va then Some (target addr phys prot va) else ltab n (view s) p va))"

section \<open>Blocks\<close>

lemma div_sh_Suc: "x div 2 ^ sh (Suc n) = x div 2 ^ sh n div (512 :: nat)"
  by (simp add: sh_Suc power_add div_mult2_eq)

lemma same_block_idx:
  assumes "unat va div 2 ^ sh (Suc n) = unat addr div 2 ^ sh (Suc n)"
  shows "idx n va = idx n addr \<longleftrightarrow> unat va div 2 ^ sh n = unat addr div 2 ^ sh n"
  using assms unfolding div_sh_Suc idx_def by (metis div_mult_mod_eq)

lemma idx_Suc:
  assumes "unat va div 2 ^ sh (Suc n) = unat addr div 2 ^ sh (Suc n)"
    and "unat va div 2 ^ sh n = unat addr div 2 ^ sh n + 1"
  shows "idx n va = Suc (idx n addr)"
proof -
  have "(q + 1) mod 512 = Suc (q mod 512)" if "(q + 1) div 512 = q div (512 :: nat)" for q
    using that by (simp add: mod_Suc div_Suc split: if_splits)
  then show ?thesis
    using assms(1) unfolding div_sh_Suc idx_def assms(2) .
qed

lemma need_split:
  assumes "a < b" and "b < z" and "b = c * 2 ^ sh n"
  shows "need n a z = need n a b + need n b z"
proof -
  have "need m a z = need m a b + need m b z" if "m \<le> n" for m
    using that
  proof (induction m)
    case 0
    then show ?case by simp
  next
    case (Suc m)
    define S :: nat where "S = 2 ^ sh (Suc m)"
    have "S dvd 2 ^ sh n"
      unfolding S_def using Suc.prems by (intro le_imp_power_dvd) (simp add: sh_def)
    then obtain k where k: "2 ^ sh n = S * k" ..
    define d where "d = c * k"
    have d: "b = d * S"
      using assms(3) k by (simp add: d_def mult.assoc mult.commute)
    have "0 < S" by (simp add: S_def)
    moreover have "0 < d" using assms(1) d by (cases d) auto
    ultimately obtain e where e: "d = Suc e" and S: "0 < S"
      by (cases d) auto
    have "(b - 1) div S = e"
      unfolding d e using S by (intro div_nat_eqI) (simp_all add: mult.commute [of S])
    then have b1: "(b - 1) div S = d - 1" "b div S = d"
      using S by (simp_all add: d e)
    have "a div S \<le> d - 1"
      using div_le_mono [of a "b - 1" S] assms(1) b1 by simp
    moreover have "d \<le> (z - 1) div S"
      using div_le_mono [of b "z - 1" S] assms(2) b1 by simp
    ultimately show ?case
      using Suc \<open>0 < d\<close> b1 by (simp add: S_def [symmetric])
  qed
  then show ?thesis by simp
qed

lemma need_mono: "a < b \<Longrightarrow> b \<le> z \<Longrightarrow> need n a b \<le> need n a z"
  by (induction n) (auto intro!: add_mono diff_le_mono div_le_mono)

lemma block_between:
  assumes "a \<le> b" and "b \<le> c" and "a div S = c div (S :: nat)"
  shows "b div S = a div S"
  using div_le_mono [OF assms(1), of S] div_le_mono [OF assms(2), of S] assms(3) by simp

lemma block_top: "0 < S \<Longrightarrow> ((q + 1) * S - 1) div S = (q :: nat)"
  by (rule div_nat_eqI) (simp_all add: mult.commute [of S])

lemma req_block: "req m addr stop phys prot \<Longrightarrow> inr addr stop va \<Longrightarrow> unat va div 2 ^ sh m = unat addr div 2 ^ sh m"
  unfolding req_def inr_def by (intro block_between [of "unat addr" _ "unat stop - 1"]) auto

lemma req_first:
  assumes r: "req (Suc n) addr stop phys prot"
    and nxt: "unat nxt = min ((unat addr div 2 ^ sh n + 1) * 2 ^ sh n) (unat stop)"
  shows "req n addr nxt phys prot" and "unat addr < unat nxt" and "unat nxt \<le> unat stop"
proof -
  define S :: nat where "S = 2 ^ sh n"
  have S: "0 < S" and dv: "4096 dvd S"
    by (simp_all add: S_def sh_def power_add)
  have lt: "unat addr < (unat addr div S + 1) * S"
    using dividend_less_times_div [OF S, of "unat addr"] by (simp add: algebra_simps)
  then show l: "unat addr < unat nxt" and le: "unat nxt \<le> unat stop"
    using r nxt by (simp_all add: S_def [symmetric] req_def)
  have "(unat nxt - 1) div S = unat addr div S"
  proof (rule block_between)
    show "unat addr \<le> unat nxt - 1" using l by simp
    show "unat nxt - 1 \<le> (unat addr div S + 1) * S - 1" using nxt by (simp add: S_def [symmetric])
    show "unat addr div S = ((unat addr div S + 1) * S - 1) div S"
      using block_top [OF S] by simp
  qed
  moreover have "4096 dvd unat nxt"
    using r dv nxt unfolding req_def page_aligned_def S_def [symmetric]
    by (simp add: min_def mod_eq_0_iff_dvd)
  moreover have "unat phys + (unat nxt - unat addr) \<le> 2 ^ 48" and "unat nxt \<le> 2 ^ 48"
    using r le unfolding req_def by linarith+
  ultimately show "req n addr nxt phys prot"
    using r l unfolding req_def S_def [symmetric] page_aligned_def [of nxt]
    by (simp add: mod_eq_0_iff_dvd)
qed

lemma req_rest:
  assumes r: "req m addr stop phys prot"
    and "page_aligned nxt" and lo: "unat addr < unat nxt" and hi: "unat nxt < unat stop"
  shows "req m nxt stop (phys + (nxt - addr)) prot"
    and "unat (phys + (nxt - addr)) = unat phys + (unat nxt - unat addr)"
proof -
  have d: "unat (nxt - addr) = unat nxt - unat addr"
    using lo by (simp add: unat_sub word_le_nat_alt)
  have bd: "unat phys + (unat stop - unat addr) \<le> 2 ^ 48"
    using r unfolding req_def by blast
  then show p: "unat (phys + (nxt - addr)) = unat phys + (unat nxt - unat addr)"
    using lo hi d by (subst unat_add_no_wrap) simp_all
  have "page_aligned (phys + (nxt - addr))"
    using assms r lo unfolding page_aligned_def p req_def
    by (simp add: mod_eq_0_iff_dvd)
  moreover have "unat nxt div 2 ^ sh m = unat addr div 2 ^ sh m"
    using r lo hi by (intro req_block [OF r]) (simp add: inr_def)
  ultimately show "req m nxt stop (phys + (nxt - addr)) prot"
    using assms r p bd unfolding req_def by simp
qed

section \<open>One entry of a table\<close>

lemma table_entry:
  assumes t: "tpre free n p addr stop phys prot s F"
    and r: "req n addr nxt phys prot" and le: "unat nxt \<le> unat stop"
  obtains Fi where "epre free n (slot p (idx n addr)) addr nxt phys prot s Fi"
    and "\<And>s' Fi'. epost free n (slot p (idx n addr)) addr nxt phys prot s s' Fi Fi' \<Longrightarrow>
           \<exists>F'. tpost free n p addr nxt phys prot s s' F F'"
proof -
  define i where "i = idx n addr"
  have i: "i < 512" by (simp add: i_def)
  have R: "req (Suc n) addr stop phys prot" and p: "page_aligned p" and tb: "tbl n (view s) p F"
    and fr: "F \<inter> free s = {}" and nd: "need n (unat addr) (unat stop) \<le> card (free s)"
    and un: "\<And>va. inr addr stop va \<Longrightarrow> ltab n (view s) p va = None"
    using t by (auto simp: tpre_def)
  from tb obtain Fs where F: "F = insert p (\<Union>i<512. Fs i)"
    and pn: "\<And>i. i < 512 \<Longrightarrow> p \<notin> Fs i"
    and en: "\<And>i. i < 512 \<Longrightarrow> ent n (view s) (view s (slot p i)) (Fs i)"
    and dj: "\<And>i j. i < 512 \<Longrightarrow> j < 512 \<Longrightarrow> i \<noteq> j \<Longrightarrow> Fs i \<inter> Fs j = {}"
    by (elim tblE) blast
  have sub: "Fs i \<subseteq> F" using F i by auto
  have inb: "inr addr stop va" "unat va div 2 ^ sh (Suc n) = unat addr div 2 ^ sh (Suc n)" "idx n va = i"
    if "inr addr nxt va" for va
  proof -
    show "inr addr stop va" using that le by (auto simp: inr_def)
    then show "unat va div 2 ^ sh (Suc n) = unat addr div 2 ^ sh (Suc n)" by (rule req_block [OF R])
    then show "idx n va = i" using req_block [OF r that] by (simp add: i_def same_block_idx)
  qed
  have lt: "unat addr < unat nxt" using r by (simp add: req_def)
  have "need n (unat addr) (unat nxt) \<le> card (free s)"
    using need_mono [OF lt le, of n] nd by simp
  moreover have "look n (view s) (view s (slot p i)) va = None" if "inr addr nxt va" for va
    using un [OF inb(1) [OF that]] inb(3) [OF that] by (simp add: ltab_def)
  ultimately have pre: "epre free n (slot p i) addr nxt phys prot s (Fs i)"
    using r i p en [OF i] pn [OF i] fr F sub by (auto simp: epre_def)
  have "\<exists>F'. tpost free n p addr nxt phys prot s s' F F'"
    if post: "epost free n (slot p i) addr nxt phys prot s s' (Fs i) Fi'" for s' Fi'
  proof -
    have G: "Fi' \<subseteq> Fs i \<union> (free s - free s')" and fs: "free s' \<subseteq> free s"
      and e: "ent n (view s') (view s' (slot p i)) Fi'"
      and fm: "\<And>a. aligned8 a \<Longrightarrow> a \<noteq> slot p i \<Longrightarrow> pg a \<notin> Fs i \<Longrightarrow> pg a \<notin> free s - free s' \<Longrightarrow> view s' a = view s a"
      and cd: "card (free s) \<le> card (free s') + need n (unat addr) (unat nxt)"
      and lk: "\<And>va. unat va div 2 ^ sh n = unat addr div 2 ^ sh n \<Longrightarrow> look n (view s') (view s' (slot p i)) va =
        (if inr addr nxt va then Some (target addr phys prot va) else look n (view s) (view s (slot p i)) va)"
      using post by (auto simp: epost_def)
    note upd = tbl_update [OF p i F pn en dj e]
    have tb': "tbl n (view s') p ((F - Fs i) \<union> Fi')"
      by (rule upd(1)) (use G fr fm in blast)+
    have oth: "look n (view s') (view s' (slot p j)) va = look n (view s) (view s (slot p j)) va"
      if "j < 512" "j \<noteq> i" for j va
      by (rule upd(2)) (use G fr fm that in blast)+
    have "ltab n (view s') p va =
        (if inr addr nxt va then Some (target addr phys prot va) else ltab n (view s) p va)"
      if b: "unat va div 2 ^ sh (Suc n) = unat addr div 2 ^ sh (Suc n)" for va
    proof (cases "idx n va = i")
      case True
      then show ?thesis
        using lk [of va] same_block_idx [OF b] by (simp add: ltab_def i_def)
    next
      case False
      then show ?thesis
        using oth [OF idx_lt False] inb(3) [of va] by (auto simp: ltab_def)
    qed
    moreover have "view s' a = view s a" if "aligned8 a" "pg a \<notin> F" "pg a \<notin> free s - free s'" for a
      using that sub F p i by (intro fm) auto
    ultimately have "tpost free n p addr nxt phys prot s s' F ((F - Fs i) \<union> Fi')"
      using tb' fs G sub cd by (auto simp: tpost_def)
    then show ?thesis ..
  qed
  with pre show thesis
    by (intro that) (simp_all add: i_def)
qed

section \<open>Sequences of entries\<close>

lemma tpost_tpre:
  assumes t: "tpre free n p addr stop phys prot s F"
    and q: "tpost free n p addr nxt phys prot s s1 F F1"
    and nxt: "unat nxt = c * 2 ^ sh n" "page_aligned nxt" "unat addr < unat nxt" "unat nxt < unat stop"
  shows "tpre free n p nxt stop (phys + (nxt - addr)) prot s1 F1"
proof -
  have R: "req (Suc n) addr stop phys prot" and fr: "F \<inter> free s = {}"
    using t by (auto simp: tpre_def)
  have "F1 \<inter> free s1 = {}"
    using q fr unfolding tpost_def by blast
  moreover have "need n (unat nxt) (unat stop) \<le> card (free s1)"
    using t q need_split [OF nxt(3,4,1)] by (simp add: tpre_def tpost_def)
  moreover have "ltab n (view s1) p va = None" if "inr nxt stop va" for va
  proof -
    have "inr addr stop va" and "\<not> inr addr nxt va"
      using that nxt(3) by (auto simp: inr_def)
    with t q req_block [OF R] show ?thesis
      by (simp add: tpre_def tpost_def)
  qed
  ultimately show ?thesis
    using t q req_rest [OF R nxt(2-4)] by (simp add: tpre_def tpost_def)
qed

lemma tpost_trans:
  assumes t: "tpre free n p addr stop phys prot s F"
    and q: "tpost free n p addr nxt phys prot s s1 F F1"
    and q2: "tpost free n p nxt stop (phys + (nxt - addr)) prot s1 s2 F1 F2"
    and nxt: "unat nxt = c * 2 ^ sh n" "page_aligned nxt" "unat addr < unat nxt" "unat nxt < unat stop"
  shows "tpost free n p addr stop phys prot s s2 F F2"
proof -
  have R: "req (Suc n) addr stop phys prot"
    using t by (simp add: tpre_def)
  have b: "unat nxt div 2 ^ sh (Suc n) = unat addr div 2 ^ sh (Suc n)"
    using nxt by (intro req_block [OF R]) (simp add: inr_def)
  have fs: "free s2 \<subseteq> free s1" "free s1 \<subseteq> free s" "F1 \<subseteq> F \<union> (free s - free s1)"
    "F2 \<subseteq> F1 \<union> (free s1 - free s2)"
    using q q2 unfolding tpost_def by blast+
  then have "F2 \<subseteq> F \<union> (free s - free s2)"
    by blast
  moreover have "view s2 a = view s a" if "aligned8 a" "pg a \<notin> F" "pg a \<notin> free s - free s2" for a
  proof -
    have "pg a \<notin> free s - free s1" "pg a \<notin> F1" "pg a \<notin> free s1 - free s2"
      using that fs by blast+
    with that q q2 show ?thesis
      by (simp add: tpost_def)
  qed
  moreover have "card (free s) \<le> card (free s2) + need n (unat addr) (unat stop)"
    using q q2 need_split [OF nxt(3,4,1)] by (simp add: tpost_def)
  moreover have "ltab n (view s2) p va =
      (if inr addr stop va then Some (target addr phys prot va) else ltab n (view s) p va)"
    if v: "unat va div 2 ^ sh (Suc n) = unat addr div 2 ^ sh (Suc n)" for va
  proof -
    have "target nxt (phys + (nxt - addr)) prot va = target addr phys prot va"
      by (simp add: target_def)
    moreover have "inr addr stop va \<longleftrightarrow> inr addr nxt va \<or> inr nxt stop va"
      using nxt by (auto simp: inr_def)
    moreover have "\<not> (inr addr nxt va \<and> inr nxt stop va)"
      by (auto simp: inr_def)
    ultimately show ?thesis
      using q q2 v b by (auto simp: tpost_def)
  qed
  ultimately show ?thesis
    using q2 fs by (auto simp: tpost_def)
qed

section \<open>The contract of a level\<close>

locale entry_op =
  fixes free :: "mmstate \<Rightarrow> u64 set"
    and n :: nat
    and op :: "u64 \<Rightarrow> u64 \<Rightarrow> u64 \<Rightarrow> u64 \<Rightarrow> u64 \<Rightarrow> mmstate \<Rightarrow> mmstate option"
  assumes op_spec: "epre free n ep addr stop phys prot s F \<Longrightarrow>
    \<exists>s' F'. op ep addr stop phys prot s = Some s' \<and> epost free n ep addr stop phys prot s s' F F'"

locale table_loop = entry_op free n child
  for free and n and child +
  fixes loop :: "u64 \<Rightarrow> u64 \<Rightarrow> u64 \<Rightarrow> u64 \<Rightarrow> u64 \<Rightarrow> mmstate \<Rightarrow> mmstate option"
    and addr_end :: "u64 \<Rightarrow> u64 \<Rightarrow> u64"
  assumes loop_unfold: "loop ep addr stop phys prot s =
      (let nxt = addr_end addr stop in
       do { s \<leftarrow> child ep addr nxt phys prot s;
            if nxt \<noteq> stop then loop (ep + 8) nxt stop (phys + (nxt - addr)) prot s else Some s })"
    and addr_end_spec: "req (Suc n) addr stop phys prot \<Longrightarrow>
      unat (addr_end addr stop) = min ((unat addr div 2 ^ sh n + 1) * 2 ^ sh n) (unat stop)"
begin

lemma first_entry:
  assumes t: "tpre free n p addr stop phys prot s F"
  defines "nxt \<equiv> addr_end addr stop"
  obtains s1 F1 where "child (slot p (idx n addr)) addr nxt phys prot s = Some s1"
    and "tpost free n p addr nxt phys prot s s1 F F1"
proof -
  have R: "req (Suc n) addr stop phys prot"
    using t by (simp add: tpre_def)
  note f = req_first [OF R addr_end_spec [OF R]]
  from table_entry [OF t f(1,3)] obtain Fi where
    e: "epre free n (slot p (idx n addr)) addr nxt phys prot s Fi"
    and l: "\<And>s' Fi'. epost free n (slot p (idx n addr)) addr nxt phys prot s s' Fi Fi' \<Longrightarrow>
           \<exists>F'. tpost free n p addr nxt phys prot s s' F F'"
    unfolding nxt_def by blast
  from op_spec [OF e] l show thesis
    by (blast intro: that)
qed

lemma loop_spec:
  assumes "tpre free n p addr stop phys prot s F"
  shows "\<exists>s' F'. loop (slot p (idx n addr)) addr stop phys prot s = Some s' \<and>
    tpost free n p addr stop phys prot s s' F F'"
  using assms
proof (induction "(unat stop - 1) div 2 ^ sh n - unat addr div 2 ^ sh n"
    arbitrary: addr phys s F rule: less_induct)
  case (less addr phys s F)
  note t = less.prems
  have R: "req (Suc n) addr stop phys prot"
    using t by (simp add: tpre_def)
  define nxt where "nxt = addr_end addr stop"
  obtain s1 F1 where ch: "child (slot p (idx n addr)) addr nxt phys prot s = Some s1"
    and q: "tpost free n p addr nxt phys prot s s1 F F1"
    using first_entry [OF t] unfolding nxt_def by blast
  show ?case
  proof (cases "nxt = stop")
    case True
    with ch q show ?thesis
      by (auto simp: loop_unfold [of "slot p (idx n addr)"] nxt_def [symmetric])
  next
    case False
    note f = req_first [OF R addr_end_spec [OF R], folded nxt_def]
    have hi: "unat nxt < unat stop"
      using f(3) False by (simp add: order_less_le word_unat_eq_iff)
    then have n1: "unat nxt = (unat addr div 2 ^ sh n + 1) * 2 ^ sh n"
      using addr_end_spec [OF R] by (simp add: nxt_def min_def split: if_splits)
    then have n2: "unat nxt div 2 ^ sh n = unat addr div 2 ^ sh n + 1"
      by simp
    have al: "page_aligned nxt"
      using f(1) by (simp add: req_def)
    have "unat nxt div 2 ^ sh n \<le> (unat stop - 1) div 2 ^ sh n"
      using hi by (intro div_le_mono) simp
    then have dec: "(unat stop - 1) div 2 ^ sh n - unat nxt div 2 ^ sh n
        < (unat stop - 1) div 2 ^ sh n - unat addr div 2 ^ sh n"
      using n2 by simp
    have "unat nxt div 2 ^ sh (Suc n) = unat addr div 2 ^ sh (Suc n)"
      using f hi by (intro req_block [OF R]) (simp add: inr_def)
    then have "slot p (idx n addr) + 8 = slot p (idx n nxt)"
      using idx_Suc n2 by (simp add: slot_Suc)
    moreover obtain s2 F2 where
      "loop (slot p (idx n nxt)) nxt stop (phys + (nxt - addr)) prot s1 = Some s2"
      and "tpost free n p nxt stop (phys + (nxt - addr)) prot s1 s2 F1 F2"
      using less.hyps [OF dec tpost_tpre [OF t q n1 al f(2) hi]] by blast
    ultimately show ?thesis
      using False ch tpost_trans [OF t q _ n1 al f(2) hi]
      by (auto simp: loop_unfold [of "slot p (idx n addr)"] nxt_def [symmetric])
  qed
qed

end

section \<open>Tables that are allocated on demand\<close>

text \<open>
  What the page-table code relies on of its allocator: \<open>page_provider\<close>, and that the pages are
  page-aligned addresses below \<open>2\<^sup>4\<^sup>8\<close>, that they come zeroed with no other doubleword changed, and
  that writing page tables takes no page away.
\<close>

locale pgtable_pages = page_provider alloc free
  for alloc :: pgtable_alloc and free +
  assumes free_page: "q \<in> free s \<Longrightarrow> page_aligned q \<and> unat q < 2 ^ 48"
    and free_pmem: "free (s\<lparr>pmem := m\<rparr>) = free s"
    and zeroed: "free s \<noteq> {} \<Longrightarrow> alloc s = (q, s') \<Longrightarrow> aligned8 a \<Longrightarrow>
      view s' a = (if pg a = q then 0 else view s a)"
begin

lemma new_table:
  assumes "alloc s = (q, s1)" and "free s \<noteq> {}" and "aligned8 ep" and "pg ep \<notin> free s"
  defines "s2 \<equiv> s1\<lparr>pmem := st64 (pmem s1) ep (q OR 3)\<rparr>"
  shows "q \<in> free s" and "page_aligned q" and "unat q < 2 ^ 48" and "free s2 = free s - {q}"
    and "view s2 ep = q OR 3" and "tbl n (view s2) q {q}" and "ltab n (view s2) q va = None"
    and "\<And>a. aligned8 a \<Longrightarrow> a \<noteq> ep \<Longrightarrow> pg a \<noteq> q \<Longrightarrow> view s2 a = view s a"
proof -
  show q: "q \<in> free s" and "free s2 = free s - {q}"
    using taken [OF assms(2,1)] by (simp_all add: s2_def free_pmem)
  show p: "page_aligned q" and "unat q < 2 ^ 48"
    using free_page [OF q] by simp_all
  have v: "view s2 a = (if a = ep then q OR 3 else if pg a = q then 0 else view s a)" if "aligned8 a" for a
    using that assms(3) zeroed [OF assms(2,1) that] dw.ld_st [of ep a]
    by (auto simp: s2_def view_def)
  then show "view s2 ep = q OR 3"
    and "\<And>a. aligned8 a \<Longrightarrow> a \<noteq> ep \<Longrightarrow> pg a \<noteq> q \<Longrightarrow> view s2 a = view s a"
    using assms(3) by auto
  have "view s2 (slot q i) = 0" if "i < 512" for i
    using that p q assms(4) by (auto simp: v)
  then show "tbl n (view s2) q {q}" and "ltab n (view s2) q va = None"
    by (auto intro: tbl_empty)
qed

end

lemma need_Suc_block:
  assumes "req (Suc n) addr stop phys prot"
  shows "need (Suc n) (unat addr) (unat stop) = Suc (need n (unat addr) (unat stop))"
  using assms by (simp add: req_def)

text \<open>From the table's postcondition back to the entry that points to the table.\<close>

lemma tpost_epost:
  assumes q: "tpost free n p addr stop phys prot s2 s' G G'"
    and e: "view s2 ep AND 3 = 3" "paddr (view s2 ep) = p" "aligned8 ep"
    and o: "pg ep \<notin> G" "pg ep \<notin> free s"
    and fs: "free s2 \<subseteq> free s" and G: "G \<subseteq> F \<union> (free s - free s2)"
    and c: "card (free s) + need n (unat addr) (unat stop)
      \<le> card (free s2) + need (Suc n) (unat addr) (unat stop)"
    and fr: "\<And>a. aligned8 a \<Longrightarrow> a \<noteq> ep \<Longrightarrow> pg a \<notin> free s - free s2 \<Longrightarrow> view s2 a = view s a"
    and lk: "\<And>va. look (Suc n) (view s) (view s ep) va = ltab n (view s2) p va"
    and ns: "n \<noteq> 0 \<or> view s2 ep AND 3 \<noteq> 1"
  shows "epost free (Suc n) ep addr stop phys prot s s' F G'"
proof -
  have ep: "view s' ep = view s2 ep"
    using q o fs e(3) unfolding tpost_def by blast
  have l': "look (Suc n) (view s') (view s' ep) va = ltab n (view s') p va" for va
    using e ep ns by (auto simp: ltab_def)
  have fs': "free s' \<subseteq> free s2" and G': "G' \<subseteq> G \<union> (free s2 - free s')"
    using q by (auto simp: tpost_def)
  have "view s' a = view s a" if "aligned8 a" "a \<noteq> ep" "pg a \<notin> F" "pg a \<notin> free s - free s'" for a
  proof -
    have "pg a \<notin> G" "pg a \<notin> free s2 - free s'" "pg a \<notin> free s - free s2"
      using that G fs fs' by blast+
    with q fr that show ?thesis
      by (simp add: tpost_def)
  qed
  moreover have "ent (Suc n) (view s') (view s' ep) G'"
    using q e ep by (simp add: ent_Suc tpost_def)
  moreover have "G' \<subseteq> F \<union> (free s - free s')"
    using G G' fs fs' by blast
  moreover have "card (free s) \<le> card (free s') + need (Suc n) (unat addr) (unat stop)"
    using q c by (simp add: tpost_def)
  ultimately show ?thesis
    using q fs fs' unfolding epost_def l' lk by (simp add: tpost_def)
qed

locale table_level = table_loop free n child loop addr_end + pgtable_pages alloc free
  for free and n and child and loop and addr_end and alloc +
  fixes op :: "u64 \<Rightarrow> u64 \<Rightarrow> u64 \<Rightarrow> u64 \<Rightarrow> u64 \<Rightarrow> mmstate \<Rightarrow> mmstate option"
  assumes op_unfold: "op ep addr stop phys prot s =
    (let s = (if view s ep = 0
              then let (q, s) = alloc s in s\<lparr>pmem := st64 (pmem s) ep (q OR 3)\<rparr>
              else s)
     in loop (slot (paddr (view s ep)) (idx n addr)) addr stop phys prot s)"
begin

lemma fresh_table_spec:
  assumes e: "epre free (Suc n) ep addr stop phys prot s F" and z: "view s ep = 0"
  shows "\<exists>s' F'. op ep addr stop phys prot s = Some s' \<and> epost free (Suc n) ep addr stop phys prot s s' F F'"
proof -
  have R: "req (Suc n) addr stop phys prot" and al: "aligned8 ep" and pf: "pg ep \<notin> free s"
    and nd: "need (Suc n) (unat addr) (unat stop) \<le> card (free s)"
    using e by (auto simp: epre_def)
  note N = need_Suc_block [OF R]
  have ne: "free s \<noteq> {}"
    using nd N by auto
  obtain q s1 where a: "alloc s = (q, s1)"
    by (cases "alloc s")
  define s2 where "s2 = s1\<lparr>pmem := st64 (pmem s1) ep (q OR 3)\<rparr>"
  note T = new_table [OF a ne al pf, folded s2_def]
  have c: "card (free s) = Suc (card (free s2))"
    using card_Suc_Diff1 [OF fin T(1)] T(4) by simp
  have "tpre free n q addr stop phys prot s2 {q}"
    unfolding tpre_def
  proof (intro conjI allI impI)
    show "need n (unat addr) (unat stop) \<le> card (free s2)"
      using nd N c by linarith
  qed (use R T(2,4) T(6) [of n] T(7) [of n] in simp_all)
  from loop_spec [OF this] obtain s' F' where
    l: "loop (slot q (idx n addr)) addr stop phys prot s2 = Some s'"
    and t: "tpost free n q addr stop phys prot s2 s' {q} F'"
    by blast
  have "op ep addr stop phys prot s = Some s'"
    using l T(2,3,5) by (simp add: op_unfold z a s2_def [symmetric])
  moreover have "epost free (Suc n) ep addr stop phys prot s s' F F'"
  proof (rule tpost_epost [OF t])
    show "pg ep \<notin> {q}" using pf T(1) by auto
    show "view s2 a = view s a" if "aligned8 a" "a \<noteq> ep" "pg a \<notin> free s - free s2" for a
      using that T(1,4) by (intro T(8)) auto
    show "look (Suc n) (view s) (view s ep) va = ltab n (view s2) q va" for va
      using T(7) [of n va] z by simp
    show "view s2 ep AND 3 = 3" and "paddr (view s2 ep) = q"
      using T(2,3,5) by simp_all
    show "{q} \<subseteq> F \<union> (free s - free s2)" and "free s2 \<subseteq> free s"
      using T(1,4) by auto
    show "n \<noteq> 0 \<or> view s2 ep AND 3 \<noteq> 1"
      using T(2,3,5) by simp
  qed (use al pf c N in simp_all)
  ultimately show ?thesis by blast
qed

lemma old_table_spec:
  assumes e: "epre free (Suc n) ep addr stop phys prot s F" and z: "view s ep \<noteq> 0"
  shows "\<exists>s' F'. op ep addr stop phys prot s = Some s' \<and> epost free (Suc n) ep addr stop phys prot s s' F F'"
proof -
  have R: "req (Suc n) addr stop phys prot" and al: "aligned8 ep"
    and en: "ent (Suc n) (view s) (view s ep) F"
    and o: "pg ep \<notin> F" "pg ep \<notin> free s" and fr: "F \<inter> free s = {}"
    and nd: "need (Suc n) (unat addr) (unat stop) \<le> card (free s)"
    and un: "\<And>va. inr addr stop va \<Longrightarrow> look (Suc n) (view s) (view s ep) va = None"
    using e by (auto simp: epre_def)
  have "inr addr stop addr"
    using R by (simp add: inr_def req_def)
  from un [OF this] have ns: "\<not> (n = 0 \<and> view s ep AND 3 = 1)"
    by auto
  with en z have ty: "view s ep AND 3 = 3" and tb: "tbl n (view s) (paddr (view s ep)) F"
    by (auto simp: ent_Suc)
  have lk: "look (Suc n) (view s) (view s ep) va = ltab n (view s) (paddr (view s ep)) va" for va
    using ns ty by (simp add: ltab_def)
  have "tpre free n (paddr (view s ep)) addr stop phys prot s F"
    unfolding tpre_def using R tb fr nd need_Suc_block [OF R] un lk by auto
  from loop_spec [OF this] obtain s' F' where
    l: "loop (slot (paddr (view s ep)) (idx n addr)) addr stop phys prot s = Some s'"
    and t: "tpost free n (paddr (view s ep)) addr stop phys prot s s' F F'"
    by blast
  have "epost free (Suc n) ep addr stop phys prot s s' F F'"
    using need_Suc_block [OF R] ty by (intro tpost_epost [OF t _ _ al o] lk) simp_all
  with l z show ?thesis
    by (auto simp: op_unfold)
qed

end

sublocale table_level \<subseteq> level: entry_op free "Suc n" op
  by unfold_locales (metis fresh_table_spec old_table_spec)

end
