(* ===== verification/Mmu_Levels.thy ===== *)
theory Mmu_Levels
  imports Mmu_Refine
begin

text \<open>
  The functions of \<^verbatim>\<open>mmu.c\<close> as instances of the contracts of \<open>Mmu_Refine\<close>: a page descriptor and a
  section descriptor are entry operations; \<^verbatim>\<open>alloc_init_pte\<close>, \<^verbatim>\<open>alloc_init_pmd\<close> and
  \<^verbatim>\<open>alloc_init_pud\<close> are table levels over the level below, for every allocator that meets
  \<open>pgtable_pages\<close>; \<^verbatim>\<open>early_pgtable_alloc\<close> meets it.
\<close>

section \<open>Indices and boundaries\<close>

lemma unat_2p: "k < 64 \<Longrightarrow> unat (2 ^ k :: u64) = 2 ^ k"
  using unat_of_nat_64 [of "2 ^ k"] power_strict_increasing_iff [of "2 :: nat" k 64] by simp

lemma of_nat_unat_64: "of_nat (unat (x :: u64)) = x"
  by (simp add: word_unat_eq_iff unat_of_nat_64)

lemma index_idx: "(drop_bit (sh n) addr AND 511) = (of_nat (idx n addr) :: u64)"
proof -
  have "unat (drop_bit (sh n) addr AND mask 9) = idx n addr"
    by (simp only: unat_and_mask unat_drop_bit idx_def) simp
  moreover have "(511 :: u64) = mask 9"
    by (simp add: mask_eq_exp_minus_1)
  ultimately show ?thesis
    by (metis of_nat_unat_64)
qed

lemma boundary_end:
  assumes r: "req (Suc n) addr stop phys prot" and n: "n \<le> 3"
  defines "b \<equiv> (addr + 2 ^ sh n) AND NOT (mask (sh n))"
  shows "unat (if b - 1 < stop - 1 then b else stop) =
    min ((unat addr div 2 ^ sh n + 1) * 2 ^ sh n) (unat stop)"
proof -
  define S :: nat where "S = 2 ^ sh n"
  have le: "sh n \<le> 39"
    using n by (simp add: sh_def)
  then have S: "0 < S" "S \<le> 2 ^ 39"
    unfolding S_def by (simp, intro power_increasing) simp_all
  have p2: "unat (2 ^ sh n :: u64) = S"
    using le by (simp add: S_def unat_2p)
  have st: "unat addr < unat stop" "unat stop \<le> 2 ^ 48"
    using r by (auto simp: req_def)
  then have "unat (addr + 2 ^ sh n) = unat addr + S"
    using S by (subst unat_add_no_wrap) (simp_all add: p2)
  then have b: "unat b = (unat addr div S + 1) * S"
    using S(1) unfolding b_def unat_and_not_mask_div by (simp add: S_def [symmetric] div_add_self2)
  have "0 < unat b"
    using b S by simp
  then have "b - 1 < stop - 1 \<longleftrightarrow> unat b < unat stop"
    using st by (auto simp: word_less_nat_alt unat_sub_if' unat_eq_0 split: if_splits)
  then show ?thesis
    using b by (simp add: S_def [symmetric] min_def)
qed

lemma offset_in_block:
  assumes "unat (va :: u64) div 2 ^ k = unat addr div 2 ^ k" and "unat addr mod 2 ^ k = 0" and "k < 64"
  shows "va - addr = of_nat (unat va mod 2 ^ k)"
proof -
  have "unat va = unat addr + unat va mod 2 ^ k"
    using assms(1) div_mult_mod_eq [of "unat va" "2 ^ k"] div_mult_mod_eq [of "unat addr" "2 ^ k"] assms(2)
    by simp
  then have "of_nat (unat va) = of_nat (unat addr) + (of_nat (unat va mod 2 ^ k) :: u64)"
    by (metis of_nat_add)
  then show ?thesis
    by (simp only: of_nat_unat_64 diff_eq_eq add.commute)
qed

section \<open>Leaf descriptors\<close>

lemma leaf_bits:
  assumes "page_aligned phys" and "unat phys < 2 ^ 48" and "p AND PTE_ADDR_MASK = 0"
  shows "paddr (phys OR p) = phys" and "attrs (phys OR p) = attrs p" and "(phys OR p) AND 3 = p AND 3"
proof -
  have b: "12 \<le> n \<and> n < 48" if "bit phys n" for n
    using assms(1) that below_2p48_bits [OF assms(2)]
    by (auto simp: page_aligned_bits simp flip: not_less)
  have p: "\<not> bit p n" if "12 \<le> n" "n < 48" for n
    using assms(3) that bit_PTE_ADDR_MASK by (metis bit_and_iff bit_0_eq bot_apply bot_bool_def)
  show "paddr (phys OR p) = phys" and "attrs (phys OR p) = attrs p" and "(phys OR p) AND 3 = p AND 3"
    unfolding three_eq_mask paddr_def attrs_def
    using b p by (auto simp: bit_eq_iff bit_simps bit_PTE_ADDR_MASK) (use b in force)
qed

lemma push_drop_aligned: "unat (x :: u64) mod 2 ^ k = 0 \<Longrightarrow> push_bit k (drop_bit k x) = x"
  by (simp add: and_not_mask_eq_push [symmetric] word_unat_eq_iff unat_and_not_mask)

text \<open>Writing one leaf that covers the whole block of an entry of level \<open>n\<close>.\<close>

lemma write_leaf:
  assumes e: "epre free n ep addr stop phys prot s F"
    and fp: "\<And>s m. free (s\<lparr>pmem := m\<rparr>) = free s"
    and n: "n = 0 \<and> leaf AND 3 = 3 \<or> n = 1 \<and> leaf AND 3 = 1"
    and pa: "leaf AND PTE_ADDR_MASK = 0" "attrs leaf = attrs prot"
    and al: "unat addr mod 2 ^ sh n = 0" "unat stop mod 2 ^ sh n = 0"
  shows "epost free n ep addr stop phys prot s (s\<lparr>pmem := st64 (pmem s) ep (phys OR leaf)\<rparr>) F {}"
proof -
  define s' where "s' = s\<lparr>pmem := st64 (pmem s) ep (phys OR leaf)\<rparr>"
  have r: "req n addr stop phys prot" and a8: "aligned8 ep"
    using e by (auto simp: epre_def)
  then have ph: "page_aligned phys" "unat phys < 2 ^ 48"
    by (auto simp: req_def)
  note L = leaf_bits [OF ph pa(1)]
  define S :: nat where "S = 2 ^ sh n"
  have S: "0 < S" by (simp add: S_def)
  have k: "sh n < 64"
    using n by (auto simp: sh_def)
  obtain a z where az: "unat addr = a * S" "unat stop = z * S"
    using al by (auto simp: S_def mod_eq_0_iff_dvd dvd_def mult.commute)
  have "unat addr < unat stop" and "unat addr div S = (unat stop - 1) div S"
    using r by (auto simp: req_def S_def)
  with S az block_top [OF S, of "z - 1"] have z: "z = a + 1"
    by (cases z) auto
  have blk: "inr addr stop va" if "unat va div S = unat addr div S" for va
  proof -
    have "unat va div S = a"
      using that az S by simp
    then show ?thesis
      using div_mult_mod_eq [of "unat va" S] mod_less_divisor [OF S, of "unat va"] az z
      by (simp add: inr_def)
  qed
  have v: "view s' b = (if b = ep then phys OR leaf else view s b)" if "aligned8 b" for b
    using that a8 dw.ld_st [of ep b] by (auto simp: s'_def view_def)
  have fr: "free s' = free s"
    by (simp add: s'_def fp)
  have lk: "look n (view s') (view s' ep) va = Some (target addr phys prot va)"
    if "unat va div S = unat addr div S" for va
    using n L pa(2) offset_in_block [OF that [unfolded S_def] al(1) k]
    by (auto simp: v a8 target_def sh_def)
  show ?thesis
    unfolding epost_def s'_def [symmetric]
  proof (intro conjI allI impI)
    show "ent n (view s') (view s' ep) {}"
      using n L(3) by (auto simp: v a8 ent_Suc)
    show "look n (view s') (view s' ep) va =
        (if inr addr stop va then Some (target addr phys prot va) else look n (view s) (view s ep) va)"
      if "unat va div 2 ^ sh n = unat addr div 2 ^ sh n" for va
      using lk [of va] blk [of va] that by (simp add: S_def)
  qed (simp_all add: fr v)
qed

section \<open>The levels\<close>

lemmas geometry = PGDIR_SIZE_def PGDIR_MASK_def PTRS_PER_PGD_def PUD_SIZE_def PUD_MASK_def
  PTRS_PER_PUD_def PMD_SIZE_def PMD_MASK_def PTRS_PER_PMD_def PTRS_PER_PTE_def SECTION_SIZE_def
  SECTION_MASK_def PAGE_SHIFT_def

lemma pte_index_slot: "pte_offset_phys m pmdp addr = slot (paddr (ld64 m pmdp)) (idx 0 addr)"
  using index_idx [of 0 addr]
  by (simp add: pte_offset_phys_def pmd_page_paddr_def pte_index_def slot_def paddr_def sh_def
      geometry yios_consts)

lemma pmd_index_slot: "pmd_offset_phys m pudp addr = slot (paddr (ld64 m pudp)) (idx 1 addr)"
  using index_idx [of 1 addr]
  by (simp add: pmd_offset_phys_def pud_page_paddr_def pmd_index_def slot_def paddr_def sh_def
      geometry yios_consts)

lemma pud_index_slot: "pud_offset_phys m pgdp addr = slot (paddr (ld64 m pgdp)) (idx 2 addr)"
  using index_idx [of 2 addr]
  by (simp add: pud_offset_phys_def pgd_page_paddr_def pud_index_def slot_def paddr_def sh_def
      geometry yios_consts)

lemma pgd_index_slot: "pgd_offset_raw p addr = slot p (idx 3 addr)"
  using index_idx [of 3 addr]
  by (simp add: pgd_offset_raw_def pgd_index_def slot_def sh_def geometry yios_consts)

lemma pmd_addr_end_eq: "pmd_addr_end addr stop =
    (let b = (addr + 2 ^ sh (Suc 0)) AND NOT (mask (sh (Suc 0))) in if b - 1 < stop - 1 then b else stop)"
  by (simp add: pmd_addr_end_def geometry yios_consts sh_def mask_eq_exp_minus_1)

lemma pud_addr_end_eq: "pud_addr_end addr stop =
    (let b = (addr + 2 ^ sh (Suc (Suc 0))) AND NOT (mask (sh (Suc (Suc 0)))) in if b - 1 < stop - 1 then b else stop)"
  by (simp add: pud_addr_end_def geometry yios_consts sh_def mask_eq_exp_minus_1)

lemma pgd_addr_end_eq: "pgd_addr_end addr stop =
    (let b = (addr + 2 ^ sh (Suc (Suc (Suc 0)))) AND NOT (mask (sh (Suc (Suc (Suc 0))))) in if b - 1 < stop - 1 then b else stop)"
  by (simp add: pgd_addr_end_def geometry yios_consts sh_def mask_eq_exp_minus_1)

lemma pte_end_spec:
  assumes "req (Suc 0) addr stop phys prot"
  shows "unat (addr + PAGE_SIZE) = min ((unat addr div 2 ^ sh 0 + 1) * 2 ^ sh 0) (unat stop)"
proof -
  have a: "unat addr mod 4096 = 0" "unat stop mod 4096 = 0" "unat addr < unat stop" "unat stop \<le> 2 ^ 48"
    using assms by (auto simp: req_def page_aligned_def)
  then have "unat (addr + PAGE_SIZE) = unat addr + 4096"
    by (subst unat_add_no_wrap) (simp_all add: PAGE_SIZE_def)
  moreover have "unat addr + 4096 \<le> unat stop"
    using a(1-3) by (auto elim!: dvdE)
  ultimately show ?thesis
    using a(1) by (auto simp: sh_def elim!: dvdE)
qed

sublocale pgtable_pages \<subseteq> page: entry_op free 0
    "\<lambda>ep addr nxt phys prot s. Some (set_pte ep (pfn_pte (drop_bit PAGE_SHIFT phys) prot) s)"
proof
  fix ep addr stop phys prot s F
  assume e: "epre free 0 ep addr stop phys prot s F"
  then have r: "page_aligned phys" "page_aligned addr" "page_aligned stop"
    "prot AND 3 = 3" "prot AND PTE_ADDR_MASK = 0"
    by (auto simp: epre_def req_def)
  then have "push_bit PAGE_SHIFT (drop_bit PAGE_SHIFT phys) = phys"
    by (intro push_drop_aligned) (simp add: page_aligned_def PAGE_SHIFT_def)
  with write_leaf [OF e free_pmem, of prot] r
  show "\<exists>s' F'. Some (set_pte ep (pfn_pte (drop_bit PAGE_SHIFT phys) prot) s) = Some s' \<and>
      epost free 0 ep addr stop phys prot s s' F F'"
    by (auto simp: set_pte_def pfn_pte_def page_aligned_def sh_def)
qed

sublocale pgtable_pages \<subseteq> pte: table_level free 0
    "\<lambda>ep addr nxt phys prot s. Some (set_pte ep (pfn_pte (drop_bit PAGE_SHIFT phys) prot) s)"
    pte_loop "\<lambda>addr stop. addr + PAGE_SIZE" alloc
    "\<lambda>ep addr stop phys prot s. alloc_init_pte ep addr stop phys prot alloc flags s"
  for flags
proof
  show "pte_loop ep addr stop phys prot s =
      (let nxt = addr + PAGE_SIZE in
       do { s \<leftarrow> Some (set_pte ep (pfn_pte (drop_bit PAGE_SHIFT phys) prot) s);
            if nxt \<noteq> stop then pte_loop (ep + 8) nxt stop (phys + (nxt - addr)) prot s else Some s })"
    for ep addr stop phys prot s
    by (simp add: pte_loop.simps [of ep] Let_def)
qed (simp_all add: pte_end_spec alloc_init_pte_def Let_def pmd_none_def view_def set_pmd_def
    pte_index_slot PMD_TYPE_TABLE_def split: prod.split)

lemma section_aligned:
  assumes "(addr OR nxt OR phys) AND NOT SECTION_MASK = 0"
  shows "unat addr mod 2 ^ 21 = 0" and "unat nxt mod 2 ^ 21 = 0" and "unat phys mod 2 ^ 21 = 0"
proof -
  have "NOT SECTION_MASK = mask 21"
    by (simp add: SECTION_MASK_def SECTION_SIZE_def SECTION_SHIFT_def PMD_SHIFT_def mask_eq_exp_minus_1)
  then have "take_bit 21 addr OR take_bit 21 nxt OR take_bit 21 phys = 0"
    using assms by (simp add: take_bit_eq_mask bit.conj_disj_distrib2)
  then have "take_bit 21 addr = 0" "take_bit 21 nxt = 0" "take_bit 21 phys = 0"
    by (simp_all add: or_eq_0_iff)
  then show "unat addr mod 2 ^ 21 = 0" and "unat nxt mod 2 ^ 21 = 0" and "unat phys mod 2 ^ 21 = 0"
    by (metis unat_take_bit unat_0)+
qed

lemma section_prot:
  assumes "prot AND PTE_ADDR_MASK = 0" "prot AND 3 = 3"
  defines "p \<equiv> PMD_TYPE_SECT OR mk_sect_prot prot"
  shows "p AND 3 = 1" and "p AND PTE_ADDR_MASK = 0" and "attrs p = attrs prot"
proof -
  have n: "\<not> (bit prot n \<and> 12 \<le> n \<and> n < 48)" for n
    using assms(1) by (metis bit_and_iff bit_0_eq bot_apply bot_bool_def bit_PTE_ADDR_MASK)
  have tb: "bit PTE_TABLE_BIT n \<longleftrightarrow> n = 1" for n
    unfolding PTE_TABLE_BIT_def push_bit_of_1 by (subst bit_exp_iff) auto
  have b: "bit p n \<longleftrightarrow> n = 0 \<or> bit prot n \<and> n \<noteq> 1" for n
    by (auto simp: p_def mk_sect_prot_def PMD_TYPE_SECT_def bit_or_iff bit_and_iff bit_not_iff tb bit_1_iff
        dest: bit_imp_le_length)
  show "p AND 3 = 1"
    unfolding three_eq_mask by (rule bit_eqI) (auto simp: bit_and_iff bit_mask_iff b bit_1_iff)
  show "p AND PTE_ADDR_MASK = 0"
    using n by (intro bit_eqI) (auto simp: bit_and_iff b bit_PTE_ADDR_MASK)
  show "attrs p = attrs prot"
    unfolding three_eq_mask attrs_def
    by (rule bit_eqI) (auto simp: bit_and_iff bit_not_iff bit_mask_iff b)
qed

sublocale pgtable_pages \<subseteq> pmd_entry: entry_op free "Suc 0"
    "\<lambda>ep addr stop phys prot s. pmd_entry ep addr stop phys prot alloc flags s"
  for flags
proof
  fix ep addr stop phys prot s F
  assume e: "epre free (Suc 0) ep addr stop phys prot s F"
  show "\<exists>s' F'. pmd_entry ep addr stop phys prot alloc flags s = Some s' \<and>
      epost free (Suc 0) ep addr stop phys prot s s' F F'"
  proof (cases "(addr OR stop OR phys) AND NOT SECTION_MASK = 0 \<and> flags AND NO_BLOCK_MAPPINGS = 0")
    case False
    then show ?thesis
      using pte.level.op_spec [OF e] by (auto simp: pmd_entry_def)
  next
    case True
    note al = section_aligned [OF conjunct1 [OF True]]
    have r: "prot AND 3 = 3" "prot AND PTE_ADDR_MASK = 0"
      using e by (auto simp: epre_def req_def)
    have "push_bit PMD_SHIFT (drop_bit PMD_SHIFT phys) = phys"
      using al(3) by (intro push_drop_aligned) (simp add: PMD_SHIFT_def)
    with write_leaf [OF e free_pmem, of "PMD_TYPE_SECT OR mk_sect_prot prot"] section_prot [OF r(2,1)]
      al True show ?thesis
      by (auto simp: pmd_entry_def pmd_set_section_def set_pmd_def pfn_pmd_def sh_def)
  qed
qed

sublocale pgtable_pages \<subseteq> pmd: table_level free "Suc 0"
    "\<lambda>ep addr stop phys prot s. pmd_entry ep addr stop phys prot alloc flags s"
    "\<lambda>ep addr stop phys prot s. pmd_loop ep addr stop phys prot alloc flags s"
    pmd_addr_end alloc
    "\<lambda>ep addr stop phys prot s. alloc_init_pmd ep addr stop phys prot alloc flags s"
  for flags
proof
  show "unat (pmd_addr_end addr stop) = min ((unat addr div 2 ^ sh (Suc 0) + 1) * 2 ^ sh (Suc 0)) (unat stop)"
    if "req (Suc (Suc 0)) addr stop phys prot" for addr stop phys prot
    using boundary_end [OF that] by (simp add: pmd_addr_end_eq Let_def)
qed (rule pmd_loop.simps, simp add: alloc_init_pmd_def Let_def pud_none_def view_def set_pud_def
    pmd_index_slot PUD_TYPE_TABLE_def split: prod.split)

sublocale pgtable_pages \<subseteq> pud: table_level free "Suc (Suc 0)"
    "\<lambda>ep addr stop phys prot s. alloc_init_pmd ep addr stop phys prot alloc flags s"
    "\<lambda>ep addr stop phys prot s. pud_loop ep addr stop phys prot alloc flags s"
    pud_addr_end alloc
    "\<lambda>ep addr stop phys prot s. alloc_init_pud ep addr stop phys prot alloc flags s"
  for flags
proof
  show "unat (pud_addr_end addr stop) =
      min ((unat addr div 2 ^ sh (Suc (Suc 0)) + 1) * 2 ^ sh (Suc (Suc 0))) (unat stop)"
    if "req (Suc (Suc (Suc 0))) addr stop phys prot" for addr stop phys prot
    using boundary_end [OF that] by (simp add: pud_addr_end_eq Let_def)
  show "alloc_init_pud ep addr stop phys prot alloc flags s =
      (let s = (if view s ep = 0
                then let (q, s) = alloc s in s\<lparr>pmem := st64 (pmem s) ep (q OR 3)\<rparr>
                else s)
       in pud_loop (slot (paddr (view s ep)) (idx (Suc (Suc 0)) addr)) addr stop phys prot alloc flags s)"
    for ep addr stop phys prot s
    by (simp add: alloc_init_pud_def Let_def pgd_none_def view_def set_pgd_def pud_index_slot
        PUD_TYPE_TABLE_def numeral_2_eq_2 split: prod.split)
qed (rule pud_loop.simps)

sublocale pgtable_pages \<subseteq> pgd: table_loop free "Suc (Suc (Suc 0))"
    "\<lambda>ep addr stop phys prot s. alloc_init_pud ep addr stop phys prot alloc flags s"
    "\<lambda>ep addr stop phys prot s. pgd_loop ep addr stop phys prot alloc flags s"
    pgd_addr_end
  for flags
proof
  show "unat (pgd_addr_end addr stop) =
      min ((unat addr div 2 ^ sh (Suc (Suc (Suc 0))) + 1) * 2 ^ sh (Suc (Suc (Suc 0)))) (unat stop)"
    if "req (Suc (Suc (Suc (Suc 0)))) addr stop phys prot" for addr stop phys prot
    using boundary_end [OF that] by (simp add: pgd_addr_end_eq Let_def)
qed (rule pgd_loop.simps)

section \<open>The early allocator\<close>

definition mm_free :: "mmstate \<Rightarrow> u64 set" where
  "mm_free s = free_pages (mmap s)"

lemma in_page_iff:
  assumes "aligned8 a" and "page_aligned q" and "i < 8"
  shows "unat (a + of_nat i - q) < 4096 \<longleftrightarrow> pg a = q"
proof -
  obtain k where k: "unat a = 8 * k"
    using assms(1) by (auto simp: aligned8_def)
  then have k61: "k < 2 ^ 61"
    using unat_lt_64 [of a] by simp
  obtain j where j: "unat q = 4096 * j"
    using assms(2) by (auto simp: page_aligned_def)
  have x: "unat (a + of_nat i) = 8 * k + i"
    using k k61 assms(3) by (subst unat_add_no_wrap) (simp_all add: unat_of_nat_64)
  have "pg a = q \<longleftrightarrow> k div 512 = j"
    by (auto simp: word_unat_eq_iff unat_pg k j)
  moreover have "unat (a + of_nat i - q) < 4096 \<longleftrightarrow> k div 512 = j"
  proof (cases "4096 * j \<le> 8 * k + i")
    case True
    then have "unat (a + of_nat i - q) = 8 * k + i - 4096 * j"
      by (simp add: unat_sub_if' x j)
    then show ?thesis
      using True assms(3) by auto
  next
    case False
    have "j < 2 ^ 52"
      using unat_lt_64 [of q] j by simp
    with False have "unat (a + of_nat i - q) = 2 ^ 64 + (8 * k + i) - 4096 * j"
      by (simp add: unat_sub_if' x j)
    then show ?thesis
      using False \<open>j < 2 ^ 52\<close> assms(3) by auto
  qed
  ultimately show ?thesis by simp
qed

interpretation early: pgtable_pages early_pgtable_alloc mm_free
proof
  show "finite (mm_free s)" for s
    by (simp add: mm_free_def)
  show "mm_free (s\<lparr>pmem := m\<rparr>) = mm_free s" for s m
    by (simp add: mm_free_def)
  show "page_aligned q \<and> unat q < 2 ^ 48" if "q \<in> mm_free s" for q s
    using free_pages_props [of q "mmap s"] that by (simp add: mm_free_def)
  show T: "p \<in> mm_free s \<and> mm_free s' = mm_free s - {p}"
    if "mm_free s \<noteq> {}" "early_pgtable_alloc s = (p, s')" for s p s'
  proof -
    obtain q mm where g: "get_free_page (mmap s) = (q, mm)"
      by (cases "get_free_page (mmap s)")
    then have "p = q" and "mmap s' = mm"
      using that(2) by (auto simp: early_pgtable_alloc_def)
    then show ?thesis
      using get_free_page_taken [OF _ g] that(1) by (simp add: mm_free_def)
  qed
  show "view s' a = (if pg a = q then 0 else view s a)"
    if ne: "mm_free s \<noteq> {}" and al: "early_pgtable_alloc s = (q, s')" and a: "aligned8 a" for s q s' a
  proof -
    have q: "page_aligned q"
      using T [OF ne al] free_pages_props [of q "mmap s"] by (simp add: mm_free_def)
    have "pmem s' = fill (pmem s) q 4096 0"
      using al by (auto simp: early_pgtable_alloc_def memset_fill PAGE_SIZE_def split: prod.splits)
    then show ?thesis
      using in_page_iff [OF a q] by (auto simp: view_def ld64_fill_zero ld64_fill_other not_less [symmetric])
  qed
qed

end
