(* ===== verification/Mmu_Boot.thy ===== *)
theory Mmu_Boot
  imports Mmu_Levels
begin

text \<open>
  Turning the MMU on: \<^verbatim>\<open>cpu_init\<close>, \<^verbatim>\<open>enable_mmu\<close> and \<^verbatim>\<open>paging_init\<close> of \<^verbatim>\<open>arch/arm64/core/mmu.c\<close> on the
  system registers they write, and the theorems about the tables as a whole: what
  \<^verbatim>\<open>__create_pgd_mapping\<close> maps, and the address space the kernel runs in after \<^verbatim>\<open>paging_init\<close>.
\<close>

section \<open>System registers\<close>

record sysregs =
  cpacr_el1 :: u64
  mdscr_el1 :: u64
  mair_el1 :: u64
  tcr_el1 :: u64
  ttbr0_el1 :: u64
  sctlr_el1 :: u64
  id_aa64mmfr0_el1 :: u64

definition TCR_T0SZ :: "u64 \<Rightarrow> u64" where "TCR_T0SZ x = push_bit 0 (64 - x)"
definition TCR_T1SZ :: "u64 \<Rightarrow> u64" where "TCR_T1SZ x = push_bit 16 (64 - x)"
definition TCR_TxSZ :: "u64 \<Rightarrow> u64" where "TCR_TxSZ x = TCR_T0SZ x OR TCR_T1SZ x"
definition TCR_TG0_4K :: u64 where [yios_consts]: "TCR_TG0_4K = push_bit 14 0"
definition TCR_TG1_4K :: u64 where [yios_consts]: "TCR_TG1_4K = push_bit 30 2"
definition TCR_TG_FLAGS :: u64 where [yios_consts]: "TCR_TG_FLAGS = TCR_TG0_4K OR TCR_TG1_4K"
definition TCR_IPS_SHIFT :: nat where [yios_consts]: "TCR_IPS_SHIFT = 32"
definition ID_AA64MMFR0_TGRAN4_SHIFT :: nat where [yios_consts]: "ID_AA64MMFR0_TGRAN4_SHIFT = 28"
definition ID_AA64MMFR0_TGRAN4_SUPPORTED :: u64 where [yios_consts]: "ID_AA64MMFR0_TGRAN4_SUPPORTED = 0"
definition ID_AA64MMFR0_PARANGE_48 :: u64 where [yios_consts]: "ID_AA64MMFR0_PARANGE_48 = 5"
definition SCTLR_ELx_M :: u64 where [yios_consts]: "SCTLR_ELx_M = push_bit 0 1"

definition cpu_init :: "sysregs \<Rightarrow> sysregs" where
  "cpu_init r =
     (let r = r\<lparr>cpacr_el1 := push_bit 20 3\<rparr>;
          r = r\<lparr>mdscr_el1 := push_bit 12 1\<rparr>;
          mair = MAIR 0x00 MT_DEVICE_nGnRnE OR MAIR 0x04 MT_DEVICE_nGnRE OR
                 MAIR 0x0c MT_DEVICE_GRE OR MAIR 0x44 MT_NORMAL_NC OR
                 MAIR 0xff MT_NORMAL OR MAIR 0xbb MT_NORMAL_WT;
          r = r\<lparr>mair_el1 := mair\<rparr>;
          tcr = TCR_TxSZ (of_nat VA_BITS) OR TCR_TG_FLAGS;
          tmp = id_aa64mmfr0_el1 r;
          parang = tmp AND 0xf;
          parang = (if parang > ID_AA64MMFR0_PARANGE_48 then ID_AA64MMFR0_PARANGE_48 else parang);
          tcr = tcr OR push_bit TCR_IPS_SHIFT parang
      in r\<lparr>tcr_el1 := tcr\<rparr>)"

definition enable_mmu :: "layout \<Rightarrow> sysregs \<Rightarrow> int \<times> sysregs" where
  "enable_mmu L r =
     (let tmp = id_aa64mmfr0_el1 r;
          tgran4 = drop_bit ID_AA64MMFR0_TGRAN4_SHIFT tmp AND 0xf
      in if tgran4 \<noteq> ID_AA64MMFR0_TGRAN4_SUPPORTED then (- 1, r)
         else let r = r\<lparr>ttbr0_el1 := idmap_pg_dir L\<rparr>;
                  r = r\<lparr>sctlr_el1 := SCTLR_ELx_M\<rparr>
              in (0, r))"

text \<open>
  \<^verbatim>\<open>paging_init\<close> on memory, allocator, registers and the messages given to \<^verbatim>\<open>printk\<close> (a format and its
  arguments; the theory \<open>Printk\<close> says what bytes they become). The value of \<^verbatim>\<open>enable_mmu\<close> is
  discarded, as in the source.
\<close>

definition paging_init :: "layout \<Rightarrow> mmstate \<times> sysregs \<times> klog \<Rightarrow> (mmstate \<times> sysregs \<times> klog) option" where
  "paging_init L = (\<lambda>(s, r, out).
     do { let s = s\<lparr>pmem := memset (pmem s) (idmap_pg_dir L) 0 PAGE_SIZE\<rparr>;
          s \<leftarrow> create_identical_mapping L s;
          s \<leftarrow> create_mmio_mapping L s;
          let r = cpu_init r;
          let r = snd (enable_mmu L r);
          Some (s, r, out @ [(''enable mmu done\<newline>'', [])]) })"

section \<open>The address space of a page directory\<close>

text \<open>
  \<open>translate m pgdir va\<close> is the physical address and the attribute bits of \<open>va\<close> under the tables at
  \<open>pgdir\<close>. \<open>pgtables s pgdir F\<close> is the invariant of the table code: the tables reachable from
  \<open>pgdir\<close> form a tree on the pages \<open>F\<close>, none of which the allocator considers free.
\<close>

definition translate :: "mem \<Rightarrow> u64 \<Rightarrow> u64 \<Rightarrow> (u64 \<times> u64) option" where
  "translate m pgdir va = ltab 3 (ld64 m) pgdir va"

definition pgtables :: "mmstate \<Rightarrow> u64 \<Rightarrow> u64 set \<Rightarrow> bool" where
  "pgtables s pgdir F \<longleftrightarrow> page_aligned pgdir \<and> tbl 3 (view s) pgdir F \<and> F \<inter> mm_free s = {}"

definition lo_page :: "u64 \<Rightarrow> nat" where
  "lo_page virt = 4096 * (unat virt div 4096)"

definition hi_page :: "u64 \<Rightarrow> u64 \<Rightarrow> nat" where
  "hi_page virt sz = 4096 * ((unat virt + unat sz + 4095) div 4096)"

definition in_range :: "u64 \<Rightarrow> u64 \<Rightarrow> u64 \<Rightarrow> bool" where
  "in_range virt sz va \<longleftrightarrow> lo_page virt \<le> unat va \<and> unat va < hi_page virt sz"

definition prot_ok :: "u64 \<Rightarrow> bool" where
  "prot_ok prot \<longleftrightarrow> prot AND 3 = 3 \<and> prot AND PTE_ADDR_MASK = 0"

text \<open>
  A mapping request \<open>__create_pgd_mapping\<close> is made for: not empty, within 48 bits on both sides,
  with pages enough for the tables it may need.
\<close>

definition mappable :: "mmstate \<Rightarrow> u64 \<Rightarrow> u64 \<Rightarrow> u64 \<Rightarrow> u64 \<Rightarrow> bool" where
  "mappable s phys virt sz prot \<longleftrightarrow>
     prot_ok prot \<and> 0 < unat sz \<and> unat virt + unat sz \<le> 2 ^ 48 \<and>
     lo_page phys + (hi_page virt sz - lo_page virt) \<le> 2 ^ 48 \<and>
     need 3 (lo_page virt) (hi_page virt sz) \<le> card (mm_free s)"

lemma mapping_request:
  assumes "mappable s phys virt sz prot"
  shows "req 4 (virt AND PAGE_MASK) (PAGE_BALIGN (virt + sz)) (phys AND PAGE_MASK) prot"
    and "unat (virt AND PAGE_MASK) = lo_page virt" and "unat (PAGE_BALIGN (virt + sz)) = hi_page virt sz"
    and "inr (virt AND PAGE_MASK) (PAGE_BALIGN (virt + sz)) va \<longleftrightarrow> in_range virt sz va"
proof -
  have sz: "0 < unat sz" "unat virt + unat sz \<le> 2 ^ 48"
    and ph: "lo_page phys + (hi_page virt sz - lo_page virt) \<le> 2 ^ 48" and pr: "prot_ok prot"
    using assms by (auto simp: mappable_def)
  have "unat (virt + sz) = unat virt + unat sz"
    using sz by (intro unat_add_no_wrap) simp
  then show hi: "unat (PAGE_BALIGN (virt + sz)) = hi_page virt sz"
    using sz by (subst unat_PAGE_BALIGN) (simp_all add: hi_page_def)
  show lo: "unat (virt AND PAGE_MASK) = lo_page virt"
    by (simp add: unat_PAGE_MASK lo_page_def)
  show "inr (virt AND PAGE_MASK) (PAGE_BALIGN (virt + sz)) va \<longleftrightarrow> in_range virt sz va"
    by (simp add: inr_def in_range_def lo hi)
  have "lo_page virt < hi_page virt sz" and "hi_page virt sz \<le> 2 ^ 48"
    using sz by (simp_all add: lo_page_def hi_page_def)
  moreover have "page_aligned (PAGE_BALIGN (virt + sz))"
    by (simp add: page_aligned_def hi hi_page_def)
  moreover have "unat (phys AND PAGE_MASK) = lo_page phys"
    by (simp add: unat_PAGE_MASK lo_page_def)
  ultimately show "req 4 (virt AND PAGE_MASK) (PAGE_BALIGN (virt + sz)) (phys AND PAGE_MASK) prot"
    using ph pr by (simp add: req_def lo hi sh_def prot_ok_def)
qed

lemma in_48: "unat va < 2 ^ 48 \<Longrightarrow> req 4 addr stop phys prot \<Longrightarrow> unat va div 2 ^ sh 4 = unat addr div 2 ^ sh 4"
  by (auto simp: req_def sh_def div_eq_0_iff)

text \<open>The page tables with the mapping of one request added: the abstract operation.\<close>

definition map_range :: "u64 \<Rightarrow> u64 \<Rightarrow> u64 \<Rightarrow> u64 \<Rightarrow> (u64 \<Rightarrow> (u64 \<times> u64) option) \<Rightarrow> u64 \<Rightarrow> (u64 \<times> u64) option" where
  "map_range phys virt sz prot M va =
     (if in_range virt sz va then Some ((phys AND PAGE_MASK) + (va - (virt AND PAGE_MASK)), attrs prot) else M va)"

lemma create_pgd_mapping_spec:
  assumes p: "pgtables s pgdir F" and m: "mappable s phys virt sz prot"
    and un: "\<And>va. in_range virt sz va \<Longrightarrow> translate (pmem s) pgdir va = None"
  obtains s' F' where "create_pgd_mapping pgdir phys virt sz prot early_pgtable_alloc flags s = Some s'"
    and "pgtables s' pgdir F'" and "mm_free s' \<subseteq> mm_free s" and "F' \<subseteq> F \<union> (mm_free s - mm_free s')"
    and "card (mm_free s) \<le> card (mm_free s') + need 3 (lo_page virt) (hi_page virt sz)"
    and "\<And>a. aligned8 a \<Longrightarrow> pg a \<notin> F \<Longrightarrow> pg a \<notin> mm_free s \<Longrightarrow> ld64 (pmem s') a = ld64 (pmem s) a"
    and "\<And>va. unat va < 2 ^ 48 \<Longrightarrow>
      translate (pmem s') pgdir va = map_range phys virt sz prot (translate (pmem s) pgdir) va"
proof -
  note M = mapping_request [OF m]
  have 3: "3 = Suc (Suc (Suc 0))" and 4: "4 = Suc (Suc (Suc (Suc 0)))"
    by simp_all
  have "tpre mm_free 3 pgdir (virt AND PAGE_MASK) (PAGE_BALIGN (virt + sz)) (phys AND PAGE_MASK) prot s F"
    using p m M un by (simp add: tpre_def pgtables_def mappable_def translate_def view_def)
  from early.pgd.loop_spec [OF this [unfolded 3], of flags] obtain s' F' where
    l: "pgd_loop (slot pgdir (idx 3 (virt AND PAGE_MASK))) (virt AND PAGE_MASK) (PAGE_BALIGN (virt + sz))
      (phys AND PAGE_MASK) prot early_pgtable_alloc flags s = Some s'"
    and t: "tpost mm_free 3 pgdir (virt AND PAGE_MASK) (PAGE_BALIGN (virt + sz)) (phys AND PAGE_MASK) prot s s' F F'"
    unfolding 3 [symmetric] by blast
  have lo: "idx 3 (virt AND PAGE_MASK) = idx 3 virt"
    by (simp add: idx_def sh_def unat_PAGE_MASK div_mult2_eq [of _ 4096 134217728, simplified])
  show thesis
  proof (rule that)
    show "create_pgd_mapping pgdir phys virt sz prot early_pgtable_alloc flags s = Some s'"
      using l by (simp add: create_pgd_mapping_def pgd_index_slot lo)
    show "pgtables s' pgdir F'"
      using p t unfolding pgtables_def tpost_def by blast
    show "translate (pmem s') pgdir va = map_range phys virt sz prot (translate (pmem s) pgdir) va"
      if "unat va < 2 ^ 48" for va
      using t in_48 [OF that M(1)] M(4)
      by (simp add: tpost_def translate_def view_def [symmetric] map_range_def target_def)
  qed (use t M in \<open>auto simp: tpost_def view_def\<close>)
qed

section \<open>The kernel's address space\<close>

text \<open>
  The address space the kernel is meant to run in: the text read-only and executable, the rest
  of memory writable and not executable, the peripherals as device memory, nothing else.
\<close>

definition kernel_space :: "layout \<Rightarrow> u64 \<Rightarrow> (u64 \<times> u64) option" where
  "kernel_space L va =
     (if text_boot L AND PAGE_MASK \<le> va \<and> va < PAGE_BALIGN (etext L) then Some (va, attrs PAGE_KERNNEL_ROX)
      else if PAGE_BALIGN (etext L) \<le> va \<and> va < TOTAL_MEMORY then Some (va, attrs PAGE_KERNEL)
      else if PBASE \<le> va \<and> va < PBASE + DEVICE_SIZE then Some (va, attrs PROT_DEVICE_nGnRnE)
      else None)"

text \<open>
  What the linker script and the boot order guarantee: a text segment that is not empty and ends
  below the end of memory, a page-aligned page directory outside the allocator's pool, and room
  for the tables.
\<close>

definition boot_ok :: "layout \<Rightarrow> mmstate \<Rightarrow> bool" where
  "boot_ok L s \<longleftrightarrow>
     text_boot L < etext L \<and> PAGE_BALIGN (etext L) < TOTAL_MEMORY \<and> etext L < TOTAL_MEMORY \<and>
     page_aligned (idmap_pg_dir L) \<and> idmap_pg_dir L \<notin> mm_free s \<and> 534 \<le> card (mm_free s)"

lemma map_range_ident:
  assumes "unat virt + unat sz \<le> 2 ^ 48"
  shows "map_range virt virt sz prot M va =
    (if virt AND PAGE_MASK \<le> va \<and> va < PAGE_BALIGN (virt + sz) then Some (va, attrs prot) else M va)"
proof -
  have "unat (virt + sz) = unat virt + unat sz"
    using assms by (intro unat_add_no_wrap) simp
  then have "unat (PAGE_BALIGN (virt + sz)) = hi_page virt sz"
    using assms by (subst unat_PAGE_BALIGN) (simp_all add: hi_page_def)
  moreover have "unat (virt AND PAGE_MASK) = lo_page virt"
    by (simp add: unat_PAGE_MASK lo_page_def)
  ultimately show ?thesis
    by (simp add: map_range_def in_range_def word_le_nat_alt word_less_nat_alt)
qed

lemma need_3: "need 3 a z =
    ((z - 1) div 0x200000 - a div 0x200000 + 1) + ((z - 1) div 0x40000000 - a div 0x40000000 + 1) +
    ((z - 1) div 0x8000000000 - a div 0x8000000000 + 1)"
proof -
  have 3: "3 = Suc (Suc (Suc 0))" by simp
  show ?thesis
    unfolding 3 by (simp add: sh_def)
qed

lemma need_memory: "a < z \<Longrightarrow> z \<le> 0x20000000 \<Longrightarrow> need 3 a z \<le> 258"
proof -
  assume z: "a < z" "z \<le> 0x20000000"
  have "(z - 1) div 2097152 \<le> 255" and "(z - 1) div 1073741824 = 0" and "(z - 1) div 549755813888 = 0"
    using z by (simp_all add: div_eq_0_iff)
  then show ?thesis
    by (simp add: need_3)
qed

lemma need_device: "need 3 0xFE000000 0x100000000 = 18"
  by (simp add: need_3)

lemma prot_ok_kernel [simp]:
  "prot_ok PAGE_KERNNEL_ROX" "prot_ok PAGE_KERNEL" "prot_ok PROT_DEVICE_nGnRnE"
  by (simp_all add: prot_ok_def yios_consts PTE_ATTRINDX_def PTE_ADDR_MASK_def PAGE_SHIFT_def)

text \<open>One identity mapping of \<open>[virt, stop)\<close> on tables that map none of it.\<close>

lemma ident_step:
  assumes p: "pgtables s pgdir F" and lt: "virt < stop" and st: "unat stop \<le> 2 ^ 48 - 4096" and pr: "prot_ok prot"
    and nd: "need 3 (lo_page virt) (unat (PAGE_BALIGN stop)) \<le> k" "k \<le> card (mm_free s)"
    and un: "\<And>va. virt AND PAGE_MASK \<le> va \<Longrightarrow> va < PAGE_BALIGN stop \<Longrightarrow> translate (pmem s) pgdir va = None"
  obtains s' F' where "create_pgd_mapping pgdir virt virt (stop - virt) prot early_pgtable_alloc flags s = Some s'"
    and "pgtables s' pgdir F'" and "mm_free s' \<subseteq> mm_free s" and "F' \<subseteq> F \<union> (mm_free s - mm_free s')"
    and "card (mm_free s) \<le> card (mm_free s') + k"
    and "\<And>a. aligned8 a \<Longrightarrow> pg a \<notin> F \<Longrightarrow> pg a \<notin> mm_free s \<Longrightarrow> ld64 (pmem s') a = ld64 (pmem s) a"
    and "\<And>va. unat va < 2 ^ 48 \<Longrightarrow> translate (pmem s') pgdir va =
      (if virt AND PAGE_MASK \<le> va \<and> va < PAGE_BALIGN stop then Some (va, attrs prot)
       else translate (pmem s) pgdir va)"
proof -
  have sz: "unat (stop - virt) = unat stop - unat virt" "unat virt < unat stop"
    using lt by (simp_all add: unat_sub word_less_nat_alt word_le_nat_alt)
  then have sum: "unat virt + unat (stop - virt) = unat stop" and add: "virt + (stop - virt) = stop"
    by simp_all
  have hi: "hi_page virt (stop - virt) = unat (PAGE_BALIGN stop)"
    using st sum by (subst unat_PAGE_BALIGN) (simp_all add: hi_page_def add.assoc)
  have "hi_page virt (stop - virt) \<le> 2 ^ 48" and "lo_page virt \<le> hi_page virt (stop - virt)"
    using st sz by (simp_all add: hi_page_def lo_page_def sum)
  then have m: "mappable s virt virt (stop - virt) prot"
    using pr sz st nd hi by (simp add: mappable_def sum)
  have ir: "in_range virt (stop - virt) va \<longleftrightarrow> virt AND PAGE_MASK \<le> va \<and> va < PAGE_BALIGN stop" for va
    using hi by (simp add: in_range_def word_le_nat_alt word_less_nat_alt unat_PAGE_MASK lo_page_def)
  have mr: "map_range virt virt (stop - virt) prot M va =
    (if virt AND PAGE_MASK \<le> va \<and> va < PAGE_BALIGN stop then Some (va, attrs prot) else M va)" for M va
    using map_range_ident [of virt "stop - virt"] st sum by (simp add: add)
  show thesis
  proof (rule create_pgd_mapping_spec [OF p m, of flags], goal_cases)
    case (1 va)
    then show ?case using un by (simp add: ir)
  next
    case (2 s' F')
    show ?case
      by (rule that [OF 2(1-4)]) (use 2(5-7) nd hi mr in simp_all)
  qed
qed

lemma TOTAL_aligned [simp]: "PAGE_BALIGN TOTAL_MEMORY = TOTAL_MEMORY"
  by (simp add: PAGE_BALIGN_def BALIGN_def round_mask_def yios_consts)

lemma PAGE_BALIGN_MASK:
  "unat x + 4095 < 2 ^ 64 \<Longrightarrow> PAGE_BALIGN x AND PAGE_MASK = PAGE_BALIGN x"
  by (simp add: word_unat_eq_iff unat_PAGE_MASK unat_PAGE_BALIGN)

lemma create_identical_mapping_spec:
  assumes p: "pgtables s (idmap_pg_dir L) F" and b: "boot_ok L s"
    and un: "\<And>va. unat va < 2 ^ 48 \<Longrightarrow> translate (pmem s) (idmap_pg_dir L) va = None"
  obtains s' F' where "create_identical_mapping L s = Some s'"
    and "pgtables s' (idmap_pg_dir L) F'" and "mm_free s' \<subseteq> mm_free s" and "F' \<subseteq> F \<union> (mm_free s - mm_free s')"
    and "card (mm_free s) \<le> card (mm_free s') + 516"
    and "\<And>a. aligned8 a \<Longrightarrow> pg a \<notin> F \<Longrightarrow> pg a \<notin> mm_free s \<Longrightarrow> ld64 (pmem s') a = ld64 (pmem s) a"
    and "\<And>va. unat va < 2 ^ 48 \<Longrightarrow> translate (pmem s') (idmap_pg_dir L) va =
      (if text_boot L AND PAGE_MASK \<le> va \<and> va < PAGE_BALIGN (etext L) then Some (va, attrs PAGE_KERNNEL_ROX)
       else if PAGE_BALIGN (etext L) \<le> va \<and> va < TOTAL_MEMORY then Some (va, attrs PAGE_KERNEL) else None)"
proof -
  define T E B where "T = text_boot L" and "E = etext L" and "B = PAGE_BALIGN E"
  have lt: "T < E" "B < TOTAL_MEMORY" "unat E < 0x20000000" "unat B < 0x20000000" and cd: "534 \<le> card (mm_free s)"
    using b by (auto simp: boot_ok_def T_def E_def B_def word_less_nat_alt TOTAL_MEMORY_def)
  have lo: "lo_page T < unat B" and BM: "B AND PAGE_MASK = B" and loB: "lo_page B < unat TOTAL_MEMORY"
    using lt PAGE_BALIGN_MASK [of E]
    by (simp_all add: B_def lo_page_def unat_PAGE_BALIGN word_less_nat_alt TOTAL_MEMORY_def)
  have n1: "need 3 (lo_page T) (unat B) \<le> 258" and n2: "need 3 (lo_page B) (unat TOTAL_MEMORY) \<le> 258"
    using lo loB lt by (auto intro!: need_memory simp: TOTAL_MEMORY_def)
  have low: "unat va < 2 ^ 48" if "va < B" for va
    using that lt by (simp add: word_less_nat_alt)
  obtain s1 F1 where c1: "create_pgd_mapping (idmap_pg_dir L) T T (E - T) PAGE_KERNNEL_ROX early_pgtable_alloc 0 s = Some s1"
    and p1: "pgtables s1 (idmap_pg_dir L) F1" and f1: "mm_free s1 \<subseteq> mm_free s" "F1 \<subseteq> F \<union> (mm_free s - mm_free s1)"
    and k1: "card (mm_free s) \<le> card (mm_free s1) + 258"
    and m1: "\<And>a. aligned8 a \<Longrightarrow> pg a \<notin> F \<Longrightarrow> pg a \<notin> mm_free s \<Longrightarrow> ld64 (pmem s1) a = ld64 (pmem s) a"
    and t1: "\<And>va. unat va < 2 ^ 48 \<Longrightarrow> translate (pmem s1) (idmap_pg_dir L) va =
      (if T AND PAGE_MASK \<le> va \<and> va < B then Some (va, attrs PAGE_KERNNEL_ROX) else translate (pmem s) (idmap_pg_dir L) va)"
    by (rule ident_step [OF p lt(1), of PAGE_KERNNEL_ROX 258 0])
      (use lt n1 cd un low in \<open>simp_all add: B_def\<close>)
  obtain s2 F2 where c2: "create_pgd_mapping (idmap_pg_dir L) B B (TOTAL_MEMORY - B) PAGE_KERNEL early_pgtable_alloc 0 s1 = Some s2"
    and p2: "pgtables s2 (idmap_pg_dir L) F2" and f2: "mm_free s2 \<subseteq> mm_free s1" "F2 \<subseteq> F1 \<union> (mm_free s1 - mm_free s2)"
    and k2: "card (mm_free s1) \<le> card (mm_free s2) + 258"
    and m2: "\<And>a. aligned8 a \<Longrightarrow> pg a \<notin> F1 \<Longrightarrow> pg a \<notin> mm_free s1 \<Longrightarrow> ld64 (pmem s2) a = ld64 (pmem s1) a"
    and t2: "\<And>va. unat va < 2 ^ 48 \<Longrightarrow> translate (pmem s2) (idmap_pg_dir L) va =
      (if B \<le> va \<and> va < TOTAL_MEMORY then Some (va, attrs PAGE_KERNEL) else translate (pmem s1) (idmap_pg_dir L) va)"
  proof (rule ident_step [OF p1 lt(2), of PAGE_KERNEL 258 0, unfolded BM TOTAL_aligned])
    show "translate (pmem s1) (idmap_pg_dir L) va = None" if "B \<le> va" "va < TOTAL_MEMORY" for va
    proof -
      have "unat va < 2 ^ 48"
        using that by (simp add: word_less_nat_alt TOTAL_MEMORY_def)
      with t1 un that show ?thesis by auto
    qed
  qed (use n2 k1 cd in \<open>auto simp: TOTAL_MEMORY_def\<close>)
  show thesis
  proof (rule that [of s2 F2])
    show "create_identical_mapping L s = Some s2"
      using c1 c2 by (simp add: create_identical_mapping_def T_def E_def B_def)
    show "ld64 (pmem s2) a = ld64 (pmem s) a" if a: "aligned8 a" "pg a \<notin> F" "pg a \<notin> mm_free s" for a
    proof -
      have "pg a \<notin> F1" "pg a \<notin> mm_free s1"
        using a f1 by blast+
      with a m1 m2 show ?thesis
        by simp
    qed
    show "F2 \<subseteq> F \<union> (mm_free s - mm_free s2)"
      using f1 f2 by blast
    show "mm_free s2 \<subseteq> mm_free s"
      using f1 f2 by blast
    show "card (mm_free s) \<le> card (mm_free s2) + 516"
      using k1 k2 by linarith
    show "translate (pmem s2) (idmap_pg_dir L) va =
      (if text_boot L AND PAGE_MASK \<le> va \<and> va < PAGE_BALIGN (etext L) then Some (va, attrs PAGE_KERNNEL_ROX)
       else if PAGE_BALIGN (etext L) \<le> va \<and> va < TOTAL_MEMORY then Some (va, attrs PAGE_KERNEL) else None)"
      if "unat va < 2 ^ 48" for va
      using t1 [OF that] t2 [OF that] un [OF that]
      by (auto simp: T_def E_def B_def dest: leD)
  qed (rule p2)
qed

text \<open>A zeroed page directory outside the pool is a well-formed table that maps nothing.\<close>

lemma empty_directory:
  assumes d: "page_aligned d" "d \<notin> mm_free s"
  defines "s0 \<equiv> s\<lparr>pmem := memset (pmem s) d 0 PAGE_SIZE\<rparr>"
  shows "pgtables s0 d {d}" and "translate (pmem s0) d va = None" and "mm_free s0 = mm_free s"
    and "\<And>a. aligned8 a \<Longrightarrow> pg a \<noteq> d \<Longrightarrow> ld64 (pmem s0) a = ld64 (pmem s) a"
proof -
  have m: "pmem s0 = fill (pmem s) d 4096 0"
    by (simp add: s0_def memset_fill PAGE_SIZE_def)
  show fr: "mm_free s0 = mm_free s"
    by (simp add: s0_def mm_free_def)
  have z: "view s0 (slot d i) = 0" if "i < 512" for i
    unfolding view_def m
    by (rule ld64_fill_zero) (use in_page_iff [of "slot d i" d] that d in simp)
  show "pgtables s0 d {d}"
    using d tbl_empty(1) [of "view s0" d, OF z] by (simp add: pgtables_def fr)
  show "translate (pmem s0) d va = None"
    using tbl_empty(2) [of "view s0" d, OF z] by (simp add: translate_def view_def)
  show "ld64 (pmem s0) a = ld64 (pmem s) a" if "aligned8 a" "pg a \<noteq> d" for a
    unfolding m by (rule ld64_fill_other) (use in_page_iff [OF that(1) d(1)] that(2) in \<open>simp add: not_less [symmetric]\<close>)
qed

lemma PBASE_end: "PBASE + DEVICE_SIZE - PBASE = DEVICE_SIZE" "PBASE < PBASE + DEVICE_SIZE"
    "unat (PBASE + DEVICE_SIZE) = 0x100000000" "PBASE AND PAGE_MASK = PBASE"
    "PAGE_BALIGN (PBASE + DEVICE_SIZE) = PBASE + DEVICE_SIZE" "lo_page PBASE = 0xFE000000"
  by (simp_all add: yios_consts PAGE_MASK_def PAGE_BALIGN_def BALIGN_def round_mask_def lo_page_def)

lemma paging_init_spec:
  assumes b: "boot_ok L s"
  obtains s' where "paging_init L (s, r, out) = Some (s', snd (enable_mmu L (cpu_init r)), out @ [(''enable mmu done\<newline>'', [])])"
    and "\<And>va. unat va < 2 ^ 48 \<Longrightarrow> translate (pmem s') (idmap_pg_dir L) va = kernel_space L va"
    and "mm_free s' \<subseteq> mm_free s"
    and "\<exists>F. pgtables s' (idmap_pg_dir L) F \<and> F \<subseteq> insert (idmap_pg_dir L) (mm_free s)"
    and "\<And>a. aligned8 a \<Longrightarrow> pg a \<noteq> idmap_pg_dir L \<Longrightarrow> pg a \<notin> mm_free s \<Longrightarrow> ld64 (pmem s') a = ld64 (pmem s) a"
    and "card (mm_free s) \<le> card (mm_free s') + 534"
proof -
  define d where "d = idmap_pg_dir L"
  define s0 where "s0 = s\<lparr>pmem := memset (pmem s) d 0 PAGE_SIZE\<rparr>"
  have d: "page_aligned d" "d \<notin> mm_free s"
    using b by (auto simp: boot_ok_def d_def)
  note D = empty_directory [OF d, folded s0_def]
  have b0: "boot_ok L s0"
    using b by (simp add: boot_ok_def D(3))
  obtain s1 F1 where c1: "create_identical_mapping L s0 = Some s1"
    and p1: "pgtables s1 d F1" and f1: "mm_free s1 \<subseteq> mm_free s" "F1 \<subseteq> {d} \<union> (mm_free s - mm_free s1)"
    and k1: "card (mm_free s) \<le> card (mm_free s1) + 516"
    and m1: "\<And>a. aligned8 a \<Longrightarrow> pg a \<notin> {d} \<Longrightarrow> pg a \<notin> mm_free s \<Longrightarrow> ld64 (pmem s1) a = ld64 (pmem s0) a"
    and t1: "\<And>va. unat va < 2 ^ 48 \<Longrightarrow> translate (pmem s1) d va =
      (if text_boot L AND PAGE_MASK \<le> va \<and> va < PAGE_BALIGN (etext L) then Some (va, attrs PAGE_KERNNEL_ROX)
       else if PAGE_BALIGN (etext L) \<le> va \<and> va < TOTAL_MEMORY then Some (va, attrs PAGE_KERNEL) else None)"
    using create_identical_mapping_spec [OF D(1) [unfolded d_def] b0 D(2) [unfolded d_def]]
    unfolding D(3) d_def by blast
  have bd: "PAGE_BALIGN (etext L) < TOTAL_MEMORY" "534 \<le> card (mm_free s)"
    using b by (auto simp: boot_ok_def)
  have tm: "TOTAL_MEMORY < PBASE"
    by (simp add: yios_consts)
  obtain s2 F2 where c2: "create_pgd_mapping d PBASE PBASE DEVICE_SIZE PROT_DEVICE_nGnRnE early_pgtable_alloc 0 s1 = Some s2"
    and p2: "pgtables s2 d F2" and f2: "mm_free s2 \<subseteq> mm_free s1" "F2 \<subseteq> F1 \<union> (mm_free s1 - mm_free s2)"
    and k2: "card (mm_free s1) \<le> card (mm_free s2) + 18"
    and m2: "\<And>a. aligned8 a \<Longrightarrow> pg a \<notin> F1 \<Longrightarrow> pg a \<notin> mm_free s1 \<Longrightarrow> ld64 (pmem s2) a = ld64 (pmem s1) a"
    and t2: "\<And>va. unat va < 2 ^ 48 \<Longrightarrow> translate (pmem s2) d va =
      (if PBASE \<le> va \<and> va < PBASE + DEVICE_SIZE then Some (va, attrs PROT_DEVICE_nGnRnE) else translate (pmem s1) d va)"
  proof (rule ident_step [OF p1 PBASE_end(2), of PROT_DEVICE_nGnRnE 18 0, unfolded PBASE_end])
    show "translate (pmem s1) d va = None" if v: "PBASE \<le> va" "va < PBASE + DEVICE_SIZE" for va
    proof -
      have "unat va < 2 ^ 48"
        using v(2) by (simp add: word_less_nat_alt PBASE_end(3))
      moreover have "\<not> va < TOTAL_MEMORY" "\<not> va < PAGE_BALIGN (etext L)"
        using v(1) tm bd(1) by auto
      ultimately show ?thesis
        by (simp add: t1)
    qed
  qed (use need_device k1 bd in simp_all)
  show thesis
  proof (rule that [of s2])
    show "paging_init L (s, r, out) = Some (s2, snd (enable_mmu L (cpu_init r)), out @ [(''enable mmu done\<newline>'', [])])"
      using c1 c2 by (simp add: paging_init_def create_mmio_mapping_def s0_def d_def)
    show "translate (pmem s2) (idmap_pg_dir L) va = kernel_space L va" if "unat va < 2 ^ 48" for va
    proof -
      have "\<not> PBASE \<le> va" if "va < TOTAL_MEMORY"
        using that tm by auto
      moreover have "va < TOTAL_MEMORY" if "va < PAGE_BALIGN (etext L)"
        using that bd(1) by (rule less_trans)
      ultimately show ?thesis
        unfolding d_def [symmetric] t2 [OF that] t1 [OF that] kernel_space_def by auto
    qed
    show "\<exists>F. pgtables s2 (idmap_pg_dir L) F \<and> F \<subseteq> insert (idmap_pg_dir L) (mm_free s)"
      using p2 f1 f2 unfolding d_def by blast
    show "ld64 (pmem s2) a = ld64 (pmem s) a"
      if a: "aligned8 a" "pg a \<noteq> idmap_pg_dir L" "pg a \<notin> mm_free s" for a
    proof -
      have "pg a \<notin> F1" "pg a \<notin> mm_free s1" "pg a \<notin> {d}"
        using a f1 by (auto simp: d_def)
      with a m1 m2 D(4) show ?thesis
        by (simp add: d_def)
    qed
    show "mm_free s2 \<subseteq> mm_free s"
      using f1 f2 by blast
    show "card (mm_free s) \<le> card (mm_free s2) + 534"
      using k1 k2 by linarith
  qed
qed

text \<open>The MAIR byte that the attribute index of a descriptor selects.\<close>

definition mair_attr :: "sysregs \<Rightarrow> u64 \<Rightarrow> u64" where
  "mair_attr r prot = drop_bit (8 * unat (drop_bit 2 (prot AND PTE_ATTRINDX_MASK))) (mair_el1 r) AND 0xff"

section \<open>Properties\<close>

lemma attrs_kernel:
  "attrs PAGE_KERNNEL_ROX = 0x40000000000790 OR 0x80000000000000"
  "attrs PAGE_KERNEL = 0xE8000000000710" "attrs PROT_DEVICE_nGnRnE = 0xE8000000000700"
  by (simp_all add: attrs_def yios_consts PTE_ATTRINDX_def PTE_ADDR_MASK_def PAGE_SHIFT_def)

text \<open>
  A concrete boot: the image at \<open>0x80000\<close> as in the linker script, memory that is all zero and an
  allocator with every page free.
\<close>

definition boot_layout :: layout where
  "boot_layout = \<lparr>text_boot = 0x80000, etext = 0x8a123, idmap_pg_dir = 0x90000\<rparr>"

definition boot_mm :: mmstate where
  "boot_mm = \<lparr>pmem = (\<lambda>_. 0), mmap = (\<lambda>_. 0)\<rparr>"

definition boot_regs :: sysregs where
  "boot_regs = \<lparr>cpacr_el1 = 0, mdscr_el1 = 0, mair_el1 = 0, tcr_el1 = 0,
      ttbr0_el1 = 0, sctlr_el1 = 0, id_aa64mmfr0_el1 = 0\<rparr>"

lemma boot_mm_free [simp]: "card (mm_free boot_mm) = 131072"
  by (simp add: mm_free_def boot_mm_def)

lemma boot_mm_low: "unat d < 0x400000 \<Longrightarrow> d \<notin> mm_free boot_mm"
  using free_pages_props(2) [of d "mmap boot_mm"] by (auto simp: mm_free_def)

lemma boot_mm_ok: "boot_ok boot_layout boot_mm"
  by (simp add: boot_ok_def boot_layout_def boot_mm_low yios_consts PAGE_BALIGN_def BALIGN_def
      round_mask_def page_aligned_def)

lemma ld64_zero [simp]: "ld64 (\<lambda>_. 0) a = 0"
  by (rule bit_eqI) (simp add: bit_ld_bytes)

lemma boot_mm_empty: "page_aligned d \<Longrightarrow> unat d < 0x400000 \<Longrightarrow> pgtables boot_mm d {d}"
  using tbl_empty(1) [of "view boot_mm" d 3] boot_mm_low [of d]
  by (simp add: pgtables_def view_def boot_mm_def)

lemma boot_mm_unmapped: "translate (pmem boot_mm) d va = None"
  using tbl_empty(2) [of "view boot_mm" d 3 va] by (simp add: translate_def view_def boot_mm_def)

text \<open>
  C1: \<^verbatim>\<open>__create_pgd_mapping\<close> refines the abstract operation \<open>map_range\<close>. On well-formed tables, for a
  non-empty request within 48 bits that is not mapped yet and for which pages are left, it
  returns; afterwards the tables are well-formed, every address of the page-rounded range
  translates to its physical counterpart with the requested attributes, every other address
  translates as before, and memory outside the tables and the allocator's free pages is unchanged.
\<close>

theorem create_pgd_mapping_refines:
  assumes "pgtables s pgdir F" and "mappable s phys virt sz prot"
    and "\<forall>va. in_range virt sz va \<longrightarrow> translate (pmem s) pgdir va = None"
  shows "\<exists>s' F'. create_pgd_mapping pgdir phys virt sz prot early_pgtable_alloc flags s = Some s' \<and>
    pgtables s' pgdir F' \<and>
    (\<forall>va. unat va < 2 ^ 48 \<longrightarrow>
       translate (pmem s') pgdir va = map_range phys virt sz prot (translate (pmem s) pgdir) va) \<and>
    (\<forall>a. aligned8 a \<and> pg a \<notin> F \<and> pg a \<notin> mm_free s \<longrightarrow> ld64 (pmem s') a = ld64 (pmem s) a)"
proof (rule create_pgd_mapping_spec [OF assms(1,2), where flags = flags], goal_cases)
  case (1 va)
  then show ?case using assms(3) by blast
next
  case (2 s' F')
  then show ?case by blast
qed

lemma witness_request: "mappable boot_mm 0x7ff000 0x400123 0x300000 PAGE_KERNEL"
  by (simp add: mappable_def lo_page_def hi_page_def need_3)

theorem create_pgd_mapping_refines_witness:
  "\<exists>s'. create_pgd_mapping 0x90000 0x7ff000 0x400123 0x300000 PAGE_KERNEL early_pgtable_alloc 0 boot_mm = Some s' \<and>
    translate (pmem s') 0x90000 0x400fff = Some (0x7fffff, attrs PAGE_KERNEL) \<and>
    translate (pmem s') 0x90000 0x701000 = None"
proof -
  have "pgtables boot_mm 0x90000 {0x90000}"
    by (rule boot_mm_empty) (simp_all add: page_aligned_def)
  from create_pgd_mapping_refines [OF this witness_request, of 0] obtain s' where
    c: "create_pgd_mapping 0x90000 0x7ff000 0x400123 0x300000 PAGE_KERNEL early_pgtable_alloc 0 boot_mm = Some s'"
    and t: "\<And>va. unat va < 2 ^ 48 \<Longrightarrow> translate (pmem s') 0x90000 va =
      map_range 0x7ff000 0x400123 0x300000 PAGE_KERNEL (translate (pmem boot_mm) 0x90000) va"
    using boot_mm_unmapped by blast
  from c t [of "0x400fff"] t [of "0x701000"] show ?thesis
    by (simp add: map_range_def in_range_def lo_page_def hi_page_def PAGE_MASK_def PAGE_SIZE_def boot_mm_unmapped)
qed

text \<open>
  C2: After \<^verbatim>\<open>paging_init\<close> the tables at \<^verbatim>\<open>idmap_pg_dir\<close> give exactly the kernel's address space: the
  text segment identity-mapped read-only and executable, memory from the end of the text to
  \<^verbatim>\<open>TOTAL_MEMORY\<close> identity-mapped writable, the peripherals as device memory, nothing else. The
  table pages come from the allocator, and no other memory changes.
\<close>

theorem paging_init_address_space:
  assumes "boot_ok L s"
  shows "\<exists>s' r'. paging_init L (s, r, out) = Some (s', r', out @ [(''enable mmu done\<newline>'', [])]) \<and>
    (\<forall>va. unat va < 2 ^ 48 \<longrightarrow> translate (pmem s') (idmap_pg_dir L) va = kernel_space L va) \<and>
    (\<exists>F. pgtables s' (idmap_pg_dir L) F \<and> F \<subseteq> insert (idmap_pg_dir L) (mm_free s)) \<and>
    (\<forall>a. aligned8 a \<and> pg a \<noteq> idmap_pg_dir L \<and> pg a \<notin> mm_free s \<longrightarrow> ld64 (pmem s') a = ld64 (pmem s) a)"
  using paging_init_spec [OF assms, of r out] by metis

theorem paging_init_address_space_witness:
  "\<exists>s' r'. paging_init boot_layout (boot_mm, boot_regs, []) = Some (s', r', [(''enable mmu done\<newline>'', [])]) \<and>
    translate (pmem s') 0x90000 0x8a123 = Some (0x8a123, attrs PAGE_KERNNEL_ROX) \<and>
    translate (pmem s') 0x90000 0x1fffffff = Some (0x1fffffff, attrs PAGE_KERNEL) \<and>
    translate (pmem s') 0x90000 0xfe201000 = Some (0xfe201000, attrs PROT_DEVICE_nGnRnE) \<and>
    translate (pmem s') 0x90000 0 = None"
proof -
  obtain s' r' where c: "paging_init boot_layout (boot_mm, boot_regs, []) = Some (s', r', [(''enable mmu done\<newline>'', [])])"
    and t: "\<And>va. unat va < 2 ^ 48 \<Longrightarrow> translate (pmem s') (idmap_pg_dir boot_layout) va = kernel_space boot_layout va"
    using paging_init_address_space [OF boot_mm_ok, of boot_regs "[]"] by auto
  from c t [of "0x8a123"] t [of "0x1fffffff"] t [of "0xfe201000"] t [of 0] show ?thesis
    by (simp add: kernel_space_def boot_layout_def yios_consts PAGE_MASK_def PAGE_BALIGN_def BALIGN_def round_mask_def)
qed

text \<open>
  C11: Write xor execute: under the tables \<^verbatim>\<open>paging_init\<close> builds, every mapped address is
  identity-mapped, nothing is executable at EL0, and an address whose attributes do not make it
  read-only is not executable at EL1 either.
\<close>

theorem paging_init_write_xor_execute:
  assumes "boot_ok L s"
  shows "\<exists>s' r' out'. paging_init L (s, r, out) = Some (s', r', out') \<and>
    (\<forall>va pa at. unat va < 2 ^ 48 \<and> translate (pmem s') (idmap_pg_dir L) va = Some (pa, at) \<longrightarrow>
       pa = va \<and> (at AND PTE_RDONLY = 0 \<longrightarrow> at AND PTE_PXN \<noteq> 0) \<and> at AND PTE_UXN \<noteq> 0)"
proof -
  have "pa = va \<and> (at AND PTE_RDONLY = 0 \<longrightarrow> at AND PTE_PXN \<noteq> 0) \<and> at AND PTE_UXN \<noteq> 0"
    if "kernel_space L va = Some (pa, at)" for va pa at
    using that attrs_kernel unfolding kernel_space_def
    by (auto simp: PTE_PXN_def PTE_UXN_def PTE_RDONLY_def PTE_WRITE_def PTE_DBM_def split: if_splits)
  then show ?thesis
    using paging_init_spec [OF assms, of r out] by metis
qed

theorem paging_init_write_xor_execute_witness:
  "\<exists>s' r' out'. paging_init boot_layout (boot_mm, boot_regs, []) = Some (s', r', out') \<and>
    (\<forall>pa at. translate (pmem s') 0x90000 0x100000 = Some (pa, at) \<longrightarrow>
       pa = 0x100000 \<and> at AND PTE_UXN \<noteq> 0 \<and> (at AND PTE_RDONLY = 0 \<longrightarrow> at AND PTE_PXN \<noteq> 0))"
proof -
  have "unat (0x100000 :: u64) < 2 ^ 48" and "idmap_pg_dir boot_layout = 0x90000"
    by (simp_all add: boot_layout_def)
  with paging_init_write_xor_execute [OF boot_mm_ok, of boot_regs "[]"] show ?thesis
    by metis
qed

text \<open>
  C36: \<^verbatim>\<open>paging_init\<close> discards the result of \<^verbatim>\<open>enable_mmu\<close>: on a core without 4 KB granules (a TGRAN4
  field other than 0) neither \<^verbatim>\<open>ttbr0_el1\<close> nor \<^verbatim>\<open>sctlr_el1\<close> is written, the MMU stays as it was, and
  the message that it is enabled is printed all the same.
\<close>

theorem paging_init_ignores_enable_failure:
  assumes "boot_ok L s" and "drop_bit 28 (id_aa64mmfr0_el1 r) AND 0xf \<noteq> 0"
  shows "fst (enable_mmu L (cpu_init r)) = - 1 \<and>
    (\<exists>s' r'. paging_init L (s, r, out) = Some (s', r', out @ [(''enable mmu done\<newline>'', [])]) \<and>
      sctlr_el1 r' = sctlr_el1 r \<and> ttbr0_el1 r' = ttbr0_el1 r)"
proof -
  have f: "enable_mmu L (cpu_init r) = (- 1, cpu_init r)"
    using assms(2) by (simp add: enable_mmu_def Let_def yios_consts cpu_init_def)
  have "sctlr_el1 (cpu_init r) = sctlr_el1 r" and "ttbr0_el1 (cpu_init r) = ttbr0_el1 r"
    by (simp_all add: cpu_init_def Let_def)
  with f show ?thesis
    using paging_init_spec [OF assms(1), of r out] by (metis fst_conv snd_conv)
qed

theorem paging_init_ignores_enable_failure_witness:
  "\<exists>s' r'. paging_init boot_layout (boot_mm, boot_regs\<lparr>id_aa64mmfr0_el1 := 0xf0000000\<rparr>, []) =
      Some (s', r', [(''enable mmu done\<newline>'', [])]) \<and> sctlr_el1 r' = 0"
  using paging_init_ignores_enable_failure [OF boot_mm_ok, of "boot_regs\<lparr>id_aa64mmfr0_el1 := 0xf0000000\<rparr>" "[]"]
  by (auto simp: boot_regs_def)

end
