(* ===== verification/Tcr_Fields.thy ===== *)
theory Tcr_Fields
  imports Mmu_Boot
begin

text \<open>
  The rest of \<^verbatim>\<open>asm/pgtable_hwdef.h\<close> and \<^verbatim>\<open>asm/pgtable_prot.h\<close>: the fields of the translation control register, of
  section descriptors and of the memory model feature register, and the protections the kernel
  does not use yet. With them the values that \<^verbatim>\<open>cpu_init\<close> writes are read field by field.
\<close>

section \<open>Descriptors\<close>

definition PTE_SIZE :: u64 where [yios_consts]: "PTE_SIZE = push_bit PTE_SHIFT 1"
definition PTE_MASK :: u64 where [yios_consts]: "PTE_MASK = NOT (PTE_SIZE - 1)"
definition PUD_TABLE_BIT :: u64 where [yios_consts]: "PUD_TABLE_BIT = push_bit 1 1"
definition PMD_TYPE_FAULT :: u64 where [yios_consts]: "PMD_TYPE_FAULT = push_bit 0 0"
definition PMD_TABLE_BIT :: u64 where [yios_consts]: "PMD_TABLE_BIT = push_bit 1 1"
definition PMD_SECT_VALID :: u64 where [yios_consts]: "PMD_SECT_VALID = push_bit 0 1"
definition PMD_SECT_USER :: u64 where [yios_consts]: "PMD_SECT_USER = push_bit 6 1"
definition PMD_SECT_RDONLY :: u64 where [yios_consts]: "PMD_SECT_RDONLY = push_bit 7 1"
definition PMD_SECT_S :: u64 where [yios_consts]: "PMD_SECT_S = push_bit 8 3"
definition PMD_SECT_AF :: u64 where [yios_consts]: "PMD_SECT_AF = push_bit 10 1"
definition PMD_SECT_NG :: u64 where [yios_consts]: "PMD_SECT_NG = push_bit 11 1"
definition PMD_SECT_CONT :: u64 where [yios_consts]: "PMD_SECT_CONT = push_bit 52 1"
definition PMD_SECT_PXN :: u64 where [yios_consts]: "PMD_SECT_PXN = push_bit 53 1"
definition PMD_SECT_UXN :: u64 where [yios_consts]: "PMD_SECT_UXN = push_bit 54 1"
definition PMD_ATTRINDX :: "u64 \<Rightarrow> u64" where "PMD_ATTRINDX t = push_bit 2 t"
definition PMD_ATTRINDX_MASK :: u64 where [yios_consts]: "PMD_ATTRINDX_MASK = push_bit 2 7"
definition PTE_TYPE_MASK :: u64 where [yios_consts]: "PTE_TYPE_MASK = push_bit 0 3"
definition PTE_TYPE_FAULT :: u64 where [yios_consts]: "PTE_TYPE_FAULT = push_bit 0 0"
definition PTE_HYP_XN :: u64 where [yios_consts]: "PTE_HYP_XN = push_bit 54 1"
definition PTE_ADDR_LOW :: u64 where [yios_consts]: "PTE_ADDR_LOW = push_bit PAGE_SHIFT ((push_bit (48 - PAGE_SHIFT) 1) - 1)"

definition PTE_SPECIAL :: u64 where [yios_consts]: "PTE_SPECIAL = push_bit 56 1"
definition PROT_DEVICE_nGnRE :: u64 where [yios_consts]:
  "PROT_DEVICE_nGnRE =
     PROT_DEFAULT OR PTE_PXN OR PTE_UXN OR PTE_DIRTY OR PTE_WRITE OR (PTE_ATTRINDX MT_DEVICE_nGnRE)"
definition PROT_NORMAL_NC :: u64 where [yios_consts]:
  "PROT_NORMAL_NC =
     PROT_DEFAULT OR PTE_PXN OR PTE_UXN OR PTE_DIRTY OR PTE_WRITE OR (PTE_ATTRINDX MT_NORMAL_NC)"
definition PROT_NORMAL_WT :: u64 where [yios_consts]:
  "PROT_NORMAL_WT =
     PROT_DEFAULT OR PTE_PXN OR PTE_UXN OR PTE_DIRTY OR PTE_WRITE OR (PTE_ATTRINDX MT_NORMAL_WT)"

section \<open>The translation control register\<close>

definition TCR_T0SZ_OFFSET :: nat where [yios_consts]: "TCR_T0SZ_OFFSET = 0"
definition TCR_T1SZ_OFFSET :: nat where [yios_consts]: "TCR_T1SZ_OFFSET = 16"
definition TCR_TxSZ_WIDTH :: nat where [yios_consts]: "TCR_TxSZ_WIDTH = 6"
definition TCR_T0SZ_MASK :: u64 where [yios_consts]: "TCR_T0SZ_MASK = push_bit TCR_T0SZ_OFFSET ((push_bit TCR_TxSZ_WIDTH 1) - 1)"
definition TCR_EPD0_SHIFT :: nat where [yios_consts]: "TCR_EPD0_SHIFT = 7"
definition TCR_EPD0_MASK :: u64 where [yios_consts]: "TCR_EPD0_MASK = push_bit TCR_EPD0_SHIFT 1"
definition TCR_IRGN0_SHIFT :: nat where [yios_consts]: "TCR_IRGN0_SHIFT = 8"
definition TCR_IRGN0_MASK :: u64 where [yios_consts]: "TCR_IRGN0_MASK = push_bit TCR_IRGN0_SHIFT 3"
definition TCR_IRGN0_NC :: u64 where [yios_consts]: "TCR_IRGN0_NC = push_bit TCR_IRGN0_SHIFT 0"
definition TCR_IRGN0_WBWA :: u64 where [yios_consts]: "TCR_IRGN0_WBWA = push_bit TCR_IRGN0_SHIFT 1"
definition TCR_IRGN0_WT :: u64 where [yios_consts]: "TCR_IRGN0_WT = push_bit TCR_IRGN0_SHIFT 2"
definition TCR_IRGN0_WBnWA :: u64 where [yios_consts]: "TCR_IRGN0_WBnWA = push_bit TCR_IRGN0_SHIFT 3"
definition TCR_EPD1_SHIFT :: nat where [yios_consts]: "TCR_EPD1_SHIFT = 23"
definition TCR_EPD1_MASK :: u64 where [yios_consts]: "TCR_EPD1_MASK = push_bit TCR_EPD1_SHIFT 1"
definition TCR_IRGN1_SHIFT :: nat where [yios_consts]: "TCR_IRGN1_SHIFT = 24"
definition TCR_IRGN1_MASK :: u64 where [yios_consts]: "TCR_IRGN1_MASK = push_bit TCR_IRGN1_SHIFT 3"
definition TCR_IRGN1_NC :: u64 where [yios_consts]: "TCR_IRGN1_NC = push_bit TCR_IRGN1_SHIFT 0"
definition TCR_IRGN1_WBWA :: u64 where [yios_consts]: "TCR_IRGN1_WBWA = push_bit TCR_IRGN1_SHIFT 1"
definition TCR_IRGN1_WT :: u64 where [yios_consts]: "TCR_IRGN1_WT = push_bit TCR_IRGN1_SHIFT 2"
definition TCR_IRGN1_WBnWA :: u64 where [yios_consts]: "TCR_IRGN1_WBnWA = push_bit TCR_IRGN1_SHIFT 3"
definition TCR_IRGN_NC :: u64 where [yios_consts]: "TCR_IRGN_NC = TCR_IRGN0_NC OR TCR_IRGN1_NC"
definition TCR_IRGN_WBWA :: u64 where [yios_consts]: "TCR_IRGN_WBWA = TCR_IRGN0_WBWA OR TCR_IRGN1_WBWA"
definition TCR_IRGN_WT :: u64 where [yios_consts]: "TCR_IRGN_WT = TCR_IRGN0_WT OR TCR_IRGN1_WT"
definition TCR_IRGN_WBnWA :: u64 where [yios_consts]: "TCR_IRGN_WBnWA = TCR_IRGN0_WBnWA OR TCR_IRGN1_WBnWA"
definition TCR_IRGN_MASK :: u64 where [yios_consts]: "TCR_IRGN_MASK = TCR_IRGN0_MASK OR TCR_IRGN1_MASK"
definition TCR_ORGN0_SHIFT :: nat where [yios_consts]: "TCR_ORGN0_SHIFT = 10"
definition TCR_ORGN0_MASK :: u64 where [yios_consts]: "TCR_ORGN0_MASK = push_bit TCR_ORGN0_SHIFT 3"
definition TCR_ORGN0_NC :: u64 where [yios_consts]: "TCR_ORGN0_NC = push_bit TCR_ORGN0_SHIFT 0"
definition TCR_ORGN0_WBWA :: u64 where [yios_consts]: "TCR_ORGN0_WBWA = push_bit TCR_ORGN0_SHIFT 1"
definition TCR_ORGN0_WT :: u64 where [yios_consts]: "TCR_ORGN0_WT = push_bit TCR_ORGN0_SHIFT 2"
definition TCR_ORGN0_WBnWA :: u64 where [yios_consts]: "TCR_ORGN0_WBnWA = push_bit TCR_ORGN0_SHIFT 3"
definition TCR_ORGN1_SHIFT :: nat where [yios_consts]: "TCR_ORGN1_SHIFT = 26"
definition TCR_ORGN1_MASK :: u64 where [yios_consts]: "TCR_ORGN1_MASK = push_bit TCR_ORGN1_SHIFT 3"
definition TCR_ORGN1_NC :: u64 where [yios_consts]: "TCR_ORGN1_NC = push_bit TCR_ORGN1_SHIFT 0"
definition TCR_ORGN1_WBWA :: u64 where [yios_consts]: "TCR_ORGN1_WBWA = push_bit TCR_ORGN1_SHIFT 1"
definition TCR_ORGN1_WT :: u64 where [yios_consts]: "TCR_ORGN1_WT = push_bit TCR_ORGN1_SHIFT 2"
definition TCR_ORGN1_WBnWA :: u64 where [yios_consts]: "TCR_ORGN1_WBnWA = push_bit TCR_ORGN1_SHIFT 3"
definition TCR_ORGN_NC :: u64 where [yios_consts]: "TCR_ORGN_NC = TCR_ORGN0_NC OR TCR_ORGN1_NC"
definition TCR_ORGN_WBWA :: u64 where [yios_consts]: "TCR_ORGN_WBWA = TCR_ORGN0_WBWA OR TCR_ORGN1_WBWA"
definition TCR_ORGN_WT :: u64 where [yios_consts]: "TCR_ORGN_WT = TCR_ORGN0_WT OR TCR_ORGN1_WT"
definition TCR_ORGN_WBnWA :: u64 where [yios_consts]: "TCR_ORGN_WBnWA = TCR_ORGN0_WBnWA OR TCR_ORGN1_WBnWA"
definition TCR_ORGN_MASK :: u64 where [yios_consts]: "TCR_ORGN_MASK = TCR_ORGN0_MASK OR TCR_ORGN1_MASK"
definition TCR_SH0_SHIFT :: nat where [yios_consts]: "TCR_SH0_SHIFT = 12"
definition TCR_SH0_MASK :: u64 where [yios_consts]: "TCR_SH0_MASK = push_bit TCR_SH0_SHIFT 3"
definition TCR_SH0_INNER :: u64 where [yios_consts]: "TCR_SH0_INNER = push_bit TCR_SH0_SHIFT 3"
definition TCR_SH1_SHIFT :: nat where [yios_consts]: "TCR_SH1_SHIFT = 28"
definition TCR_SH1_MASK :: u64 where [yios_consts]: "TCR_SH1_MASK = push_bit TCR_SH1_SHIFT 3"
definition TCR_SH1_INNER :: u64 where [yios_consts]: "TCR_SH1_INNER = push_bit TCR_SH1_SHIFT 3"
definition TCR_SHARED :: u64 where [yios_consts]: "TCR_SHARED = TCR_SH0_INNER OR TCR_SH1_INNER"
definition TCR_TG0_SHIFT :: nat where [yios_consts]: "TCR_TG0_SHIFT = 14"
definition TCR_TG0_MASK :: u64 where [yios_consts]: "TCR_TG0_MASK = push_bit TCR_TG0_SHIFT 3"
definition TCR_TG0_64K :: u64 where [yios_consts]: "TCR_TG0_64K = push_bit TCR_TG0_SHIFT 1"
definition TCR_TG0_16K :: u64 where [yios_consts]: "TCR_TG0_16K = push_bit TCR_TG0_SHIFT 2"
definition TCR_TG1_SHIFT :: nat where [yios_consts]: "TCR_TG1_SHIFT = 30"
definition TCR_TG1_MASK :: u64 where [yios_consts]: "TCR_TG1_MASK = push_bit TCR_TG1_SHIFT 3"
definition TCR_TG1_16K :: u64 where [yios_consts]: "TCR_TG1_16K = push_bit TCR_TG1_SHIFT 1"
definition TCR_TG1_64K :: u64 where [yios_consts]: "TCR_TG1_64K = push_bit TCR_TG1_SHIFT 3"
definition TCR_IPS_MASK :: u64 where [yios_consts]: "TCR_IPS_MASK = push_bit TCR_IPS_SHIFT 7"
definition TCR_A1 :: u64 where [yios_consts]: "TCR_A1 = push_bit 22 1"
definition TCR_ASID16 :: u64 where [yios_consts]: "TCR_ASID16 = push_bit 36 1"
definition TCR_TBI0 :: u64 where [yios_consts]: "TCR_TBI0 = push_bit 37 1"
definition TCR_TBI1 :: u64 where [yios_consts]: "TCR_TBI1 = push_bit 38 1"
definition TCR_HA :: u64 where [yios_consts]: "TCR_HA = push_bit 39 1"
definition TCR_HD :: u64 where [yios_consts]: "TCR_HD = push_bit 40 1"
definition TCR_NFD1 :: u64 where [yios_consts]: "TCR_NFD1 = push_bit 54 1"
definition TCR_KASLR_FLAGS :: u64 where [yios_consts]: "TCR_KASLR_FLAGS = 0"
definition TCR_KASAN_FLAGS :: u64 where [yios_consts]: "TCR_KASAN_FLAGS = 0"
definition TCR_SMP_FLAGS :: u64 where [yios_consts]: "TCR_SMP_FLAGS = TCR_SHARED"
definition TCR_CACHE_FLAGS :: u64 where [yios_consts]: "TCR_CACHE_FLAGS = TCR_IRGN_WBWA OR TCR_ORGN_WBWA"

section \<open>The memory model feature register\<close>

definition ID_AA64MMFR0_TGRAN64_SHIFT :: nat where [yios_consts]: "ID_AA64MMFR0_TGRAN64_SHIFT = 24"
definition ID_AA64MMFR0_TGRAN16_SHIFT :: nat where [yios_consts]: "ID_AA64MMFR0_TGRAN16_SHIFT = 20"
definition ID_AA64MMFR0_BIGENDEL0_SHIFT :: nat where [yios_consts]: "ID_AA64MMFR0_BIGENDEL0_SHIFT = 16"
definition ID_AA64MMFR0_SNSMEM_SHIFT :: nat where [yios_consts]: "ID_AA64MMFR0_SNSMEM_SHIFT = 12"
definition ID_AA64MMFR0_BIGENDEL_SHIFT :: nat where [yios_consts]: "ID_AA64MMFR0_BIGENDEL_SHIFT = 8"
definition ID_AA64MMFR0_ASID_SHIFT :: nat where [yios_consts]: "ID_AA64MMFR0_ASID_SHIFT = 4"
definition ID_AA64MMFR0_PARANGE_SHIFT :: nat where [yios_consts]: "ID_AA64MMFR0_PARANGE_SHIFT = 0"
definition ID_AA64MMFR0_TGRAN4_NI :: u64 where [yios_consts]: "ID_AA64MMFR0_TGRAN4_NI = 0xf"
definition ID_AA64MMFR0_TGRAN64_NI :: u64 where [yios_consts]: "ID_AA64MMFR0_TGRAN64_NI = 0xf"
definition ID_AA64MMFR0_TGRAN64_SUPPORTED :: u64 where [yios_consts]: "ID_AA64MMFR0_TGRAN64_SUPPORTED = 0x0"
definition ID_AA64MMFR0_TGRAN16_NI :: u64 where [yios_consts]: "ID_AA64MMFR0_TGRAN16_NI = 0x0"
definition ID_AA64MMFR0_TGRAN16_SUPPORTED :: u64 where [yios_consts]: "ID_AA64MMFR0_TGRAN16_SUPPORTED = 0x1"
definition ID_AA64MMFR0_PARANGE_52 :: u64 where [yios_consts]: "ID_AA64MMFR0_PARANGE_52 = 0x6"

section \<open>Layout\<close>

text \<open>
  A section descriptor has the attributes of a page descriptor in the same places, which is why
  \<^verbatim>\<open>mk_sect_prot\<close> only has to clear the table bit.
\<close>

lemma section_bits:
  "PMD_SECT_VALID = PTE_VALID" "PMD_SECT_USER = PTE_USER" "PMD_SECT_RDONLY = PTE_RDONLY" "PMD_SECT_S = PTE_SHARED"
  "PMD_SECT_AF = PTE_AF" "PMD_SECT_NG = PTE_NG" "PMD_SECT_CONT = PTE_CONT" "PMD_SECT_PXN = PTE_PXN" "PMD_SECT_UXN = PTE_UXN"
  "PMD_ATTRINDX_MASK = PTE_ATTRINDX_MASK" "PTE_ADDR_LOW = PTE_ADDR_MASK" "PTE_HYP_XN = PTE_UXN"
  by (simp_all add: yios_consts PTE_ADDR_MASK_def)

lemma section_keeps_attributes:
  assumes "m \<in> {PMD_SECT_VALID, PMD_SECT_USER, PMD_SECT_RDONLY, PMD_SECT_S, PMD_SECT_AF, PMD_SECT_NG, PMD_SECT_CONT, PMD_SECT_PXN,
    PMD_SECT_UXN, PMD_ATTRINDX_MASK}"
  shows "mk_sect_prot prot AND m = prot AND m" and "mk_sect_prot prot AND PMD_TABLE_BIT = 0"
proof -
  have "NOT PTE_TABLE_BIT AND m = m"
    using assms by (auto simp: yios_consts)
  then show "mk_sect_prot prot AND m = prot AND m"
    by (simp add: mk_sect_prot_def and.assoc)
  show "mk_sect_prot prot AND PMD_TABLE_BIT = 0"
    by (simp add: mk_sect_prot_def and.assoc yios_consts)
qed

definition tcr_masks :: "u64 list" where
  "tcr_masks = [TCR_T0SZ_MASK, TCR_EPD0_MASK, TCR_IRGN0_MASK, TCR_ORGN0_MASK, TCR_SH0_MASK, TCR_TG0_MASK,
     push_bit TCR_T1SZ_OFFSET TCR_T0SZ_MASK, TCR_A1, TCR_EPD1_MASK, TCR_IRGN1_MASK, TCR_ORGN1_MASK, TCR_SH1_MASK, TCR_TG1_MASK,
     TCR_IPS_MASK, TCR_ASID16, TCR_TBI0, TCR_TBI1, TCR_HA, TCR_HD, TCR_NFD1]"

text \<open>The values of each field.\<close>

definition tcr_values :: "(u64 \<times> u64 list) list" where
  "tcr_values =
     [(TCR_IRGN0_MASK, [TCR_IRGN0_NC, TCR_IRGN0_WBWA, TCR_IRGN0_WT, TCR_IRGN0_WBnWA]),
      (TCR_IRGN1_MASK, [TCR_IRGN1_NC, TCR_IRGN1_WBWA, TCR_IRGN1_WT, TCR_IRGN1_WBnWA]),
      (TCR_IRGN_MASK, [TCR_IRGN_NC, TCR_IRGN_WBWA, TCR_IRGN_WT, TCR_IRGN_WBnWA]),
      (TCR_ORGN0_MASK, [TCR_ORGN0_NC, TCR_ORGN0_WBWA, TCR_ORGN0_WT, TCR_ORGN0_WBnWA]),
      (TCR_ORGN1_MASK, [TCR_ORGN1_NC, TCR_ORGN1_WBWA, TCR_ORGN1_WT, TCR_ORGN1_WBnWA]),
      (TCR_ORGN_MASK, [TCR_ORGN_NC, TCR_ORGN_WBWA, TCR_ORGN_WT, TCR_ORGN_WBnWA]),
      (TCR_SH0_MASK, [TCR_SH0_INNER]), (TCR_SH1_MASK, [TCR_SH1_INNER]),
      (TCR_TG0_MASK, [TCR_TG0_4K, TCR_TG0_64K, TCR_TG0_16K]), (TCR_TG1_MASK, [TCR_TG1_16K, TCR_TG1_4K, TCR_TG1_64K])]"

lemma tcr_masks_disjoint: "disjoint_masks tcr_masks"
  by (simp add: tcr_masks_def yios_consts)

lemma tcr_values_fit: "list_all (\<lambda>(m, vs). distinct vs \<and> list_all (\<lambda>v. v AND m = v) vs) tcr_values"
  by (simp add: tcr_values_def yios_consts)

text \<open>
  The feature register is made of nibbles; of the three granules the kernel asks for the 4 KB one, and a
  core that reports it as not implemented is refused.
\<close>

lemma mmfr0_nibbles:
  "distinct [ID_AA64MMFR0_TGRAN4_SHIFT, ID_AA64MMFR0_TGRAN64_SHIFT, ID_AA64MMFR0_TGRAN16_SHIFT, ID_AA64MMFR0_BIGENDEL0_SHIFT,
     ID_AA64MMFR0_SNSMEM_SHIFT, ID_AA64MMFR0_BIGENDEL_SHIFT, ID_AA64MMFR0_ASID_SHIFT, ID_AA64MMFR0_PARANGE_SHIFT]"
  "\<forall>s \<in> {ID_AA64MMFR0_TGRAN4_SHIFT, ID_AA64MMFR0_TGRAN64_SHIFT, ID_AA64MMFR0_TGRAN16_SHIFT, ID_AA64MMFR0_BIGENDEL0_SHIFT,
     ID_AA64MMFR0_SNSMEM_SHIFT, ID_AA64MMFR0_BIGENDEL_SHIFT, ID_AA64MMFR0_ASID_SHIFT, ID_AA64MMFR0_PARANGE_SHIFT}. 4 dvd s \<and> s < 32"
  by (simp_all add: yios_consts)

lemma enable_mmu_refuses:
  "drop_bit ID_AA64MMFR0_TGRAN4_SHIFT (id_aa64mmfr0_el1 r) AND 0xf = ID_AA64MMFR0_TGRAN4_NI \<Longrightarrow> enable_mmu L r = (- 1, r)"
  by (simp add: enable_mmu_def Let_def ID_AA64MMFR0_TGRAN4_NI_def ID_AA64MMFR0_TGRAN4_SUPPORTED_def)

section \<open>Property\<close>

lemma cpu_init_mair: "mair_el1 (cpu_init r) = 0xbbff440c0400"
  by (simp add: cpu_init_def Let_def MAIR_def yios_consts)

lemma cpu_init_tcr: "\<exists>k \<le> 5. (min 5 (id_aa64mmfr0_el1 r AND 0xf) :: u64) = of_nat k \<and> tcr_el1 (cpu_init r) = 0x80100010 OR push_bit 32 (of_nat k)"
proof -
  define p where "p = (min 5 (id_aa64mmfr0_el1 r AND 0xf) :: u64)"
  have "p \<le> 5"
    by (simp add: p_def)
  then have "unat p \<le> 5" "p = of_nat (unat p)"
    by (simp_all add: word_le_nat_alt of_nat_unat_64)
  moreover have "tcr_el1 (cpu_init r) = 0x80100010 OR push_bit 32 p"
    by (auto simp: p_def cpu_init_def Let_def TCR_TxSZ_def TCR_T0SZ_def TCR_T1SZ_def yios_consts min_def)
  ultimately show ?thesis
    unfolding p_def by metis
qed

text \<open>
  C34: The registers \<^verbatim>\<open>cpu_init\<close> writes agree with the descriptors. The memory type that the attribute index of
  a protection selects is normal write-back memory for the four kernel page protections, and the type its
  name says for the device, non-cacheable and write-through ones. The translation control asks for 48-bit addresses with 4 KB
  granules on both table bases and for the processor's physical address size, but at most 48 bits.
  Table walks are enabled, not cached and not shared, and every other field is zero.
\<close>

theorem cpu_init_agrees_with_descriptors:
  "mair_attr (cpu_init r) PAGE_KERNEL = 0xff \<and> mair_attr (cpu_init r) PAGE_KERNNEL_ROX = 0xff \<and>
   mair_attr (cpu_init r) PAGE_KERNEL_RO = 0xff \<and> mair_attr (cpu_init r) PAGE_KERNEL_EXEC = 0xff \<and>
   mair_attr (cpu_init r) PROT_DEVICE_nGnRnE = 0 \<and> mair_attr (cpu_init r) PROT_DEVICE_nGnRE = 0x04 \<and>
   mair_attr (cpu_init r) PROT_NORMAL_NC = 0x44 \<and> mair_attr (cpu_init r) PROT_NORMAL_WT = 0xbb \<and>
   (let tcr = tcr_el1 (cpu_init r) in
     tcr AND TCR_T0SZ_MASK = TCR_T0SZ (of_nat VA_BITS) \<and>
     tcr AND push_bit TCR_T1SZ_OFFSET TCR_T0SZ_MASK = TCR_T1SZ (of_nat VA_BITS) \<and>
     tcr AND TCR_TG0_MASK = TCR_TG0_4K \<and> tcr AND TCR_TG1_MASK = TCR_TG1_4K \<and>
     tcr AND TCR_IPS_MASK = push_bit TCR_IPS_SHIFT (min ID_AA64MMFR0_PARANGE_48 (id_aa64mmfr0_el1 r AND 0xf)) \<and>
     tcr AND (TCR_EPD0_MASK OR TCR_EPD1_MASK) = 0 \<and>
     tcr AND TCR_IRGN_MASK = TCR_IRGN_NC \<and> tcr AND TCR_ORGN_MASK = TCR_ORGN_NC \<and> tcr AND TCR_SHARED = 0 \<and>
     tcr AND (TCR_A1 OR TCR_ASID16 OR TCR_TBI0 OR TCR_TBI1 OR TCR_HA OR TCR_HD OR TCR_NFD1) = 0 \<and>
     tcr AND foldr (OR) tcr_masks 0 = tcr)"
proof -
  obtain k where k: "k \<le> 5" "(min 5 (id_aa64mmfr0_el1 r AND 0xf) :: u64) = of_nat k" "tcr_el1 (cpu_init r) = 0x80100010 OR push_bit 32 (of_nat k)"
    using cpu_init_tcr by blast
  have p: "(min ID_AA64MMFR0_PARANGE_48 (id_aa64mmfr0_el1 r AND 0xf) :: u64) = of_nat k"
    using k(2) by (simp add: ID_AA64MMFR0_PARANGE_48_def)
  have "k \<in> {0, 1, 2, 3, 4, 5}"
    using k(1) by auto
  then show ?thesis
    unfolding k(3) p Let_def
    by (elim insertE emptyE) (simp_all add: mair_attr_def cpu_init_mair tcr_masks_def TCR_T0SZ_def TCR_T1SZ_def yios_consts PTE_ATTRINDX_def)
qed

end
