(* ===== verification/Irq_Spec.thy ===== *)
theory Irq_Spec
  imports Irq Printk_Conv
begin

text \<open>
  What the interrupt code of \<open>Irq\<close> achieves: which interrupts are enabled after the driver's
  operations, in terms of the controller's enable registers, and the order of acknowledge, handler
  and end-of-interrupt.
\<close>

section \<open>Stepped loops\<close>

function steps :: "nat \<Rightarrow> nat \<Rightarrow> nat \<Rightarrow> nat list" where
  "steps i n d = (if i < n \<and> 0 < d then i # steps (i + d) n d else [])"
  by pat_completeness auto
termination by (relation "measure (\<lambda>(i, n, d). n - i)") auto

declare steps.simps [simp del]

lemma for_step_fold: "for_step i n d f s = fold f (steps i n d) s"
  by (induction i n d f s rule: for_step.induct) (simp add: for_step.simps [of _ _ _ f for f] steps.simps)

lemma steps_mem: "0 < d \<Longrightarrow> j \<in> set (steps i n d) \<longleftrightarrow> j < n \<and> (\<exists>k. j = i + k * d)"
proof (induction i n d rule: steps.induct)
  case (1 i n d)
  show ?case
  proof (cases "i < n")
    case False
    then have "steps i n d = []"
      by (simp add: steps.simps)
    with False show ?thesis by auto
  next
    case True
    have "(\<exists>k. j = i + k * d) \<longleftrightarrow> j = i \<or> (\<exists>k. j = i + d + k * d)"
    proof
      assume "\<exists>k. j = i + k * d"
      then obtain k where "j = i + k * d" by blast
      then show "j = i \<or> (\<exists>k. j = i + d + k * d)"
        by (cases k) auto
    next
      assume "j = i \<or> (\<exists>k. j = i + d + k * d)"
      then show "\<exists>k. j = i + k * d"
        by (auto intro: exI [of _ 0]) (metis add.assoc mult_Suc)
    qed
    then show ?thesis
      using 1 True by (auto simp: steps.simps [of i n d])
  qed
qed

lemma steps_lt: "j \<in> set (steps i n d) \<Longrightarrow> j < n"
proof (cases "d = 0")
  case True
  then show "j \<in> set (steps i n d) \<Longrightarrow> j < n"
    by (simp add: steps.simps [of i n 0])
next
  case False
  then show "j \<in> set (steps i n d) \<Longrightarrow> j < n"
    using steps_mem [of d j i n] by simp
qed

lemma fold_writel:
  "dev (fold (\<lambda>i. writel (v i) (a i)) xs s) = dev s" "ram (fold (\<lambda>i. writel (v i) (a i)) xs s) = ram s"
  "trace (fold (\<lambda>i. writel (v i) (a i)) xs s) = trace s @ map (\<lambda>i. Wr (a i) (v i)) xs"
  by (induction xs arbitrary: s) simp_all

lemma fold_writel2:
  "dev (fold (\<lambda>i s. writel v (b i) (writel v (a i) s)) xs s) = dev s"
  "ram (fold (\<lambda>i s. writel v (b i) (writel v (a i) s)) xs s) = ram s"
  "trace (fold (\<lambda>i s. writel v (b i) (writel v (a i) s)) xs s) = trace s @ concat (map (\<lambda>i. [Wr (a i) v, Wr (b i) v]) xs)"
  by (induction xs arbitrary: s) simp_all

section \<open>Enabled interrupts\<close>

abbreviation DIST :: u64 where "DIST \<equiv> GIC_V2_DISTRIBUTOR_BASE"
abbreviation CPUIF :: u64 where "CPUIF \<equiv> GIC_V2_CPU_INTERFACE_BASE"

definition enables :: "u64 \<Rightarrow> nat \<Rightarrow> io \<Rightarrow> bool" where
  "enables base j e = (case e of Wr a v \<Rightarrow> a = base + of_nat (0x100 + 4 * (j div 32)) \<and> bit v (j mod 32) | _ \<Rightarrow> False)"

definition disables :: "u64 \<Rightarrow> nat \<Rightarrow> io \<Rightarrow> bool" where
  "disables base j e = (case e of Wr a v \<Rightarrow> a = base + of_nat (0x180 + 4 * (j div 32)) \<and> bit v (j mod 32) | _ \<Rightarrow> False)"

definition gic_effect :: "u64 \<Rightarrow> nat \<Rightarrow> io \<Rightarrow> bool \<Rightarrow> bool" where
  "gic_effect base j e on = (if enables base j e then True else if disables base j e then False else on)"

definition gic_enabled :: "u64 \<Rightarrow> (nat \<Rightarrow> bool) \<Rightarrow> io list \<Rightarrow> nat \<Rightarrow> bool" where
  "gic_enabled base init tr j = fold (gic_effect base j) tr (init j)"

lemma gic_enabled_append: "gic_enabled base init (xs @ ys) j = fold (gic_effect base j) ys (gic_enabled base init xs j)"
  by (simp add: gic_enabled_def)

lemma effect_keep:
  "\<forall>e \<in> set es. \<not> enables base j e \<and> \<not> disables base j e \<Longrightarrow> fold (gic_effect base j) es on = on"
  by (induction es arbitrary: on) (simp_all add: gic_effect_def)

lemma effect_off:
  assumes "\<forall>e \<in> set es. \<not> enables base j e" and "\<exists>e \<in> set es. disables base j e"
  shows "fold (gic_effect base j) es on = False"
proof -
  have keep: "fold (gic_effect base j) xs False = False" if "\<forall>e \<in> set xs. \<not> enables base j e" for xs
    using that by (induction xs) (simp_all add: gic_effect_def)
  show ?thesis
    using assms
  proof (induction es arbitrary: on)
    case (Cons e es)
    show ?case
    proof (cases "disables base j e")
      case True
      then have "gic_effect base j e on = False"
        using Cons.prems by (simp add: gic_effect_def)
      then show ?thesis
        using keep [of es] Cons.prems by simp
    next
      case False
      then show ?thesis
        using Cons by (simp add: gic_effect_def)
    qed
  qed simp
qed

lemma off_eq [simp]:
  assumes "k < 2 ^ 32" and "l < 2 ^ 32"
  shows "(of_nat k :: u64) = of_nat l \<longleftrightarrow> k = l"
  using assms by (auto simp: word_unat_eq_iff unat_of_nat_64)

lemma dist_off: "k < 2 ^ 32 \<Longrightarrow> l < 2 ^ 32 \<Longrightarrow> (b :: u64) + of_nat k = b + of_nat l \<longleftrightarrow> k = l"
  by simp

lemma gic_set_irq_trace:
  assumes "irq < 1024"
  shows "trace (gic_set_irq g (of_nat irq) off s) = trace s @
    [Wr (raw_dist_base g + ucast off + of_nat (4 * (irq div 32))) (push_bit (irq mod 32) 1)]"
    and "dev (gic_set_irq g (of_nat irq) off s) = dev s" and "ram (gic_set_irq g (of_nat irq) off s) = ram s"
proof -
  have u: "unat (of_nat irq :: u32) = irq"
    using assms by (simp add: unat_of_nat)
  have m: "unat (of_nat irq mod 32 :: u32) = irq mod 32"
    by (simp add: unat_mod u)
  have "(ucast (of_nat irq div 32 * 4 :: u32) :: u64) = of_nat (4 * (irq div 32))"
  proof -
    have "unat (of_nat irq div 32 :: u32) = irq div 32"
      by (simp add: unat_div u)
    moreover have "4 * (irq div 32) < 2 ^ 32"
      using assms by simp
    ultimately have "unat (of_nat irq div 32 * 4 :: u32) = 4 * (irq div 32)"
      by (simp add: unat_word_ariths)
    moreover have "unat (of_nat (4 * (irq div 32)) :: u64) = 4 * (irq div 32)"
      using assms by (intro unat_of_nat_64) simp
    ultimately show ?thesis
      by (simp only: word_unat_eq_iff unat_ucast_32_64)
  qed
  then show "trace (gic_set_irq g (of_nat irq) off s) = trace s @
    [Wr (raw_dist_base g + ucast off + of_nat (4 * (irq div 32))) (push_bit (irq mod 32) 1)]"
    "dev (gic_set_irq g (of_nat irq) off s) = dev s" "ram (gic_set_irq g (of_nat irq) off s) = ram s"
    by (simp_all add: gic_set_irq_def gic_get_dist_base_def gic_dist_base_def m)
qed

lemma one_bit: "bit (push_bit (i mod 32) 1 :: u32) (j mod 32) \<longleftrightarrow> i mod 32 = j mod 32"
  unfolding bit_push_bit_iff bit_1_iff by auto

lemma same_irq: "i div 32 = j div 32 \<and> i mod 32 = j mod 32 \<longleftrightarrow> i = (j :: nat)"
  by (metis div_mult_mod_eq)

lemma unmask_effect:
  assumes "irq < 1024" and "j < 1024"
  shows "gic_enabled (raw_dist_base g) init (trace (gicv2_unmask_irq g (of_nat irq) s)) j \<longleftrightarrow>
    j = irq \<or> gic_enabled (raw_dist_base g) init (trace s) j"
proof -
  have "raw_dist_base g + ucast GIC_DIST_ENABLE_SET + of_nat (4 * (irq div 32)) = raw_dist_base g + of_nat (0x100 + 4 * (irq div 32))"
    by (simp add: GIC_DIST_ENABLE_SET_def)
  then have t: "trace (gicv2_unmask_irq g (of_nat irq) s) = trace s @
      [Wr (raw_dist_base g + of_nat (0x100 + 4 * (irq div 32))) (push_bit (irq mod 32) 1)]"
    using gic_set_irq_trace(1) [OF assms(1)] by (simp add: gicv2_unmask_irq_def)
  have b: "irq div 32 < 32" "j div 32 < 32"
    using assms by auto
  show ?thesis
    unfolding t gic_enabled_append
    using b one_bit [of irq j] same_irq [of irq j]
    by (auto simp: gic_effect_def enables_def disables_def dist_off simp del: of_nat_add of_nat_mult)
qed

lemma mask_effect:
  assumes "irq < 1024" and "j < 1024"
  shows "gic_enabled (raw_dist_base g) init (trace (gicv2_mask_irq g (of_nat irq) s)) j \<longleftrightarrow>
    j \<noteq> irq \<and> gic_enabled (raw_dist_base g) init (trace s) j"
proof -
  have "raw_dist_base g + ucast GIC_DIST_ENABLE_CLEAR + of_nat (4 * (irq div 32)) = raw_dist_base g + of_nat (0x180 + 4 * (irq div 32))"
    by (simp add: GIC_DIST_ENABLE_CLEAR_def)
  then have t: "trace (gicv2_mask_irq g (of_nat irq) s) = trace s @
      [Wr (raw_dist_base g + of_nat (0x180 + 4 * (irq div 32))) (push_bit (irq mod 32) 1)]"
    using gic_set_irq_trace(1) [OF assms(1)] by (simp add: gicv2_mask_irq_def)
  have b: "irq div 32 < 32" "j div 32 < 32"
    using assms by auto
  show ?thesis
    unfolding t gic_enabled_append
    using b one_bit [of irq j] same_irq [of irq j]
    by (auto simp: gic_effect_def enables_def disables_def dist_off simp del: of_nat_add of_nat_mult)
qed

section \<open>Initialisation\<close>

text \<open>
  \<^verbatim>\<open>gic_get_cpumask\<close> reads the target registers of the private interrupts until one is not zero, and
  folds the four bytes of the last one it read into the lowest.
\<close>

definition cpu_scan :: "u64 \<Rightarrow> nat \<Rightarrow> nat \<Rightarrow> u32 \<Rightarrow> io list" where
  "cpu_scan b j k v = map (\<lambda>l. Rd (b + GIC_DIST_TARGET + of_nat (4 * l)) 0) [j..<k] @ [Rd (b + GIC_DIST_TARGET + of_nat (4 * k)) v]"

definition fold_bytes :: "u32 \<Rightarrow> u32" where
  "fold_bytes v = (v OR drop_bit 16 v) OR drop_bit 8 (v OR drop_bit 16 v)"

lemma fold_bytes_bit: "bit (fold_bytes v) n \<longleftrightarrow> bit v n \<or> bit v (n + 8) \<or> bit v (n + 16) \<or> bit v (n + 24)"
  by (auto simp: fold_bytes_def bit_or_iff bit_drop_bit_eq add.commute)

lemma fold_bytes_0 [simp]: "fold_bytes v = 0 \<longleftrightarrow> v = 0"
proof
  assume "fold_bytes v = 0"
  then have "\<not> bit v n" for n
    using fold_bytes_bit [of v n] by simp
  then show "v = 0"
    by (simp add: bit_eq_iff)
qed (simp add: fold_bytes_def)

lemma fold_bytes_zero [simp]: "fold_bytes 0 = 0"
  by simp

text \<open>Spread over the word again, every byte is the union of the four.\<close>

lemma spread_bit:
  fixes v :: u32
  assumes "i < 4" and "t < 8" and m: "m = fold_bytes v"
  shows "bit ((m OR push_bit 8 m) OR push_bit 16 (m OR push_bit 8 m)) (8 * i + t) \<longleftrightarrow> (\<exists>l < 4. bit v (8 * l + t))"
proof -
  have big: "\<not> bit v n" if "32 \<le> n" for n
    using that bit_imp_le_length [of v n] by auto
  have four: "(\<exists>l < 4. P l) \<longleftrightarrow> P 0 \<or> P 1 \<or> P 2 \<or> P (3 :: nat)" for P
    by (auto simp: numeral_eq_Suc less_Suc_eq)
  have "i = 0 \<or> i = 1 \<or> i = 2 \<or> i = 3"
    using assms(1) by auto
  then show ?thesis
    using assms(2) big [of "t + 32"] big [of "t + 40"] big [of "t + 48"]
    by (elim disjE) (auto simp: m four bit_or_iff bit_push_bit_iff fold_bytes_bit algebra_simps)
qed

lemma cpumask_reads:
  assumes "i = 4 * j" and "j < 8"
  shows "\<exists>k v. k < 8 \<and> j \<le> k \<and> (v \<noteq> 0 \<or> k = 7) \<and> fst (gic_cpumask_from b m i s) = fold_bytes v \<and>
    trace (snd (gic_cpumask_from b m i s)) = trace s @ cpu_scan b j k v \<and>
    dev (snd (gic_cpumask_from b m i s)) = dev s \<and> ram (snd (gic_cpumask_from b m i s)) = ram s"
  using assms
proof (induction "7 - j" arbitrary: i j m s rule: less_induct)
  case less
  define c where "c = b + GIC_DIST_TARGET + of_nat i"
  define v where "v = dev_read (dev s) (trace s) c"
  define s1 where "s1 = s\<lparr>trace := trace s @ [Rd c v]\<rparr>"
  have r: "readl c s = (v, s1)"
    by (simp add: readl_def v_def s1_def Let_def)
  have run: "gic_cpumask_from b m i s = (if v \<noteq> 0 then (fold_bytes v, s1) else gic_cpumask_from b 0 (i + 4) s1)"
  proof -
    have "i < 32"
      using less.prems by simp
    then show ?thesis
      unfolding gic_cpumask_from.simps [of b m i s] c_def [symmetric] r Let_def prod.case fold_bytes_def [symmetric] by simp
  qed
  have c: "c = b + GIC_DIST_TARGET + of_nat (4 * j)"
    by (simp add: c_def less.prems)
  consider "v \<noteq> 0" | "v = 0" "j = 7" | "v = 0" "j < 7"
    using less.prems by linarith
  then show ?case
  proof cases
    case 1
    then show ?thesis
      using run less.prems c by (intro exI [of _ j] exI [of _ v]) (simp add: cpu_scan_def s1_def)
  next
    case 2
    then have "gic_cpumask_from b 0 (i + 4) s1 = (0, s1)"
      using less.prems by (simp add: gic_cpumask_from.simps [of b 0 32])
    then show ?thesis
      using run less.prems c 2 by (intro exI [of _ j] exI [of _ v]) (simp add: cpu_scan_def s1_def fold_bytes_def)
  next
    case 3
    then have l: "7 - Suc j < 7 - j" "i + 4 = 4 * Suc j" "Suc j < 8"
      using less.prems by simp_all
    obtain k w where "k < 8" "Suc j \<le> k" "w \<noteq> 0 \<or> k = 7" "fst (gic_cpumask_from b 0 (i + 4) s1) = fold_bytes w"
      "trace (snd (gic_cpumask_from b 0 (i + 4) s1)) = trace s1 @ cpu_scan b (Suc j) k w"
      "dev (snd (gic_cpumask_from b 0 (i + 4) s1)) = dev s1" "ram (snd (gic_cpumask_from b 0 (i + 4) s1)) = ram s1"
      using less.hyps [OF l, of 0 s1] by blast
    with run 3 c show ?thesis
      by (intro exI [of _ k] exI [of _ w]) (simp add: s1_def cpu_scan_def upt_conv_Cons)
  qed
qed

lemma cpu_scan_reads: "e \<in> set (cpu_scan b j k v) \<Longrightarrow> \<exists>a v. e = Rd a v"
  by (auto simp: cpu_scan_def)

lemma dist_init_trace:
  obtains rs cm k v where "\<forall>e \<in> set rs. \<exists>a v. e = Rd a v"
    and "trace (gic_dist_init g s) = trace s @ ([Wr (raw_dist_base g + of_nat 0) 0] @ rs @
      map (\<lambda>i. Wr (raw_dist_base g + of_nat (0x800 + i)) cm) (steps 32 (unat (gic_irqs g)) 4) @
      map (\<lambda>i. Wr (raw_dist_base g + of_nat (0xc00 + i div 4)) 0) (steps 32 (unat (gic_irqs g)) 16) @
      concat (map (\<lambda>i. [Wr (raw_dist_base g + of_nat (0x380 + i div 8)) 0xffffffff,
        Wr (raw_dist_base g + of_nat (0x180 + i div 8)) 0xffffffff]) (steps 0 (unat (gic_irqs g)) 32))) @
      [Wr (raw_dist_base g + of_nat 0x100) 0xffff, Wr (raw_dist_base g + of_nat 0) 1]"
    and "dev (gic_dist_init g s) = dev s" and "ram (gic_dist_init g s) = ram s"
    and "rs = cpu_scan (raw_dist_base g) 0 k v" and "k < 8 \<and> (v \<noteq> 0 \<or> k = 7)"
    and "\<forall>i < 4. \<forall>t < 8. bit cm (8 * i + t) \<longleftrightarrow> (\<exists>l < 4. bit v (8 * l + t))"
proof -
  define s1 where "s1 = writel 0 (raw_dist_base g) s"
  define m where "m = fst (gic_get_cpumask g s1)"
  define s2 where "s2 = snd (gic_get_cpumask g s1)"
  define cm where "cm = (m OR push_bit 8 m) OR push_bit 16 (m OR push_bit 8 m)"
  obtain k v where kv: "k < 8 \<and> (v \<noteq> 0 \<or> k = 7)" "m = fold_bytes v"
    and rs: "trace s2 = trace s1 @ cpu_scan (raw_dist_base g) 0 k v" "dev s2 = dev s1" "ram s2 = ram s1"
    using cpumask_reads [of 0 0 "raw_dist_base g" 0 s1] by (auto simp: s2_def m_def gic_get_cpumask_def gic_dist_base_def)
  have cm: "\<forall>i < 4. \<forall>t < 8. bit cm (8 * i + t) \<longleftrightarrow> (\<exists>l < 4. bit v (8 * l + t))"
    unfolding cm_def using spread_bit [OF _ _ kv(2)] by simp
  show thesis
    by (rule that [OF _ _ _ _ refl kv(1) cm])
      (simp_all add: gic_dist_init_def Let_def gic_dist_base_def GIC_DIST_CTRL_def s1_def [symmetric] s2_def [symmetric]
        m_def [symmetric] cm_def case_prod_beta for_step_fold fold_writel fold_writel2 rs yios_consts
        add.assoc cpu_scan_reads, (simp_all add: s1_def)?)
qed

lemma dist_init_enabled:
  assumes n: "unat (gic_irqs g) \<le> 1020" and j: "j < unat (gic_irqs g)"
  shows "gic_enabled (raw_dist_base g) init (trace (gic_dist_init g s)) j \<longleftrightarrow> j < 16"
proof -
  obtain rs cm where rs: "\<forall>e \<in> set rs. \<exists>a v. e = Rd a v"
    and t: "trace (gic_dist_init g s) = trace s @ ([Wr (raw_dist_base g + of_nat 0) 0] @ rs @
      map (\<lambda>i. Wr (raw_dist_base g + of_nat (0x800 + i)) cm) (steps 32 (unat (gic_irqs g)) 4) @
      map (\<lambda>i. Wr (raw_dist_base g + of_nat (0xc00 + i div 4)) 0) (steps 32 (unat (gic_irqs g)) 16) @
      concat (map (\<lambda>i. [Wr (raw_dist_base g + of_nat (0x380 + i div 8)) 0xffffffff,
        Wr (raw_dist_base g + of_nat (0x180 + i div 8)) 0xffffffff]) (steps 0 (unat (gic_irqs g)) 32))) @
      [Wr (raw_dist_base g + of_nat 0x100) 0xffff, Wr (raw_dist_base g + of_nat 0) 1]"
    (is "_ = _ @ ?es @ _")
    by (rule dist_init_trace [of g s])
  let ?b = "raw_dist_base g"
  have j32: "j div 32 < 32"
    using n j by auto
  have F: "bit (0xffffffff :: u32) (j mod 32)"
  proof -
    have "bit (mask 32 :: u32) (j mod 32)"
      unfolding bit_mask_iff by simp
    then show ?thesis
      by (simp add: mask_eq_exp_minus_1)
  qed
  have "\<forall>e \<in> set ?es. \<not> enables ?b j e"
    using rs n j32
    by (auto simp: enables_def simp del: of_nat_add of_nat_mult of_nat_0 of_nat_numeral dest!: steps_lt split: io.splits)
  moreover have "\<exists>e \<in> set ?es. disables ?b j e"
  proof (rule bexI)
    have "32 * (j div 32) div 8 = 4 * (j div 32)"
      by simp
    then show "disables ?b j (Wr (?b + of_nat (0x180 + 32 * (j div 32) div 8)) 0xffffffff)"
      using F by (simp add: disables_def del: of_nat_add of_nat_mult)
    have "32 * (j div 32) \<in> set (steps 0 (unat (gic_irqs g)) 32)"
      using j by (auto simp: steps_mem)
    then have "Wr (?b + of_nat (0x180 + 32 * (j div 32) div 8)) 0xffffffff \<in>
        set (concat (map (\<lambda>i. [Wr (raw_dist_base g + of_nat (0x380 + i div 8)) 0xffffffff,
          Wr (raw_dist_base g + of_nat (0x180 + i div 8)) 0xffffffff]) (steps 0 (unat (gic_irqs g)) 32)))"
      unfolding set_concat set_map by (intro UN_I [OF imageI]) auto
    then show "Wr (?b + of_nat (0x180 + 32 * (j div 32) div 8)) 0xffffffff \<in> set ?es"
      unfolding set_append by blast
  qed
  ultimately have off: "fold (gic_effect ?b j) ?es on = False" for on
    by (rule effect_off)
  have s16: "bit (0xffff :: u32) k \<longleftrightarrow> k < 16" for k
    using bit_mask_iff [of 16 k, where 'a = u32] by (auto simp: mask_eq_exp_minus_1)
  have x: "of_nat (0x100 + 4 * (j div 32)) = (of_nat 0x100 :: u64) \<longleftrightarrow> j div 32 = 0"
    "(of_nat (0x180 + 4 * (j div 32)) :: u64) \<noteq> of_nat 0x100"
    "of_nat (0x100 + 4 * (j div 32)) \<noteq> (of_nat 0 :: u64)" "of_nat (0x180 + 4 * (j div 32)) \<noteq> (of_nat 0 :: u64)"
    using j32 by (subst off_eq; simp del: of_nat_add of_nat_mult)+
  have "j div 32 = 0 \<and> j mod 32 < 16 \<longleftrightarrow> j < 16"
    by auto
  then have en: "enables ?b j (Wr (?b + of_nat 0x100) 0xffff) \<longleftrightarrow> j < 16"
    using x(1) unfolding enables_def io.case add_left_cancel s16 by metis
  have ot: "\<not> disables ?b j (Wr (?b + of_nat 0x100) 0xffff)" "\<not> enables ?b j (Wr (?b + of_nat 0) 1)"
    "\<not> disables ?b j (Wr (?b + of_nat 0) 1)"
    using x(2-4) unfolding enables_def disables_def io.case add_left_cancel by metis+
  define es where "es = ?es"
  have "gic_enabled ?b init (trace (gic_dist_init g s)) j =
      gic_effect ?b j (Wr (?b + of_nat 0) 1) (gic_effect ?b j (Wr (?b + of_nat 0x100) 0xffff)
        (fold (gic_effect ?b j) es (gic_enabled ?b init (trace s) j)))"
    unfolding t es_def [symmetric] gic_enabled_append fold_append comp_def by simp
  also have "\<dots> \<longleftrightarrow> j < 16"
    unfolding gic_effect_def [of _ _ "Wr _ _"] en using ot off [folded es_def] by simp
  finally show ?thesis .
qed

lemma cpu_init_trace:
  assumes "raw_dist_base g = DIST" and "raw_cpu_base g = CPUIF"
  shows "trace (gic_cpu_init g s) = trace s @
    (map (\<lambda>i. Wr (DIST + of_nat (0x400 + i)) 0xa0a0a0a0) (steps 0 32 4) @
     [Wr (DIST + of_nat 0x1004) 0xf0, Wr (DIST + of_nat 0x1000) 1])"
proof -
  have c: "CPUIF = DIST + of_nat 0x1000" "CPUIF + 4 = DIST + of_nat 0x1004"
    by (simp_all add: yios_consts)
  have p: "DIST + GIC_DIST_PRI + of_nat (i * 4 div 4) = DIST + of_nat (0x400 + i)" for i
    by (simp add: GIC_DIST_PRI_def)
  show ?thesis
    using c unfolding gic_cpu_init_def Let_def gic_cpu_base_def gic_dist_base_def assms p
    by (simp add: for_step_fold fold_writel GICC_INT_PRI_THRESHOLD_def GICC_ENABLE_def GIC_CPU_PRIMASK_def GIC_CPU_CTRL_def
        del: of_nat_add of_nat_mult of_nat_numeral)
qed

lemma cpu_init_enabled:
  assumes "raw_dist_base g = DIST" and "raw_cpu_base g = CPUIF" and "j < 1024"
  shows "gic_enabled DIST init (trace (gic_cpu_init g s)) j = gic_enabled DIST init (trace s) j"
    and "dev (gic_cpu_init g s) = dev s" and "ram (gic_cpu_init g s) = ram s"
proof -
  have "j div 32 < 32"
    using assms(3) by auto
  then have "\<forall>e \<in> set (map (\<lambda>i. Wr (DIST + of_nat (0x400 + i)) 0xa0a0a0a0) (steps 0 32 4) @
     [Wr (DIST + of_nat 0x1004) 0xf0, Wr (DIST + of_nat 0x1000) 1]). \<not> enables DIST j e \<and> \<not> disables DIST j e"
    by (auto simp: enables_def disables_def simp del: of_nat_add of_nat_mult of_nat_numeral dest!: steps_lt)
  then show "gic_enabled DIST init (trace (gic_cpu_init g s)) j = gic_enabled DIST init (trace s) j"
    unfolding cpu_init_trace [OF assms(1,2)] gic_enabled_append by (rule effect_keep)
  show "dev (gic_cpu_init g s) = dev s" "ram (gic_cpu_init g s) = ram s"
    unfolding gic_cpu_init_def Let_def for_step_fold by (simp_all add: fold_writel)
qed

lemma cpu_init_extends: "\<exists>es. trace (gic_cpu_init g s) = trace s @ es"
  by (simp add: gic_cpu_init_def Let_def for_step_fold fold_writel)

lemma enabled_bus:
  assumes "j < 1024"
  shows "gic_enabled DIST init (bus tr) j = gic_enabled DIST init tr j"
proof -
  have j: "4 * (j div 32) < 128"
    using assms by auto
  have "of_nat (0x100 + 4 * (j div 32)) \<noteq> U_DATA_REG - DIST" "of_nat (0x180 + 4 * (j div 32)) \<noteq> U_DATA_REG - DIST"
    using j by (auto simp: word_unat_eq_iff unat_of_nat_64 yios_consts simp del: of_nat_add of_nat_mult)
  then have "U_DATA_REG \<noteq> DIST + of_nat (0x100 + 4 * (j div 32))" "U_DATA_REG \<noteq> DIST + of_nat (0x180 + 4 * (j div 32))"
    by (metis add_diff_cancel_left')+
  then have "console_io e \<Longrightarrow> gic_effect DIST j e on = on" for e on
    by (auto simp: gic_effect_def enables_def disables_def console_io_def split: io.splits)
  then have "fold (gic_effect DIST j) (bus tr) on = fold (gic_effect DIST j) tr on" for on
    by (induction tr arbitrary: on) (auto simp: bus_def)
  then show ?thesis
    by (simp add: gic_enabled_def)
qed

lemma gic_message:
  assumes "c_str m func cs" and "func \<noteq> 0" and "length cs < 600"
  obtains buf where "myprintf 1024 ''%s: cpu_base:0x%0x, dist_base:0x%0x, gic_irqs:%d\<newline>'' [func, c, d, n] m = Inr (buf, m)"
    and "length buf < 1024"
proof -
  note ns = number_text_short [of 16 "- 1" "- 1" "ucast (ucast c :: u32)" "ZEROPAD OR SMALL"]
    number_text_short [of 16 "- 1" "- 1" "ucast (ucast d :: u32)" "ZEROPAD OR SMALL"]
    number_text_short [of 10 "- 1" "- 1" "scast (ucast n :: u32)" SIGN]
  define buf where "buf = cs @ '': cpu_base:0x'' @ number_text (ucast (ucast c :: u32)) 16 (- 1) (- 1) (ZEROPAD OR SMALL) @
    '', dist_base:0x'' @ number_text (ucast (ucast d :: u32)) 16 (- 1) (- 1) (ZEROPAD OR SMALL) @
    '', gic_irqs:'' @ number_text (scast (ucast n :: u32)) 10 (- 1) (- 1) SIGN @ ''\<newline>''"
  show thesis
    by (rule that [of buf]) (use assms ns in \<open>simp_all add: myprintf_def conv_rules buf_def\<close>)
qed

lemma gic_init_spec:
  assumes tx: "tx_ready s" and fn: "c_str (ram s) func cs" "func \<noteq> 0" "length cs < 600"
  obtains g' s' where "gic_init func 0 DIST CPUIF (g, s) = Inr (0, g', s')" and "tx_ready s'" and "ram s' = ram s"
    and "dev s' = dev s" and "raw_dist_base g' = DIST" and "raw_cpu_base g' = CPUIF"
    and "32 \<le> unat (gic_irqs g')" and "unat (gic_irqs g') \<le> 1020"
    and "\<And>j init. j < unat (gic_irqs g') \<Longrightarrow> gic_enabled DIST init (trace s') j \<longleftrightarrow> j < 16"
    and "\<exists>t. uart_out (trace s') = uart_out (trace s) @ t"
proof -
  define v where "v = dev_read (dev s) (trace s) (DIST + GIC_DIST_CTR)"
  define s1 where "s1 = s\<lparr>trace := trace s @ [Rd (DIST + GIC_DIST_CTR) v]\<rparr>"
  define k where "k = unat (v AND 0x1f)"
  define n where "n = (if (k + 1) * 32 > 1020 then 1020 else (k + 1) * 32)"
  define g' where "g' = g\<lparr>raw_cpu_base := CPUIF, raw_dist_base := DIST, gic_irqs := of_nat n\<rparr>"
  have n: "32 \<le> n" "n \<le> 1020"
    by (auto simp: n_def)
  have irqs: "unat (gic_irqs g') = n"
    using n by (simp add: g'_def unat_of_nat)
  have i: "(if (int k + 1) * 32 > 1020 then 1020 else (int k + 1) * 32) = int n"
    by (simp add: n_def)
  obtain buf where buf: "myprintf 1024 ''%s: cpu_base:0x%0x, dist_base:0x%0x, gic_irqs:%d\<newline>''
      [func, CPUIF, DIST, ucast (gic_irqs g')] (ram s) = Inr (buf, ram s)" "length buf < 1024"
    by (rule gic_message [OF fn])
  have tx1: "tx_ready s1"
    by (rule iffD1 [OF tx_ready_dev tx]) (simp add: s1_def)
  obtain s2 where s2: "printk ''%s: cpu_base:0x%0x, dist_base:0x%0x, gic_irqs:%d\<newline>''
      [func, CPUIF, DIST, ucast (gic_irqs g')] s1 = Inr (int (length buf), s2)" "tx_ready s2" "ram s2 = ram s" "dev s2 = dev s"
    and o2: "uart_out (trace s2) = uart_out (trace s) @ concat (map crlf buf)"
    using printk_ok [OF tx1, of _ "[func, CPUIF, DIST, ucast (gic_irqs g')]" buf "ram s"] buf by (auto simp: s1_def)
  have run: "gic_init func 0 DIST CPUIF (g, s) = Inr (0, g', gic_cpu_init g' (gic_dist_init g' s2))"
  proof -
    have r: "readl (DIST + GIC_DIST_CTR) s = (v, s1)"
      by (simp add: readl_def Let_def v_def s1_def)
    have e: "raw_dist_base (g\<lparr>raw_cpu_base := CPUIF, raw_dist_base := DIST\<rparr>) = DIST"
      by simp
    show ?thesis
      unfolding gic_init_def prod.case Let_def gic_dist_base_def e r k_def [symmetric] i
        of_int_of_nat_eq g'_def [symmetric] s2(1) ebind.simps
      by (simp add: ARM_GIC_MAX_NR_def)
  qed
  obtain es where di: "dev (gic_dist_init g' s2) = dev s2" "ram (gic_dist_init g' s2) = ram s2"
    "trace (gic_dist_init g' s2) = trace s2 @ es"
    by (rule dist_init_trace [of g' s2]) (simp add: append_assoc)
  have g: "raw_dist_base g' = DIST" "raw_cpu_base g' = CPUIF"
    by (simp_all add: g'_def)
  have ci: "dev (gic_cpu_init g' (gic_dist_init g' s2)) = dev s" "ram (gic_cpu_init g' (gic_dist_init g' s2)) = ram s"
    using cpu_init_enabled(2,3) [OF g, of 0] di s2(3,4) by simp_all
  show thesis
  proof (rule that [OF run])
    show "tx_ready (gic_cpu_init g' (gic_dist_init g' s2))"
      by (rule iffD1 [OF tx_ready_dev tx]) (simp add: ci)
    show "\<exists>t. uart_out (trace (gic_cpu_init g' (gic_dist_init g' s2))) = uart_out (trace s) @ t"
      using cpu_init_extends [of g' "gic_dist_init g' s2"] di(3) o2 by auto
    fix j init
    assume j: "j < unat (gic_irqs g')"
    then show "gic_enabled DIST init (trace (gic_cpu_init g' (gic_dist_init g' s2))) j \<longleftrightarrow> j < 16"
      using cpu_init_enabled(1) [OF g, of j init] dist_init_enabled [of g' j init s2] n irqs g by simp
  qed (use ci g n irqs in simp_all)
qed

section \<open>The timer interrupt\<close>

definition tick_text :: "u64 \<Rightarrow> string" where
  "tick_text f = ''Core0 timer interrupt, freq='' @ number_text (ucast (ucast f :: u32)) 10 (- 1) (- 1) 0 @ ''\<newline>''"

lemma timer_message:
  "myprintf 1024 ''Core0 timer interrupt, freq=%u\<newline>'' [f] m = Inr (tick_text f, m)" "length (tick_text f) < 1024"
  using number_text_short [of 10 "- 1" "- 1" "ucast (ucast f :: u32)" 0]
  by (simp_all add: myprintf_def conv_rules tick_text_def)

lemma handle_timer_spec:
  assumes "tx_ready s"
  obtains s' f where "handle_timer_irq s = Inr s'" and "tx_ready s'" and "ram s' = ram s" and "dev s' = dev s"
    and "bus (trace s') = bus (trace s) @ [Msr CNTP_TVAL_EL0 62500000]"
    and "uart_out (trace s') = uart_out (trace s) @ concat (map crlf (tick_text f))"
proof -
  define s1 where "s1 = snd (generic_timer_reset timer_val s)"
  have s1: "trace s1 = trace s @ [Msr CNTP_TVAL_EL0 62500000]" "dev s1 = dev s" "ram s1 = ram s"
    by (simp_all add: s1_def generic_timer_reset_def timer_val_def)
  have tx: "tx_ready s1"
    by (rule iffD1 [OF tx_ready_dev assms]) (simp add: s1)
  obtain s' where s': "printk ''Core0 timer interrupt, freq=%u\<newline>'' [read_sysreg CNTFRQ_EL0 s1] s1 =
      Inr (int (length (tick_text (read_sysreg CNTFRQ_EL0 s1))), s')" "tx_ready s'"
    "uart_out (trace s') = uart_out (trace s1) @ concat (map crlf (tick_text (read_sysreg CNTFRQ_EL0 s1)))"
    "bus (trace s') = bus (trace s1)" "ram s' = ram s1" "dev s' = dev s1"
    using printk_ok [OF tx timer_message] by blast
  have "handle_timer_irq s = Inr s'"
    using s'(1) by (simp add: handle_timer_irq_def case_prod_beta s1_def [symmetric])
  then show thesis
    by (rule that [of s' "read_sysreg CNTFRQ_EL0 s1"]) (use s' s1 in simp_all)
qed

lemma do_irq_run:
  assumes "tx_ready s" and "raw_cpu_base g = GIC_V2_CPU_INTERFACE_BASE"
    and "v = dev_read (dev s) (trace s) (GIC_V2_CPU_INTERFACE_BASE + GIC_CPU_INTACK)"
  shows "\<exists>s' f. do_irq g s = Inr s' \<and> ram s' = ram s \<and> dev s' = dev s \<and> tx_ready s' \<and>
    bus (trace s') = bus (trace s) @ [Rd (GIC_V2_CPU_INTERFACE_BASE + GIC_CPU_INTACK) v] @
      (if v AND 0x3ff = 30 then [Msr CNTP_TVAL_EL0 62500000] else []) @
      [Wr (GIC_V2_CPU_INTERFACE_BASE + GIC_CPU_EOI) (v AND 0x3ff)] \<and>
    uart_out (trace s') = uart_out (trace s) @ (if v AND 0x3ff = 30 then concat (map crlf (tick_text f)) else [])"
proof -
  define s1 where "s1 = s\<lparr>trace := trace s @ [Rd (CPUIF + GIC_CPU_INTACK) v]\<rparr>"
  have r: "readl (CPUIF + GIC_CPU_INTACK) s = (v, s1)"
    by (simp add: readl_def Let_def assms(3) s1_def)
  have tx: "tx_ready s1"
    by (rule iffD1 [OF tx_ready_dev assms(1)]) (simp add: s1_def)
  have ne: "CPUIF + GIC_CPU_INTACK \<noteq> U_FR_REG" "CPUIF + GIC_CPU_EOI \<noteq> U_DATA_REG"
    by (simp_all add: yios_consts)
  have run: "do_irq g s = ebind (if v AND 0x3ff = 30 then handle_timer_irq s1 else Inr s1)
      (\<lambda>s. Inr (writel (v AND 0x3ff) (CPUIF + GIC_CPU_EOI) s))"
    unfolding do_irq_def gic_handle_irq_def Let_def gic_cpu_base_def assms(2) r prod.case
      gicv2_eoi_irq_def gic_get_cpu_base_def GICC_IAR_INT_ID_MASK_def GENERIC_TIMER_IRQ_def ..
  obtain s2 f where "handle_timer_irq s1 = Inr s2" "ram s2 = ram s1" "dev s2 = dev s1"
    "bus (trace s2) = bus (trace s1) @ [Msr CNTP_TVAL_EL0 62500000]"
    "uart_out (trace s2) = uart_out (trace s1) @ concat (map crlf (tick_text f))"
    by (rule handle_timer_spec [OF tx])
  then show ?thesis
    unfolding run using ne assms(1) by (cases "v AND 0x3ff = 30") (auto simp: s1_def intro: iffD1 [OF tx_ready_dev assms(1)])
qed

section \<open>The boot sequence\<close>

lemma irq_setup_spec:
  assumes "tx_ready s" and "c_str (ram s) func cs" and "func \<noteq> 0" and "length cs < 600"
  shows "\<exists>g' s'. gic_init func 0 GIC_V2_DISTRIBUTOR_BASE GIC_V2_CPU_INTERFACE_BASE (g, s) = Inr (0, g', s') \<and>
    raw_cpu_base g' = GIC_V2_CPU_INTERFACE_BASE \<and>
    32 \<le> unat (gic_irqs g') \<and> unat (gic_irqs g') \<le> 1020 \<and> ram (timer_init g' s') = ram s \<and>
    dev (timer_init g' s') = dev s \<and> (\<exists>t. uart_out (trace (timer_init g' s')) = uart_out (trace s) @ t) \<and>
    (\<forall>init. \<forall>j < unat (gic_irqs g'). gic_enabled GIC_V2_DISTRIBUTOR_BASE init (trace (timer_init g' s')) j = (j < 16 \<or> j = 30)) \<and>
    (\<exists>w. trace (timer_init g' s') = trace s' @
      [Msr CNTP_CTL_EL0 1, Msr CNTP_TVAL_EL0 62500000, w, Wr TIMER_CNTRL0 CNT_PNS_IRQ])"
proof (rule gic_init_spec [OF assms, of g], goal_cases)
  case (1 g' s')
  define s1 where "s1 = write_sysreg 62500000 CNTP_TVAL_EL0 (write_sysreg 1 CNTP_CTL_EL0 s')"
  have ti: "timer_init g' s' = writel CNT_PNS_IRQ TIMER_CNTRL0 (gicv2_unmask_irq g' (of_nat 30) s1)"
    by (simp add: timer_init_def generic_timer_init_def generic_timer_reset_def enable_timer_interrupt_def s1_def
        timer_val_def GENERIC_TIMER_IRQ_def)
  have um: "gic_enabled DIST init (trace (gicv2_unmask_irq g' (of_nat 30) s1)) j \<longleftrightarrow> j = 30 \<or> gic_enabled DIST init (trace s1) j"
    if "j < 1024" for j init
    using unmask_effect [of 30 j g' init s1] that 1(5) by simp
  have m: "gic_enabled DIST init (tr @ [Msr r1 w1, Msr r2 w2]) j = gic_enabled DIST init tr j" for tr r1 w1 r2 w2 j init
    unfolding gic_enabled_append by (rule effect_keep) (simp add: enables_def disables_def)
  have "TIMER_CNTRL0 - DIST = - 0x40fc0"
    by (simp add: yios_consts)
  then have w: "TIMER_CNTRL0 \<noteq> DIST + of_nat k" if "k < 8192" for k
    using that by (auto simp: yios_consts word_unat_eq_iff unat_word_ariths unat_of_nat_64 simp del: of_nat_add)
  have tw: "gic_enabled DIST init (tr @ [Wr TIMER_CNTRL0 CNT_PNS_IRQ]) j = gic_enabled DIST init tr j" if "j < 1024" for tr j init
    unfolding gic_enabled_append
    by (rule effect_keep) (use that w [of "0x100 + 4 * (j div 32)"] w [of "0x180 + 4 * (j div 32)"] in
        \<open>auto simp: enables_def disables_def simp del: of_nat_add of_nat_mult\<close>)
  have en: "gic_enabled DIST init (trace (timer_init g' s')) j = (j < 16 \<or> j = 30)" if "j < unat (gic_irqs g')" for j init
    using that 1(8) 1(9) [OF that, of init] um [of j init] tw [of j] by (auto simp: ti s1_def m)
  obtain x where "trace (gicv2_unmask_irq g' (of_nat 30) s1) = trace s1 @ [x]" "ram (gicv2_unmask_irq g' (of_nat 30) s1) = ram s1"
      "dev (gicv2_unmask_irq g' (of_nat 30) s1) = dev s1"
    using gic_set_irq_trace [of 30 g' GIC_DIST_ENABLE_SET s1] by (simp add: gicv2_unmask_irq_def)
  then have "\<exists>w. trace (timer_init g' s') = trace s' @
      [Msr CNTP_CTL_EL0 1, Msr CNTP_TVAL_EL0 62500000, w, Wr TIMER_CNTRL0 CNT_PNS_IRQ]" and "ram (timer_init g' s') = ram s"
    and "dev (timer_init g' s') = dev s" and "\<exists>t. uart_out (trace (timer_init g' s')) = uart_out (trace s) @ t"
    using 1(3,4,10) by (auto simp: ti s1_def)
  with 1(1,6,7,8) en show ?case
    by blast
qed

section \<open>Properties\<close>

text \<open>
  \<^verbatim>\<open>gicv2_unmask_irq\<close> enables exactly the interrupt it is given and \<^verbatim>\<open>gicv2_mask_irq\<close> disables exactly that
  one, for every interrupt number the controller can have.
\<close>

theorem gic_mask_exact:
  assumes "irq < 1024" and "j < 1024"
  shows "gic_enabled (raw_dist_base g) init (trace (gicv2_unmask_irq g (of_nat irq) s)) j =
      (j = irq \<or> gic_enabled (raw_dist_base g) init (trace s) j) \<and>
    gic_enabled (raw_dist_base g) init (trace (gicv2_mask_irq g (of_nat irq) s)) j =
      (j \<noteq> irq \<and> gic_enabled (raw_dist_base g) init (trace s) j)"
  using unmask_effect [OF assms] mask_effect [OF assms] by blast

definition gic0 :: gic_chip_data where
  "gic0 = \<lparr>raw_dist_base = GIC_V2_DISTRIBUTOR_BASE, raw_cpu_base = GIC_V2_CPU_INTERFACE_BASE, domain = 0, chips = 0, gic_irqs = 256\<rparr>"

theorem gic_mask_exact_witness:
  "gic_enabled (raw_dist_base gic0) (\<lambda>_. False) (trace (gicv2_unmask_irq gic0 30 hi_machine)) 30 \<and>
   \<not> gic_enabled (raw_dist_base gic0) (\<lambda>_. False) (trace (gicv2_unmask_irq gic0 30 hi_machine)) 62"
  using gic_mask_exact [of 30 30 gic0 "\<lambda>_. False" hi_machine] gic_mask_exact [of 30 62 gic0 "\<lambda>_. False" hi_machine]
  by (simp add: hi_machine_def gic_enabled_def)

text \<open>
  C16: The boot sequence \<^verbatim>\<open>gic_init\<close>, \<^verbatim>\<open>timer_init\<close> at the board's addresses returns 0 on every controller, whatever
  interrupts were enabled before: of the interrupts the controller has (between 32 and 1020, as
  its type register says) exactly the software-generated ones 0 to 15 and the timer's 30 are
  enabled afterwards, and the timer is switched on and loaded.
\<close>

theorem irq_setup:
  assumes "tx_ready s" and "c_str (ram s) func cs" and "func \<noteq> 0" and "length cs < 600"
  shows "\<exists>g' s'. gic_init func 0 GIC_V2_DISTRIBUTOR_BASE GIC_V2_CPU_INTERFACE_BASE (g, s) = Inr (0, g', s') \<and>
    32 \<le> unat (gic_irqs g') \<and> unat (gic_irqs g') \<le> 1020 \<and> ram (timer_init g' s') = ram s \<and>
    (\<forall>j < unat (gic_irqs g'). gic_enabled GIC_V2_DISTRIBUTOR_BASE init (trace (timer_init g' s')) j = (j < 16 \<or> j = 30)) \<and>
    (\<exists>w. trace (timer_init g' s') = trace s' @
      [Msr CNTP_CTL_EL0 1, Msr CNTP_TVAL_EL0 62500000, w, Wr TIMER_CNTRL0 CNT_PNS_IRQ])"
  using irq_setup_spec [OF assms, of g] by blast

theorem irq_setup_witness:
  "\<exists>g' s'. gic_init 0x1000 0 GIC_V2_DISTRIBUTOR_BASE GIC_V2_CPU_INTERFACE_BASE (gic0, hi_machine) = Inr (0, g', s') \<and>
    gic_enabled GIC_V2_DISTRIBUTOR_BASE (\<lambda>_. True) (trace (timer_init g' s')) 30 \<and>
    \<not> gic_enabled GIC_V2_DISTRIBUTOR_BASE (\<lambda>_. True) (trace (timer_init g' s')) 31"
proof -
  have "c_str (ram hi_machine) 0x1000 ''Hi''"
    by (auto simp: c_str_def hi_machine_def less_Suc_eq)
  moreover have "tx_ready hi_machine"
    by (rule idle_tx_ready) (simp add: hi_machine_def)
  ultimately show ?thesis
    using irq_setup [of hi_machine "0x1000" "''Hi''" gic0 "\<lambda>_. True"] by force
qed

text \<open>
  \<^verbatim>\<open>do_irq\<close> reads the acknowledge register once, runs the timer's handler exactly for the timer's
  number, and ends by writing the acknowledged number to the end-of-interrupt register, in this
  order and with nothing else on the bus but console traffic. It ends even a spurious interrupt
  (1023), which needs no end. The timer is reloaded before the end of the interrupt, and memory is not
  touched: no task's state can change, so no time slice is ever charged.
\<close>

theorem do_irq_protocol:
  assumes "tx_ready s" and "raw_cpu_base g = GIC_V2_CPU_INTERFACE_BASE"
    and "v = dev_read (dev s) (trace s) (GIC_V2_CPU_INTERFACE_BASE + GIC_CPU_INTACK)"
  shows "\<exists>s' f. do_irq g s = Inr s' \<and> ram s' = ram s \<and>
    bus (trace s') = bus (trace s) @ [Rd (GIC_V2_CPU_INTERFACE_BASE + GIC_CPU_INTACK) v] @
      (if v AND 0x3ff = 30 then [Msr CNTP_TVAL_EL0 62500000] else []) @
      [Wr (GIC_V2_CPU_INTERFACE_BASE + GIC_CPU_EOI) (v AND 0x3ff)] \<and>
    uart_out (trace s') = uart_out (trace s) @ (if v AND 0x3ff = 30 then concat (map crlf (tick_text f)) else [])"
  using do_irq_run [OF assms] by blast

theorem do_irq_protocol_witness:
  "\<exists>s'. do_irq gic0 hi_machine = Inr s' \<and>
    bus (trace s') = [Rd (GIC_V2_CPU_INTERFACE_BASE + GIC_CPU_INTACK) 0, Wr (GIC_V2_CPU_INTERFACE_BASE + GIC_CPU_EOI) 0]"
  using do_irq_protocol [OF idle_tx_ready [of hi_machine] _ refl, of gic0] by (auto simp: hi_machine_def gic0_def idle_dev_def)

end
