(* ===== verification/Irq_Regs.thy ===== *)
theory Irq_Regs
  imports Irq_Spec
begin

text \<open>
  The registers of the interrupt hardware that the driver does not use, from \<^verbatim>\<open>include/yios/arm-gic.h\<close> and
  \<^verbatim>\<open>asm/arm_local_reg.h\<close>, and what the driver leaves in the ones it does use: which value each register of
  the controller holds after \<^verbatim>\<open>gic_dist_init\<close> and \<^verbatim>\<open>gic_cpu_init\<close>, and which registers they never write.
  The last section is \<^verbatim>\<open>arch/arm64/core/timer.c\<close>, the copy of the timer driver that is not built.
\<close>

section \<open>Registers of the interrupt controller\<close>

definition GIC_CPU_BINPOINT :: u64 where [yios_consts]: "GIC_CPU_BINPOINT = 0x08"
definition GIC_CPU_RUNNINGPRI :: u64 where [yios_consts]: "GIC_CPU_RUNNINGPRI = 0x14"
definition GIC_CPU_HIGHPRI :: u64 where [yios_consts]: "GIC_CPU_HIGHPRI = 0x18"
definition GIC_CPU_ALIAS_BINPOINT :: u64 where [yios_consts]: "GIC_CPU_ALIAS_BINPOINT = 0x1c"
definition GIC_CPU_ACTIVEPRIO :: u64 where [yios_consts]: "GIC_CPU_ACTIVEPRIO = 0xd0"
definition GIC_CPU_IDENT :: u64 where [yios_consts]: "GIC_CPU_IDENT = 0xfc"
definition GIC_DIST_IGROUP :: u64 where [yios_consts]: "GIC_DIST_IGROUP = 0x080"
definition GIC_DIST_PENDING_SET :: u64 where [yios_consts]: "GIC_DIST_PENDING_SET = 0x200"
definition GIC_DIST_PENDING_CLEAR :: u64 where [yios_consts]: "GIC_DIST_PENDING_CLEAR = 0x280"
definition GIC_DIST_ACTIVE_SET :: u64 where [yios_consts]: "GIC_DIST_ACTIVE_SET = 0x300"
definition GIC_DIST_SOFTINT :: u64 where [yios_consts]: "GIC_DIST_SOFTINT = 0xf00"
definition GIC_DIST_SGI_PENDING_CLEAR :: u64 where [yios_consts]: "GIC_DIST_SGI_PENDING_CLEAR = 0xf10"
definition GIC_DIST_SGI_PENDING_SET :: u64 where [yios_consts]: "GIC_DIST_SGI_PENDING_SET = 0xf20"
definition GICH_HCR :: u64 where [yios_consts]: "GICH_HCR = 0x0"
definition GICH_VTR :: u64 where [yios_consts]: "GICH_VTR = 0x4"
definition GICH_VMCR :: u64 where [yios_consts]: "GICH_VMCR = 0x8"
definition GICH_MISR :: u64 where [yios_consts]: "GICH_MISR = 0x10"
definition GICH_EISR0 :: u64 where [yios_consts]: "GICH_EISR0 = 0x20"
definition GICH_EISR1 :: u64 where [yios_consts]: "GICH_EISR1 = 0x24"
definition GICH_ELRSR0 :: u64 where [yios_consts]: "GICH_ELRSR0 = 0x30"
definition GICH_ELRSR1 :: u64 where [yios_consts]: "GICH_ELRSR1 = 0x34"
definition GICH_APR :: u64 where [yios_consts]: "GICH_APR = 0xf0"
definition GICH_LR0 :: u64 where [yios_consts]: "GICH_LR0 = 0x100"

text \<open>Fields of the registers. The shifts of \<^verbatim>\<open>int\<close> constants that reach the sign bit are read as 32-bit patterns.\<close>

definition GICC_DIS_BYPASS_MASK :: u32 where [yios_consts]: "GICC_DIS_BYPASS_MASK = 0x1e0"
definition GICD_INT_EN_CLR_PPI :: u32 where [yios_consts]: "GICD_INT_EN_CLR_PPI = 0xffff0000"
definition GICD_INT_DEF_PRI :: u32 where [yios_consts]: "GICD_INT_DEF_PRI = 0xa0"
definition GICD_INT_DEF_PRI_X4 :: u32 where [yios_consts]: "GICD_INT_DEF_PRI_X4 = (push_bit 24 GICD_INT_DEF_PRI) OR (push_bit 16 GICD_INT_DEF_PRI) OR (push_bit 8 GICD_INT_DEF_PRI) OR GICD_INT_DEF_PRI"
definition GICH_HCR_EN :: u32 where [yios_consts]: "GICH_HCR_EN = push_bit 0 1"
definition GICH_HCR_UIE :: u32 where [yios_consts]: "GICH_HCR_UIE = push_bit 1 1"
definition GICH_LR_VIRTUALID :: u32 where [yios_consts]: "GICH_LR_VIRTUALID = push_bit 0 0x3ff"
definition GICH_LR_PHYSID_CPUID_SHIFT :: nat where [yios_consts]: "GICH_LR_PHYSID_CPUID_SHIFT = 10"
definition GICH_LR_PHYSID_CPUID :: u32 where [yios_consts]: "GICH_LR_PHYSID_CPUID = push_bit GICH_LR_PHYSID_CPUID_SHIFT 7"
definition GICH_LR_STATE :: u32 where [yios_consts]: "GICH_LR_STATE = push_bit 28 3"
definition GICH_LR_PENDING_BIT :: u32 where [yios_consts]: "GICH_LR_PENDING_BIT = push_bit 28 1"
definition GICH_LR_ACTIVE_BIT :: u32 where [yios_consts]: "GICH_LR_ACTIVE_BIT = push_bit 29 1"
definition GICH_LR_EOI :: u32 where [yios_consts]: "GICH_LR_EOI = push_bit 19 1"
definition GICH_VMCR_CTRL_SHIFT :: nat where [yios_consts]: "GICH_VMCR_CTRL_SHIFT = 0"
definition GICH_VMCR_CTRL_MASK :: u32 where [yios_consts]: "GICH_VMCR_CTRL_MASK = push_bit GICH_VMCR_CTRL_SHIFT 0x21f"
definition GICH_VMCR_PRIMASK_SHIFT :: nat where [yios_consts]: "GICH_VMCR_PRIMASK_SHIFT = 27"
definition GICH_VMCR_PRIMASK_MASK :: u32 where [yios_consts]: "GICH_VMCR_PRIMASK_MASK = push_bit GICH_VMCR_PRIMASK_SHIFT 0x1f"
definition GICH_VMCR_BINPOINT_SHIFT :: nat where [yios_consts]: "GICH_VMCR_BINPOINT_SHIFT = 21"
definition GICH_VMCR_BINPOINT_MASK :: u32 where [yios_consts]: "GICH_VMCR_BINPOINT_MASK = push_bit GICH_VMCR_BINPOINT_SHIFT 0x7"
definition GICH_VMCR_ALIAS_BINPOINT_SHIFT :: nat where [yios_consts]: "GICH_VMCR_ALIAS_BINPOINT_SHIFT = 18"
definition GICH_VMCR_ALIAS_BINPOINT_MASK :: u32 where [yios_consts]: "GICH_VMCR_ALIAS_BINPOINT_MASK = push_bit GICH_VMCR_ALIAS_BINPOINT_SHIFT 0x7"
definition GICH_MISR_EOI :: u32 where [yios_consts]: "GICH_MISR_EOI = push_bit 0 1"
definition GICH_MISR_U :: u32 where [yios_consts]: "GICH_MISR_U = push_bit 1 1"

section \<open>Registers of the ARM local block\<close>

definition ARM_CONTROL :: u64 where [yios_consts]: "ARM_CONTROL = ARM_LOCAL_BASE + 0x0"
definition CORE_IRQ_CONTROL :: u64 where [yios_consts]: "CORE_IRQ_CONTROL = ARM_LOCAL_BASE + 0xc"
definition PMU_CONTROL_SET :: u64 where [yios_consts]: "PMU_CONTROL_SET = ARM_LOCAL_BASE + 0x10"
definition PMU_CONTROL_CLR :: u64 where [yios_consts]: "PMU_CONTROL_CLR = ARM_LOCAL_BASE + 0x14"
definition PERI_IRQ_ROUTE0 :: u64 where [yios_consts]: "PERI_IRQ_ROUTE0 = ARM_LOCAL_BASE + 0x24"
definition AXI_QUIET_TIME :: u64 where [yios_consts]: "AXI_QUIET_TIME = ARM_LOCAL_BASE + 0x30"
definition LOCAL_TIMER_CONTROL :: u64 where [yios_consts]: "LOCAL_TIMER_CONTROL = ARM_LOCAL_BASE + 0x34"
definition LOCAL_TIMER_IRQ :: u64 where [yios_consts]: "LOCAL_TIMER_IRQ = ARM_LOCAL_BASE + 0x38"
definition TIMER_CNTRL1 :: u64 where [yios_consts]: "TIMER_CNTRL1 = ARM_LOCAL_BASE + 0x44"
definition TIMER_CNTRL2 :: u64 where [yios_consts]: "TIMER_CNTRL2 = ARM_LOCAL_BASE + 0x48"
definition TIMER_CNTRL3 :: u64 where [yios_consts]: "TIMER_CNTRL3 = ARM_LOCAL_BASE + 0x4c"
definition ARM_LOCAL_IRQ_SOURCE0 :: u64 where [yios_consts]: "ARM_LOCAL_IRQ_SOURCE0 = ARM_LOCAL_BASE + 0x60"
definition ARM_LOCAL_IRQ_SOURCE1 :: u64 where [yios_consts]: "ARM_LOCAL_IRQ_SOURCE1 = ARM_LOCAL_BASE + 0x64"
definition ARM_LOCAL_IRQ_SOURCE2 :: u64 where [yios_consts]: "ARM_LOCAL_IRQ_SOURCE2 = ARM_LOCAL_BASE + 0x68"
definition ARM_LOCAL_IRQ_SOURCE3 :: u64 where [yios_consts]: "ARM_LOCAL_IRQ_SOURCE3 = ARM_LOCAL_BASE + 0x6c"
definition ARM_LOCAL_FRQ_SOURCE0 :: u64 where [yios_consts]: "ARM_LOCAL_FRQ_SOURCE0 = ARM_LOCAL_BASE + 0x70"
definition ARM_LOCAL_FRQ_SOURCE1 :: u64 where [yios_consts]: "ARM_LOCAL_FRQ_SOURCE1 = ARM_LOCAL_BASE + 0x74"
definition ARM_LOCAL_FRQ_SOURCE2 :: u64 where [yios_consts]: "ARM_LOCAL_FRQ_SOURCE2 = ARM_LOCAL_BASE + 0x78"
definition ARM_LOCAL_FRQ_SOURCE3 :: u64 where [yios_consts]: "ARM_LOCAL_FRQ_SOURCE3 = ARM_LOCAL_BASE + 0x7c"

text \<open>Bits of the timer and interrupt source registers.\<close>

definition CNT_PS_IRQ :: u32 where [yios_consts]: "CNT_PS_IRQ = push_bit 0 1"
definition CNT_HP_IRQ :: u32 where [yios_consts]: "CNT_HP_IRQ = push_bit 2 1"
definition CNT_V_IRQ :: u32 where [yios_consts]: "CNT_V_IRQ = push_bit 3 1"
definition CNT_PS_IRQ_FIQ :: u32 where [yios_consts]: "CNT_PS_IRQ_FIQ = push_bit 4 1"
definition CNT_PNS_IRQ_FIQ :: u32 where [yios_consts]: "CNT_PNS_IRQ_FIQ = push_bit 5 1"
definition CNT_HP_IRQ_FIQ :: u32 where [yios_consts]: "CNT_HP_IRQ_FIQ = push_bit 6 1"
definition CNT_V_IRQ_FIQ :: u32 where [yios_consts]: "CNT_V_IRQ_FIQ = push_bit 7 1"
definition MAILBOX_IRQ_SHIFT :: nat where [yios_consts]: "MAILBOX_IRQ_SHIFT = 4"
definition CORE_IRQ :: u32 where [yios_consts]: "CORE_IRQ = push_bit 8 1"
definition PMU_IRQ :: u32 where [yios_consts]: "PMU_IRQ = push_bit 9 1"
definition AXI_QUIET :: u32 where [yios_consts]: "AXI_QUIET = push_bit 10 1"
definition TIMER_IRQ :: u32 where [yios_consts]: "TIMER_IRQ = push_bit 11 1"
definition AXI_IRQ :: u32 where [yios_consts]: "AXI_IRQ = push_bit 30 1"

section \<open>Layout\<close>

text \<open>
  The register arrays of the distributor: first register and number of bits per interrupt, as the
  GICv2 architecture has them. For 1020 interrupts no two arrays overlap.
\<close>

definition gicd_arrays :: "(u64 \<times> nat) list" where
  "gicd_arrays = [(GIC_DIST_IGROUP, 1), (ucast GIC_DIST_ENABLE_SET, 1), (ucast GIC_DIST_ENABLE_CLEAR, 1),
     (GIC_DIST_PENDING_SET, 1), (GIC_DIST_PENDING_CLEAR, 1), (GIC_DIST_ACTIVE_SET, 1), (ucast GIC_DIST_ACTIVE_CLEAR, 1),
     (GIC_DIST_PRI, 8), (GIC_DIST_TARGET, 8), (GIC_DIST_CONFIG, 2)]"

definition array_end :: "u64 \<times> nat \<Rightarrow> nat" where
  "array_end r = unat (fst r) + (1020 * snd r + 31) div 32 * 4"

fun in_order :: "(u64 \<times> nat) list \<Rightarrow> bool" where
  "in_order (a # b # rs) \<longleftrightarrow> array_end a \<le> unat (fst b) \<and> in_order (b # rs)"
| "in_order [a] \<longleftrightarrow> array_end a \<le> unat GIC_DIST_SOFTINT"
| "in_order [] \<longleftrightarrow> True"

lemma gicd_arrays_in_order: "in_order gicd_arrays"
  by (simp add: gicd_arrays_def array_end_def yios_consts)

definition arm_local_regs :: "u64 list" where
  "arm_local_regs = [ARM_CONTROL, CORE_IRQ_CONTROL, PMU_CONTROL_SET, PMU_CONTROL_CLR, PERI_IRQ_ROUTE0, AXI_QUIET_TIME,
     LOCAL_TIMER_CONTROL, LOCAL_TIMER_IRQ, TIMER_CNTRL0, TIMER_CNTRL1, TIMER_CNTRL2, TIMER_CNTRL3,
     ARM_LOCAL_IRQ_SOURCE0, ARM_LOCAL_IRQ_SOURCE1, ARM_LOCAL_IRQ_SOURCE2, ARM_LOCAL_IRQ_SOURCE3,
     ARM_LOCAL_FRQ_SOURCE0, ARM_LOCAL_FRQ_SOURCE1, ARM_LOCAL_FRQ_SOURCE2, ARM_LOCAL_FRQ_SOURCE3]"

lemma arm_local_regs_apart: "distinct arm_local_regs" "\<forall>a \<in> set arm_local_regs. a AND 3 = 0 \<and> a - ARM_LOCAL_BASE < 0x80"
  by (simp_all add: arm_local_regs_def yios_consts)

text \<open>The timer routes one event, as an interrupt and not as a fast one, and only to core 0.\<close>

lemma timer_route:
  "CNT_PNS_IRQ AND (CNT_PS_IRQ OR CNT_HP_IRQ OR CNT_V_IRQ OR CNT_PS_IRQ_FIQ OR CNT_PNS_IRQ_FIQ OR CNT_HP_IRQ_FIQ OR CNT_V_IRQ_FIQ) = 0"
  "TIMER_CNTRL0 \<notin> {TIMER_CNTRL1, TIMER_CNTRL2, TIMER_CNTRL3}"
  by (simp_all add: yios_consts)

text \<open>The fields of the list registers and of the machine control register are apart.\<close>

lemma gich_fields:
  "GICH_LR_VIRTUALID AND GICH_LR_PHYSID_CPUID = 0" "(GICH_LR_VIRTUALID OR GICH_LR_PHYSID_CPUID OR GICH_LR_EOI) AND GICH_LR_STATE = 0"
  "(GICH_LR_VIRTUALID OR GICH_LR_PHYSID_CPUID) AND GICH_LR_EOI = 0" "GICH_LR_STATE = GICH_LR_PENDING_BIT OR GICH_LR_ACTIVE_BIT"
  "GICH_VMCR_CTRL_MASK AND GICH_VMCR_ALIAS_BINPOINT_MASK = 0"
  "(GICH_VMCR_CTRL_MASK OR GICH_VMCR_ALIAS_BINPOINT_MASK) AND GICH_VMCR_BINPOINT_MASK = 0"
  "(GICH_VMCR_CTRL_MASK OR GICH_VMCR_ALIAS_BINPOINT_MASK OR GICH_VMCR_BINPOINT_MASK) AND GICH_VMCR_PRIMASK_MASK = 0"
  by (simp_all add: yios_consts)

section \<open>What the registers hold\<close>

text \<open>The value last written to a register, if there was one.\<close>

definition wr_effect :: "u64 \<Rightarrow> io \<Rightarrow> u32 option \<Rightarrow> u32 option" where
  "wr_effect a e r = (case e of Wr b v \<Rightarrow> if b = a then Some v else r | _ \<Rightarrow> r)"

definition reg_val :: "u64 \<Rightarrow> io list \<Rightarrow> u32 option" where
  "reg_val a es = fold (wr_effect a) es None"

lemma wr_effect_keep: "\<forall>v. Wr a v \<notin> set es \<Longrightarrow> fold (wr_effect a) es r = r"
  by (induction es arbitrary: r) (auto simp: wr_effect_def split: io.splits)

lemma wr_effect_same: "\<forall>w. Wr a w \<in> set es \<longrightarrow> w = v \<Longrightarrow> fold (wr_effect a) es (Some v) = Some v"
  by (induction es) (auto simp: wr_effect_def split: io.splits)

lemma reg_val_same:
  assumes "Wr a v \<in> set es" and "\<And>w. Wr a w \<in> set es \<Longrightarrow> w = v"
  shows "reg_val a es = Some v"
proof -
  have "fold (wr_effect a) es r = Some v" for r
    using assms
  proof (induction es arbitrary: r)
    case (Cons e es)
    show ?case
    proof (cases "Wr a v \<in> set es")
      case True
      have "fold (wr_effect a) es (wr_effect a e r) = Some v"
        by (rule Cons.IH [OF True]) (rule Cons.prems(2), simp)
      then show ?thesis
        by simp
    next
      case False
      then have "e = Wr a v"
        using Cons.prems(1) by simp
      then have "wr_effect a e r = Some v"
        by (simp add: wr_effect_def)
      moreover have "\<forall>w. Wr a w \<in> set es \<longrightarrow> w = v"
        using Cons.prems(2) by simp
      ultimately show ?thesis
        by (simp add: wr_effect_same)
    qed
  qed simp
  then show ?thesis
    by (simp add: reg_val_def)
qed

lemma reg_val_none: "(\<And>v. Wr a v \<notin> set es) \<Longrightarrow> reg_val a es = None"
  unfolding reg_val_def by (rule wr_effect_keep) simp

lemma reg_val_last: "(\<And>w. Wr a w \<notin> set es') \<Longrightarrow> reg_val a (es @ Wr a v # es') = Some v"
  unfolding reg_val_def fold_append comp_def by (subst fold.simps, simp add: wr_effect_keep wr_effect_def)

definition is_rd :: "io \<Rightarrow> bool" where
  "is_rd e \<longleftrightarrow> (case e of Rd _ _ \<Rightarrow> True | _ \<Rightarrow> False)"

lemma is_rd_simps [simp]: "is_rd (Rd a v)" "\<not> is_rd (Wr a v)"
  by (simp_all add: is_rd_def)

lemma filter_reads: "\<forall>e \<in> set rs. \<exists>a v. e = Rd a v \<Longrightarrow> filter is_rd rs = rs"
  by (rule filter_True) auto

text \<open>The processors the shared interrupts are routed to, from the reads of the target registers.\<close>

definition routed :: "u32 \<Rightarrow> io list \<Rightarrow> bool" where
  "routed cm rs \<longleftrightarrow> (\<exists>k v. rs = cpu_scan DIST 0 k v \<and> k < 8 \<and> (v \<noteq> 0 \<or> k = 7) \<and>
     (\<forall>i < 4. \<forall>t < 8. bit cm (8 * i + t) \<longleftrightarrow> (\<exists>l < 4. bit v (8 * l + t))))"

text \<open>The writes of the set-up, by their offset from the distributor's base.\<close>

definition setup_write :: "nat \<Rightarrow> u32 \<Rightarrow> nat \<Rightarrow> u32 \<Rightarrow> bool" where
  "setup_write n cm k v \<longleftrightarrow>
     k = 0 \<and> v = 0 \<or> (\<exists>i \<in> set (steps 32 n 4). k = 0x800 + i) \<and> v = cm \<or>
     (\<exists>i \<in> set (steps 32 n 16). k = 0xc00 + i div 4) \<and> v = 0 \<or>
     (\<exists>i \<in> set (steps 0 n 32). k = 0x380 + i div 8) \<and> v = 0xffffffff \<or>
     (\<exists>i \<in> set (steps 0 n 32). k = 0x180 + i div 8) \<and> v = 0xffffffff \<or>
     k = 0x100 \<and> v = 0xffff \<or> k = 0 \<and> v = 1 \<or> (\<exists>i \<in> set (steps 0 32 4). k = 0x400 + i) \<and> v = 0xa0a0a0a0 \<or>
     k = 0x1004 \<and> v = 0xf0 \<or> k = 0x1000 \<and> v = 1"

lemma wr_in_map:
  assumes "k < 2 ^ 32" and "\<And>i. i \<in> set xs \<Longrightarrow> f i < 2 ^ 32"
  shows "Wr (DIST + of_nat k) v \<in> set (map (\<lambda>i. Wr (DIST + of_nat (f i)) w) xs) \<longleftrightarrow> (\<exists>i \<in> set xs. k = f i) \<and> v = w"
proof -
  have "DIST + of_nat k = DIST + of_nat (f i) \<longleftrightarrow> k = f i" if "i \<in> set xs" for i
    by (rule dist_off [OF assms(1) assms(2) [OF that]])
  then show ?thesis
    by auto
qed

lemma wr_maps:
  assumes "k < 2 ^ 32" and "n \<le> 1020"
  shows "Wr (DIST + of_nat k) v \<in> set (map (\<lambda>i. Wr (DIST + of_nat (0x800 + i)) w) (steps 32 n 4)) \<longleftrightarrow>
      (\<exists>i \<in> set (steps 32 n 4). k = 0x800 + i) \<and> v = w" (is ?thesis1)
    and "Wr (DIST + of_nat k) v \<in> set (map (\<lambda>i. Wr (DIST + of_nat (0xc00 + i div 4)) w) (steps 32 n 16)) \<longleftrightarrow>
      (\<exists>i \<in> set (steps 32 n 16). k = 0xc00 + i div 4) \<and> v = w" (is ?thesis2)
    and "Wr (DIST + of_nat k) v \<in> set (map (\<lambda>i. Wr (DIST + of_nat (0x380 + i div 8)) w) (steps 0 n 32)) \<longleftrightarrow>
      (\<exists>i \<in> set (steps 0 n 32). k = 0x380 + i div 8) \<and> v = w" (is ?thesis3)
    and "Wr (DIST + of_nat k) v \<in> set (map (\<lambda>i. Wr (DIST + of_nat (0x180 + i div 8)) w) (steps 0 n 32)) \<longleftrightarrow>
      (\<exists>i \<in> set (steps 0 n 32). k = 0x180 + i div 8) \<and> v = w" (is ?thesis4)
    and "Wr (DIST + of_nat k) v \<in> set (map (\<lambda>i. Wr (DIST + of_nat (0x400 + i)) w) (steps 0 32 4)) \<longleftrightarrow>
      (\<exists>i \<in> set (steps 0 32 4). k = 0x400 + i) \<and> v = w" (is ?thesis5)
proof -
  have b: "i \<in> set (steps m n d) \<Longrightarrow> i < 1020" "i \<in> set (steps m 32 d) \<Longrightarrow> i < 1020" for i m d
    using steps_lt [of i m n d] steps_lt [of i m 32 d] assms(2) by auto
  show ?thesis1 ?thesis2 ?thesis3 ?thesis4 ?thesis5
    by - (rule wr_in_map [OF assms(1)], drule b, simp)+
qed

lemma gic_setup_writes:
  assumes "raw_dist_base g = DIST" and "raw_cpu_base g = CPUIF" and n: "unat (gic_irqs g) \<le> 1020"
  obtains es es' cm where "trace (gic_cpu_init g (gic_dist_init g s)) = trace s @ es"
    and "es = es' @ Wr (DIST + of_nat 0) 1 # map (\<lambda>i. Wr (DIST + of_nat (0x400 + i)) 0xa0a0a0a0) (steps 0 32 4) @
      [Wr (DIST + of_nat 0x1004) 0xf0, Wr (DIST + of_nat 0x1000) 1]"
    and "\<And>k v. k < 2 ^ 32 \<Longrightarrow> Wr (DIST + of_nat k) v \<in> set es \<longleftrightarrow> setup_write (unat (gic_irqs g)) cm k v"
    and "routed cm (filter is_rd es)"
proof -
  let ?n = "unat (gic_irqs g)"
  obtain rs cm k0 v0 where rs: "\<forall>e \<in> set rs. \<exists>a v. e = Rd a v"
    and t: "trace (gic_dist_init g s) = trace s @ ([Wr (DIST + of_nat 0) 0] @ rs @
      map (\<lambda>i. Wr (DIST + of_nat (0x800 + i)) cm) (steps 32 ?n 4) @
      map (\<lambda>i. Wr (DIST + of_nat (0xc00 + i div 4)) 0) (steps 32 ?n 16) @
      concat (map (\<lambda>i. [Wr (DIST + of_nat (0x380 + i div 8)) 0xffffffff,
        Wr (DIST + of_nat (0x180 + i div 8)) 0xffffffff]) (steps 0 ?n 32))) @
      [Wr (DIST + of_nat 0x100) 0xffff, Wr (DIST + of_nat 0) 1]" (is "_ = _ @ ?a @ [?b, ?c]")
    and sc: "rs = cpu_scan DIST 0 k0 v0" "k0 < 8 \<and> (v0 \<noteq> 0 \<or> k0 = 7)"
      "\<forall>i < 4. \<forall>t < 8. bit cm (8 * i + t) \<longleftrightarrow> (\<exists>l < 4. bit v0 (8 * l + t))"
    by (rule dist_init_trace [of g s, unfolded assms(1)])
  define cs where "cs = map (\<lambda>i. Wr (DIST + of_nat (0x400 + i)) 0xa0a0a0a0) (steps 0 32 4) @
      [Wr (DIST + of_nat 0x1004) (0xf0 :: u32), Wr (DIST + of_nat 0x1000) 1]"
  show thesis
  proof (rule that [of "(?a @ [?b]) @ ?c # cs" "?a @ [?b]" cm])
    show "trace (gic_cpu_init g (gic_dist_init g s)) = trace s @ ((?a @ [?b]) @ ?c # cs)"
      unfolding cpu_init_trace [OF assms(1,2)] t cs_def by simp
    show "(?a @ [?b]) @ ?c # cs = (?a @ [?b]) @ ?c # map (\<lambda>i. Wr (DIST + of_nat (0x400 + i)) 0xa0a0a0a0) (steps 0 32 4) @
      [Wr (DIST + of_nat 0x1004) 0xf0, Wr (DIST + of_nat 0x1000) 1]"
      by (simp add: cs_def)
    have "filter is_rd ((?a @ [?b]) @ ?c # cs) = rs"
      using filter_reads [OF rs] by (simp add: cs_def filter_concat comp_def)
    then show "routed cm (filter is_rd ((?a @ [?b]) @ ?c # cs))"
      unfolding routed_def using sc by blast
    fix k :: nat and v :: u32
    assume k: "k < 2 ^ 32"
    have r: "Wr a v \<notin> set rs" for a
      using rs by auto
    have c: "set (concat (map (\<lambda>i. [Wr (DIST + of_nat (0x380 + i div 8)) w, Wr (DIST + of_nat (0x180 + i div 8)) w]) xs)) =
        set (map (\<lambda>i. Wr (DIST + of_nat (0x380 + i div 8)) w) xs) \<union> set (map (\<lambda>i. Wr (DIST + of_nat (0x180 + i div 8)) w) xs)"
      for xs and w :: u32
      by auto
    note m = wr_maps [OF k n, of v]
    have o: "Wr (DIST + of_nat k) v = Wr (DIST + of_nat l) w \<longleftrightarrow> k = l \<and> v = w" if "l < 2 ^ 32" for l w
      using k that by simp
    have l: "0 < (2 :: nat) ^ 32" "0x100 < (2 :: nat) ^ 32" "0x1004 < (2 :: nat) ^ 32" "0x1000 < (2 :: nat) ^ 32"
      by simp_all
    show "Wr (DIST + of_nat k) v \<in> set ((?a @ [?b]) @ ?c # cs) \<longleftrightarrow> setup_write ?n cm k v"
      unfolding cs_def setup_write_def set_append c Un_iff m list.set insert_iff empty_iff
        o [OF l(1)] o [OF l(2)] o [OF l(3)] o [OF l(4)]
      by (simp only: r simp_thms disj_assoc)
  qed
qed

lemma step_word: "32 \<le> j \<Longrightarrow> j < n \<Longrightarrow> d = 4 \<or> d = 16 \<Longrightarrow> d * (j div d) \<in> set (steps 32 n d)"
proof -
  assume j: "32 \<le> j" "j < n" and d: "d = 4 \<or> d = 16"
  have "d * (j div d) = 32 + (j div d - 32 div d) * d"
    using j d by auto
  moreover have "d * (j div d) < n"
    using j(2) by (meson le_less_trans times_div_less_eq_dividend)
  ultimately show "d * (j div d) \<in> set (steps 32 n d)"
    using d steps_mem [of d "d * (j div d)" 32 n] by auto
qed

lemma spi_words:
  assumes "32 \<le> (j :: nat)" and "j < n" and "n \<le> 1020"
  shows "0x800 + 4 * (j div 4) < 2 ^ 32" and "0xc00 + 4 * (j div 16) < 2 ^ 32"
    and "0x420 \<le> 0x400 + 4 * (j div 4)" and "0x400 + 4 * (j div 4) < 0x800"
proof -
  have "j div 16 < 64" "j div 4 < 256" "8 \<le> j div 4"
    using assms by auto
  then show "0x800 + 4 * (j div 4) < 2 ^ 32" "0xc00 + 4 * (j div 16) < 2 ^ 32"
    "0x420 \<le> 0x400 + 4 * (j div 4)" "0x400 + 4 * (j div 4) < 0x800"
    by simp_all
qed

lemma setup_ranges:
  assumes "setup_write n cm k v" and n: "n \<le> 1020"
  shows "k = 0 \<or> k = 0x100 \<or> 0x180 \<le> k \<and> k < 0x200 \<and> v = 0xffffffff \<or> 0x380 \<le> k \<and> k < 0x400 \<and> v = 0xffffffff \<or>
    0x400 \<le> k \<and> k < 0x420 \<and> v = 0xa0a0a0a0 \<or>
    0x800 \<le> k \<and> k < 0xc00 \<and> v = cm \<or> 0xc00 \<le> k \<and> k < 0xd00 \<and> v = 0 \<or> k = 0x1000 \<and> v = 1 \<or> k = 0x1004 \<and> v = 0xf0"
  using assms(1) unfolding setup_write_def
proof (elim disjE conjE bexE, goal_cases)
  case (2 i)
  then show ?case using steps_lt [of i 32 n 4] n by simp
next
  case (3 i)
  then show ?case using steps_lt [of i 32 n 16] n by simp
next
  case (4 i)
  then show ?case using steps_lt [of i 0 n 32] n by auto
next
  case (5 i)
  then show ?case using steps_lt [of i 0 n 32] n by auto
next
  case (8 i)
  then show ?case using steps_lt [of i 0 32 4] by simp
qed simp_all

lemma setup_values:
  assumes n: "n \<le> 1020"
  shows "32 \<le> j \<Longrightarrow> j < n \<Longrightarrow> setup_write n cm (0x800 + 4 * (j div 4)) v \<longleftrightarrow> v = cm"
    and "32 \<le> j \<Longrightarrow> j < n \<Longrightarrow> setup_write n cm (0xc00 + 4 * (j div 16)) v \<longleftrightarrow> v = 0"
    and "j < 32 \<Longrightarrow> setup_write n cm (0x400 + 4 * (j div 4)) v \<longleftrightarrow> v = 0xa0a0a0a0"
    and "setup_write n cm 0x1004 v \<longleftrightarrow> v = 0xf0" "setup_write n cm 0x1000 v \<longleftrightarrow> v = 1"
    and "j < n \<Longrightarrow> setup_write n cm (0x380 + 4 * (j div 32)) v \<longleftrightarrow> v = 0xffffffff"
    and "j < n \<Longrightarrow> setup_write n cm (0x180 + 4 * (j div 32)) v \<longleftrightarrow> v = 0xffffffff"
proof -
  note R = setup_ranges [OF _ n, of cm _ v]
  show "setup_write n cm (0x800 + 4 * (j div 4)) v \<longleftrightarrow> v = cm" if j: "32 \<le> j" "j < n"
  proof -
    have "setup_write n cm (0x800 + 4 * (j div 4)) cm"
      unfolding setup_write_def using step_word [OF j, of 4] by blast
    then show ?thesis
      using R [of "0x800 + 4 * (j div 4)"] j n by auto
  qed
  show "setup_write n cm (0xc00 + 4 * (j div 16)) v \<longleftrightarrow> v = 0" if j: "32 \<le> j" "j < n"
  proof -
    have "\<exists>i \<in> set (steps 32 n 16). 0xc00 + 4 * (j div 16) = 0xc00 + i div 4"
      by (rule bexI [OF _ step_word [OF j, of 16]]) simp_all
    then have "setup_write n cm (0xc00 + 4 * (j div 16)) 0"
      unfolding setup_write_def by blast
    then show ?thesis
      using R [of "0xc00 + 4 * (j div 16)"] j n by auto
  qed
  show "setup_write n cm (0x400 + 4 * (j div 4)) v \<longleftrightarrow> v = 0xa0a0a0a0" if j: "j < 32"
  proof -
    have "4 * (j div 4) \<in> set (steps 0 32 4)"
      using j steps_mem [of 4 "4 * (j div 4)" 0 32] by auto
    then have "setup_write n cm (0x400 + 4 * (j div 4)) 0xa0a0a0a0"
      unfolding setup_write_def by blast
    then show ?thesis
      using R [of "0x400 + 4 * (j div 4)"] j n by auto
  qed
  show "setup_write n cm 0x1004 v \<longleftrightarrow> v = 0xf0" "setup_write n cm 0x1000 v \<longleftrightarrow> v = 1"
    using R [of "0x1004"] R [of "0x1000"] by (auto intro: setup_write_def [THEN iffD2])
  show "setup_write n cm (0x380 + 4 * (j div 32)) v \<longleftrightarrow> v = 0xffffffff"
    "setup_write n cm (0x180 + 4 * (j div 32)) v \<longleftrightarrow> v = 0xffffffff" if j: "j < n"
  proof -
    have i: "32 * (j div 32) \<in> set (steps 0 n 32)" and d: "32 * (j div 32) div 8 = 4 * (j div 32)"
      using j by (auto simp: steps_mem)
    have "setup_write n cm (0x380 + 4 * (j div 32)) 0xffffffff" "setup_write n cm (0x180 + 4 * (j div 32)) 0xffffffff"
      unfolding setup_write_def using bexI [OF _ i, of "\<lambda>i. 0x380 + 4 * (j div 32) = 0x380 + i div 8"]
        bexI [OF _ i, of "\<lambda>i. 0x180 + 4 * (j div 32) = 0x180 + i div 8"] d by simp_all
    then show "setup_write n cm (0x380 + 4 * (j div 32)) v \<longleftrightarrow> v = 0xffffffff"
      "setup_write n cm (0x180 + 4 * (j div 32)) v \<longleftrightarrow> v = 0xffffffff"
      using R [of "0x380 + 4 * (j div 32)"] R [of "0x180 + 4 * (j div 32)"] j n by auto
  qed
qed

definition setup_gap :: "nat \<Rightarrow> bool" where
  "setup_gap k \<longleftrightarrow> 0 < k \<and> k < 0x100 \<or> 0x200 \<le> k \<and> k < 0x380 \<or> 0x420 \<le> k \<and> k < 0x800 \<or> 0xd00 \<le> k \<and> k < 0x1000"

lemma setup_untouched: "n \<le> 1020 \<Longrightarrow> setup_gap k \<Longrightarrow> \<not> setup_write n cm k v"
  using setup_ranges [of n cm k v] by (auto simp: setup_gap_def)

lemma gic_setup_regs:
  assumes "raw_dist_base g = DIST" and "raw_cpu_base g = CPUIF" and n: "unat (gic_irqs g) \<le> 1020"
  obtains es cm where "trace (gic_cpu_init g (gic_dist_init g s)) = trace s @ es" and "reg_val (DIST + of_nat 0) es = Some 1"
    and "\<And>k v. k < 2 ^ 32 \<Longrightarrow> \<forall>u. setup_write (unat (gic_irqs g)) cm k u \<longleftrightarrow> u = v \<Longrightarrow> reg_val (DIST + of_nat k) es = Some v"
    and "\<And>k. setup_gap k \<Longrightarrow> reg_val (DIST + of_nat k) es = None" and "routed cm (filter is_rd es)"
proof -
  let ?n = "unat (gic_irqs g)"
  obtain es es' cm where t: "trace (gic_cpu_init g (gic_dist_init g s)) = trace s @ es"
    and e: "es = es' @ Wr (DIST + of_nat 0) 1 # map (\<lambda>i. Wr (DIST + of_nat (0x400 + i)) 0xa0a0a0a0) (steps 0 32 4) @
      [Wr (DIST + of_nat 0x1004) 0xf0, Wr (DIST + of_nat 0x1000) 1]"
    and w: "\<And>k v. k < 2 ^ 32 \<Longrightarrow> Wr (DIST + of_nat k) v \<in> set es \<longleftrightarrow> setup_write ?n cm k v"
    and rt: "routed cm (filter is_rd es)"
    by (rule gic_setup_writes [OF assms, of s]) (rule that)
  have val: "reg_val (DIST + of_nat k) es = Some v" if "k < 2 ^ 32" "\<forall>u. setup_write ?n cm k u \<longleftrightarrow> u = v" for k v
    by (rule reg_val_same) (use w [OF that(1)] that(2) in simp_all)
  have none: "reg_val (DIST + of_nat k) es = None" if "setup_gap k" for k
  proof (rule reg_val_none)
    have "k < 2 ^ 32"
      using that by (auto simp: setup_gap_def)
    from w [OF this] show "Wr (DIST + of_nat k) v \<notin> set es" for v
      using setup_untouched [OF assms(3) that] by simp
  qed
  have z: "(of_nat k :: u64) \<noteq> 0" if "0 < k" "k < 2 ^ 32" for k
    using off_eq [of k 0] that by simp
  have ctrl: "reg_val (DIST + of_nat 0) es = Some 1"
    unfolding e by (rule reg_val_last) (auto simp: z simp del: of_nat_add of_nat_mult of_nat_numeral of_nat_0 dest!: steps_lt)
  show thesis
    by (rule that [OF t ctrl val none rt])
qed

text \<open>The values in terms of the registers' names.\<close>

lemma setup_one:
  assumes n: "n \<le> 1020"
    and val: "\<forall>k v. k < 2 ^ 32 \<longrightarrow> (\<forall>u. setup_write n cm k u \<longleftrightarrow> u = v) \<longrightarrow> reg_val (DIST + of_nat k) es = Some v"
  shows "32 \<le> j \<Longrightarrow> j < n \<Longrightarrow> reg_val (DIST + GIC_DIST_TARGET + of_nat (4 * (j div 4))) es = Some cm"
    and "32 \<le> j \<Longrightarrow> j < n \<Longrightarrow> reg_val (DIST + GIC_DIST_CONFIG + of_nat (4 * (j div 16))) es = Some GICD_INT_ACTLOW_LVLTRIG"
    and "j < n \<Longrightarrow> reg_val (DIST + ucast GIC_DIST_ACTIVE_CLEAR + of_nat (4 * (j div 32))) es = Some GICD_INT_EN_CLR_X32"
    and "j < n \<Longrightarrow> reg_val (DIST + ucast GIC_DIST_ENABLE_CLEAR + of_nat (4 * (j div 32))) es = Some GICD_INT_EN_CLR_X32"
    and "j < 32 \<Longrightarrow> reg_val (DIST + GIC_DIST_PRI + of_nat (4 * (j div 4))) es = Some GICD_INT_DEF_PRI_X4"
    and "reg_val (CPUIF + GIC_CPU_CTRL) es = Some GICC_ENABLE" "reg_val (CPUIF + GIC_CPU_PRIMASK) es = Some GICC_INT_PRI_THRESHOLD"
proof -
  have b: "0x800 + 4 * (j div 4) < 2 ^ 32" "0xc00 + 4 * (j div 16) < 2 ^ 32" "0x380 + 4 * (j div 32) < 2 ^ 32"
    "0x180 + 4 * (j div 32) < 2 ^ 32" "0x400 + 4 * (j div 4) < 2 ^ 32" if "j < 1020"
    using that by auto
  have v: "reg_val (DIST + of_nat k) es = Some v" if "k < 2 ^ 32" "\<And>u. setup_write n cm k u \<longleftrightarrow> u = v" for k v
    using val that by blast
  show "reg_val (DIST + GIC_DIST_TARGET + of_nat (4 * (j div 4))) es = Some cm"
    "reg_val (DIST + GIC_DIST_CONFIG + of_nat (4 * (j div 16))) es = Some GICD_INT_ACTLOW_LVLTRIG" if j: "32 \<le> j" "j < n"
    using v [OF b(1) setup_values(1) [OF n j]] v [OF b(2) setup_values(2) [OF n j]] j n by (simp_all add: yios_consts add.assoc)
  show "reg_val (DIST + ucast GIC_DIST_ACTIVE_CLEAR + of_nat (4 * (j div 32))) es = Some GICD_INT_EN_CLR_X32"
    "reg_val (DIST + ucast GIC_DIST_ENABLE_CLEAR + of_nat (4 * (j div 32))) es = Some GICD_INT_EN_CLR_X32" if j: "j < n"
    using v [OF b(3) setup_values(6) [OF n j]] v [OF b(4) setup_values(7) [OF n j]] j n by (simp_all add: yios_consts add.assoc)
  show "reg_val (DIST + GIC_DIST_PRI + of_nat (4 * (j div 4))) es = Some GICD_INT_DEF_PRI_X4" if j: "j < 32"
    using v [OF b(5) setup_values(3) [OF n j]] j by (simp add: yios_consts add.assoc)
  show "reg_val (CPUIF + GIC_CPU_CTRL) es = Some GICC_ENABLE" "reg_val (CPUIF + GIC_CPU_PRIMASK) es = Some GICC_INT_PRI_THRESHOLD"
    using v [of "0x1000", OF _ setup_values(5) [OF n]] v [of "0x1004", OF _ setup_values(4) [OF n]] by (simp_all add: yios_consts)
qed

lemma setup_gaps:
  assumes "\<forall>k. setup_gap k \<longrightarrow> reg_val (DIST + of_nat k) es = None"
  shows "j < 1020 \<Longrightarrow> \<forall>off \<in> {GIC_DIST_IGROUP, GIC_DIST_PENDING_SET, GIC_DIST_PENDING_CLEAR, GIC_DIST_ACTIVE_SET}.
      reg_val (DIST + off + of_nat (4 * (j div 32))) es = None"
    and "j < 16 \<Longrightarrow> \<forall>off \<in> {GIC_DIST_SOFTINT, GIC_DIST_SGI_PENDING_CLEAR, GIC_DIST_SGI_PENDING_SET}.
      reg_val (DIST + off + of_nat j) es = None"
    and "32 \<le> j \<Longrightarrow> j < n \<Longrightarrow> n \<le> 1020 \<Longrightarrow> reg_val (DIST + GIC_DIST_PRI + of_nat (4 * (j div 4))) es = None"
proof -
  note none = assms [rule_format]
  assume "j < 1020"
  then have "j div 32 < 32"
    by auto
  then show "\<forall>off \<in> {GIC_DIST_IGROUP, GIC_DIST_PENDING_SET, GIC_DIST_PENDING_CLEAR, GIC_DIST_ACTIVE_SET}.
      reg_val (DIST + off + of_nat (4 * (j div 32))) es = None"
    using none [of "0x80 + 4 * (j div 32)"] none [of "0x200 + 4 * (j div 32)"] none [of "0x280 + 4 * (j div 32)"]
      none [of "0x300 + 4 * (j div 32)"]
    by (auto simp: setup_gap_def yios_consts add.assoc)
next
  note none = assms [rule_format]
  assume "j < 16"
  then show "\<forall>off \<in> {GIC_DIST_SOFTINT, GIC_DIST_SGI_PENDING_CLEAR, GIC_DIST_SGI_PENDING_SET}. reg_val (DIST + off + of_nat j) es = None"
    using none [of "0xf00 + j"] none [of "0xf10 + j"] none [of "0xf20 + j"] by (auto simp: setup_gap_def yios_consts add.assoc)
next
  note none = assms [rule_format]
  assume "32 \<le> j" "j < n" "n \<le> 1020"
  then show "reg_val (DIST + GIC_DIST_PRI + of_nat (4 * (j div 4))) es = None"
    using none [of "0x400 + 4 * (j div 4)"] spi_words(3,4) [of j n] by (simp add: setup_gap_def yios_consts add.assoc)
qed

section \<open>Property\<close>

text \<open>
  C17: What the set-up of the controller leaves in its registers. Every interrupt the controller has is
  deactivated and disabled in the bulk clear; every shared one is made level-triggered and routed to
  the processors that the set-up read from the first non-zero target register of the private ones
  (or the last of the eight), each of its four bytes counting: every byte of the written word is the
  union of the four bytes read. The private ones have the default priority, the priority threshold
  admits that priority, and distributor and processor interface end up on. No set-active, pending,
  group or software interrupt register is written, and the priorities of the shared interrupts stay
  what they were.
\<close>

theorem gic_registers_after_init:
  assumes "raw_dist_base g = GIC_V2_DISTRIBUTOR_BASE" and "raw_cpu_base g = GIC_V2_CPU_INTERFACE_BASE"
    and "unat (gic_irqs g) \<le> 1020"
  shows "\<exists>es cpus k v. trace (gic_cpu_init g (gic_dist_init g s)) = trace s @ es \<and>
    filter is_rd es = map (\<lambda>l. Rd (GIC_V2_DISTRIBUTOR_BASE + GIC_DIST_TARGET + of_nat (4 * l)) 0) [0..<k] @
      [Rd (GIC_V2_DISTRIBUTOR_BASE + GIC_DIST_TARGET + of_nat (4 * k)) v] \<and> k < 8 \<and> (v \<noteq> 0 \<or> k = 7) \<and>
    (\<forall>i < 4. \<forall>t < 8. bit cpus (8 * i + t) \<longleftrightarrow> (\<exists>l < 4. bit v (8 * l + t))) \<and>
    (\<forall>j. 32 \<le> j \<and> j < unat (gic_irqs g) \<longrightarrow>
       reg_val (GIC_V2_DISTRIBUTOR_BASE + GIC_DIST_TARGET + of_nat (4 * (j div 4))) es = Some cpus \<and>
       reg_val (GIC_V2_DISTRIBUTOR_BASE + GIC_DIST_CONFIG + of_nat (4 * (j div 16))) es = Some GICD_INT_ACTLOW_LVLTRIG \<and>
       reg_val (GIC_V2_DISTRIBUTOR_BASE + GIC_DIST_PRI + of_nat (4 * (j div 4))) es = None) \<and>
    (\<forall>j < unat (gic_irqs g). \<forall>off \<in> {GIC_DIST_ACTIVE_CLEAR, GIC_DIST_ENABLE_CLEAR}.
       reg_val (GIC_V2_DISTRIBUTOR_BASE + ucast off + of_nat (4 * (j div 32))) es = Some GICD_INT_EN_CLR_X32) \<and>
    (\<forall>j < 32. reg_val (GIC_V2_DISTRIBUTOR_BASE + GIC_DIST_PRI + of_nat (4 * (j div 4))) es = Some GICD_INT_DEF_PRI_X4) \<and>
    reg_val (GIC_V2_DISTRIBUTOR_BASE + GIC_DIST_CTRL) es = Some GICD_ENABLE \<and>
    reg_val (GIC_V2_CPU_INTERFACE_BASE + GIC_CPU_CTRL) es = Some GICC_ENABLE \<and>
    reg_val (GIC_V2_CPU_INTERFACE_BASE + GIC_CPU_PRIMASK) es = Some GICC_INT_PRI_THRESHOLD \<and>
    GICD_INT_DEF_PRI < GICC_INT_PRI_THRESHOLD \<and>
    (\<forall>j < 1020. \<forall>off \<in> {GIC_DIST_IGROUP, GIC_DIST_PENDING_SET, GIC_DIST_PENDING_CLEAR, GIC_DIST_ACTIVE_SET}.
       reg_val (GIC_V2_DISTRIBUTOR_BASE + off + of_nat (4 * (j div 32))) es = None) \<and>
    (\<forall>j < 16. \<forall>off \<in> {GIC_DIST_SOFTINT, GIC_DIST_SGI_PENDING_CLEAR, GIC_DIST_SGI_PENDING_SET}.
       reg_val (GIC_V2_DISTRIBUTOR_BASE + off + of_nat j) es = None)"
proof -
  let ?n = "unat (gic_irqs g)"
  obtain es cm where t: "trace (gic_cpu_init g (gic_dist_init g s)) = trace s @ es" and ctrl: "reg_val (DIST + of_nat 0) es = Some 1"
    and val: "\<And>k v. k < 2 ^ 32 \<Longrightarrow> \<forall>u. setup_write ?n cm k u \<longleftrightarrow> u = v \<Longrightarrow> reg_val (DIST + of_nat k) es = Some v"
    and none: "\<And>k. setup_gap k \<Longrightarrow> reg_val (DIST + of_nat k) es = None" and rt: "routed cm (filter is_rd es)"
    by (rule gic_setup_regs [OF assms, of s]) (rule that)
  obtain k v where kv: "filter is_rd es = cpu_scan DIST 0 k v" "k < 8" "v \<noteq> 0 \<or> k = 7"
    "\<forall>i < 4. \<forall>t < 8. bit cm (8 * i + t) \<longleftrightarrow> (\<exists>l < 4. bit v (8 * l + t))"
    using rt unfolding routed_def by blast
  have "\<forall>k v. k < 2 ^ 32 \<longrightarrow> (\<forall>u. setup_write ?n cm k u \<longleftrightarrow> u = v) \<longrightarrow> reg_val (DIST + of_nat k) es = Some v"
    using val by blast
  note one = setup_one [OF assms(3) this]
  have "\<forall>k. setup_gap k \<longrightarrow> reg_val (DIST + of_nat k) es = None"
    using none by blast
  note gap = setup_gaps [OF this]
  show ?thesis
    using t ctrl kv one gap(1,2) gap(3) [OF _ _ assms(3)]
    by (intro exI [of _ es] exI [of _ cm] exI [of _ k] exI [of _ v])
      (simp add: cpu_scan_def GIC_DIST_CTRL_def GICD_ENABLE_def GICD_INT_DEF_PRI_def GICC_INT_PRI_THRESHOLD_def)
qed

theorem gic_registers_after_init_witness:
  "\<exists>es cpus. trace (gic_cpu_init (gic0\<lparr>gic_irqs := 256\<rparr>) (gic_dist_init (gic0\<lparr>gic_irqs := 256\<rparr>) hi_machine)) = trace hi_machine @ es \<and>
    reg_val (GIC_V2_DISTRIBUTOR_BASE + GIC_DIST_TARGET + 0xfc) es = Some cpus \<and>
    reg_val (GIC_V2_DISTRIBUTOR_BASE + GIC_DIST_PENDING_SET) es = None"
proof -
  have "raw_dist_base (gic0\<lparr>gic_irqs := 256\<rparr>) = GIC_V2_DISTRIBUTOR_BASE" "raw_cpu_base (gic0\<lparr>gic_irqs := 256\<rparr>) = GIC_V2_CPU_INTERFACE_BASE"
    "unat (gic_irqs (gic0\<lparr>gic_irqs := 256\<rparr>)) \<le> 1020"
    by (simp_all add: gic0_def)
  from gic_registers_after_init [OF this, of hi_machine] obtain es cpus where
    t: "trace (gic_cpu_init (gic0\<lparr>gic_irqs := 256\<rparr>) (gic_dist_init (gic0\<lparr>gic_irqs := 256\<rparr>) hi_machine)) = trace hi_machine @ es"
    and s: "\<forall>j. 32 \<le> j \<and> j < unat (gic_irqs (gic0\<lparr>gic_irqs := 256\<rparr>)) \<longrightarrow>
       reg_val (GIC_V2_DISTRIBUTOR_BASE + GIC_DIST_TARGET + of_nat (4 * (j div 4))) es = Some cpus"
    and p: "\<forall>j < 1020. reg_val (GIC_V2_DISTRIBUTOR_BASE + GIC_DIST_PENDING_SET + of_nat (4 * (j div 32))) es = None"
    by (elim exE conjE) (rule that, assumption, blast, blast)
  show ?thesis
    using t s [rule_format, of 255] p [rule_format, of 0] by auto
qed

section \<open>The timer driver that is not built\<close>

text \<open>
  \<^verbatim>\<open>arch/arm64/core/timer.c\<close> defines the same functions as \<^verbatim>\<open>arch/arm64/mach-rpi4/timer.c\<close>; the makefiles compile only
  the latter. Both leave the machine in the same state, so it does not matter which one is linked.
\<close>

definition early_timer_val :: u32 where [yios_consts]: "early_timer_val = 62500000"

definition early_generic_timer_init :: "machine \<Rightarrow> int \<times> machine" where
  "early_generic_timer_init s = (let x0 = 1; s = write_sysreg x0 CNTP_CTL_EL0 s in (0, s))"

definition early_generic_timer_reset :: "u32 \<Rightarrow> machine \<Rightarrow> int \<times> machine" where
  "early_generic_timer_reset val s = (0, write_sysreg (ucast val) CNTP_TVAL_EL0 s)"

definition early_enable_timer_interrupt :: "machine \<Rightarrow> machine" where
  "early_enable_timer_interrupt s = writel CNT_PNS_IRQ TIMER_CNTRL0 s"

definition early_timer_init :: "gic_chip_data \<Rightarrow> machine \<Rightarrow> machine" where
  "early_timer_init g s =
     (let (_, s) = early_generic_timer_init s;
          (_, s) = early_generic_timer_reset early_timer_val s;
          s = gicv2_unmask_irq g GENERIC_TIMER_IRQ s
      in early_enable_timer_interrupt s)"

definition early_handle_timer_irq :: "machine \<Rightarrow> fault + machine" where
  "early_handle_timer_irq s =
     (let (_, s) = early_generic_timer_reset early_timer_val s in
      ebind (printk ''Core0 timer interrupt, freq=%u\<newline>'' [read_sysreg CNTFRQ_EL0 s] s) (\<lambda>(_, s). Inr s))"

lemma early_timer_agrees: "early_timer_init g s = timer_init g s" "early_handle_timer_irq s = handle_timer_irq s"
  by (simp_all add: early_timer_init_def early_handle_timer_irq_def early_generic_timer_init_def early_generic_timer_reset_def
      early_enable_timer_interrupt_def early_timer_val_def timer_init_def handle_timer_irq_def generic_timer_init_def
      generic_timer_reset_def enable_timer_interrupt_def timer_val_def Let_def)

end
