(* ===== verification/Klist.thy ===== *)
theory Klist
  imports Prelude
begin

text \<open>
  The circular doubly linked lists of \<^verbatim>\<open>include/yios/list.h\<close>. A heap gives each node address its
  \<^verbatim>\<open>struct list_head\<close>; the operations update it in the order of the C statements, since the two
  neighbours of an insertion may be the same node.

  \<open>ring nx pv h xs\<close> says that the nodes \<open>xs\<close>, in this order, hang off the head \<open>h\<close> through the
  successor map \<open>nx\<close> and the predecessor map \<open>pv\<close>. It is stated over the two maps, not over the
  heap, so that the ring of all tasks (\<^verbatim>\<open>next_task\<close>, \<^verbatim>\<open>prev_task\<close>), which the scheduler links by
  hand, uses the same lemmas. The locale \<open>ring_store\<close> is the contract a client gets: insertion at
  either end, deletion, traversal; it is interpreted on the operations of \<^verbatim>\<open>list.h\<close>.
\<close>

section \<open>The operations\<close>

record list_head =
  nxt :: u64
  prv :: u64

type_synonym node_heap = "u64 \<Rightarrow> list_head"

definition LIST_POISON1 :: u64 where "LIST_POISON1 = 0x00100100 + 0xdead000000000000"
definition LIST_POISON2 :: u64 where "LIST_POISON2 = 0x00200200 + 0xdead000000000000"

definition set_nxt :: "u64 \<Rightarrow> u64 \<Rightarrow> node_heap \<Rightarrow> node_heap" where
  "set_nxt a v h = h(a := (h a)\<lparr>nxt := v\<rparr>)"

definition set_prv :: "u64 \<Rightarrow> u64 \<Rightarrow> node_heap \<Rightarrow> node_heap" where
  "set_prv a v h = h(a := (h a)\<lparr>prv := v\<rparr>)"

definition INIT_LIST_HEAD :: "u64 \<Rightarrow> node_heap \<Rightarrow> node_heap" where
  "INIT_LIST_HEAD list h = set_prv list list (set_nxt list list h)"

definition list_add_between :: "u64 \<Rightarrow> u64 \<Rightarrow> u64 \<Rightarrow> node_heap \<Rightarrow> node_heap" where
  "list_add_between new prev next h =
     (let h = set_prv next new h;
          h = set_nxt new next h;
          h = set_prv new prev h
      in set_nxt prev new h)"

definition list_add :: "u64 \<Rightarrow> u64 \<Rightarrow> node_heap \<Rightarrow> node_heap" where
  "list_add new head h = list_add_between new head (nxt (h head)) h"

definition list_add_tail :: "u64 \<Rightarrow> u64 \<Rightarrow> node_heap \<Rightarrow> node_heap" where
  "list_add_tail new head h = list_add_between new (prv (h head)) head h"

definition list_del_between :: "u64 \<Rightarrow> u64 \<Rightarrow> node_heap \<Rightarrow> node_heap" where
  "list_del_between prev next h = set_nxt prev next (set_prv next prev h)"

definition list_del :: "u64 \<Rightarrow> node_heap \<Rightarrow> node_heap" where
  "list_del entry h =
     (let h = list_del_between (prv (h entry)) (nxt (h entry)) h;
          h = set_nxt entry LIST_POISON1 h
      in set_prv entry LIST_POISON2 h)"

definition list_empty :: "u64 \<Rightarrow> node_heap \<Rightarrow> bool" where
  "list_empty head h \<longleftrightarrow> nxt (h head) = head"

text \<open>
  \<^verbatim>\<open>list_for_each\<close> from position \<open>pos\<close>: the nodes the loop visits, or \<^const>\<open>None\<close> if following
  \<^verbatim>\<open>next\<close> never comes back to the head.
\<close>

partial_function (option) list_for_each_from :: "u64 \<Rightarrow> u64 \<Rightarrow> node_heap \<Rightarrow> u64 list option" where
  "list_for_each_from pos head h =
     (if pos \<noteq> head then do { r \<leftarrow> list_for_each_from (nxt (h pos)) head h; Some (pos # r) } else Some [])"

declare list_for_each_from.simps [code]

definition list_for_each :: "u64 \<Rightarrow> node_heap \<Rightarrow> u64 list option" where
  "list_for_each head h = list_for_each_from (nxt (h head)) head h"

section \<open>Rings\<close>

fun chain :: "('a \<Rightarrow> 'a) \<Rightarrow> ('a \<Rightarrow> 'a) \<Rightarrow> 'a list \<Rightarrow> bool" where
  "chain nx pv (a # b # r) \<longleftrightarrow> nx a = b \<and> pv b = a \<and> chain nx pv (b # r)"
| "chain nx pv r \<longleftrightarrow> True"

definition ring :: "('a \<Rightarrow> 'a) \<Rightarrow> ('a \<Rightarrow> 'a) \<Rightarrow> 'a \<Rightarrow> 'a list \<Rightarrow> bool" where
  "ring nx pv h xs \<longleftrightarrow> distinct (h # xs) \<and> chain nx pv (h # xs @ [h])"

lemma chain_split: "chain nx pv (xs @ a # ys) \<longleftrightarrow> chain nx pv (xs @ [a]) \<and> chain nx pv (a # ys)"
  by (induction xs rule: induct_list012) auto

lemma chain_cong:
  assumes "\<And>a. a \<in> set (butlast l) \<Longrightarrow> nx' a = nx a" and "\<And>a. a \<in> set (tl l) \<Longrightarrow> pv' a = pv a"
  shows "chain nx' pv' l \<longleftrightarrow> chain nx pv l"
  using assms by (induction nx pv l rule: chain.induct) auto

lemma ring_split:
  "ring nx pv h (as @ bs) \<longleftrightarrow> distinct (h # as @ bs) \<and>
     chain nx pv (h # as) \<and> chain nx pv (bs @ [h]) \<and>
     nx (last (h # as)) = hd (bs @ [h]) \<and> pv (hd (bs @ [h])) = last (h # as)"
proof -
  obtain p P where p: "h # as = P @ [p]"
    by (metis append_butlast_last_id list.distinct(1))
  obtain n N where n: "bs @ [h] = n # N"
    by (metis append_is_Nil_conv list.exhaust not_Cons_self2)
  have "h # (as @ bs) @ [h] = (P @ [p]) @ n # N"
    using p n by simp
  then have "chain nx pv (h # (as @ bs) @ [h]) \<longleftrightarrow>
      chain nx pv (P @ [p]) \<and> nx p = n \<and> pv n = p \<and> chain nx pv (n # N)"
    using chain_split [of nx pv P p "n # N"] by auto
  then show ?thesis
    unfolding ring_def p [symmetric] n [symmetric] using p n by (auto simp: p)
qed

lemma last_in: "last (h # as) \<in> set (h # as)"
  by (rule last_in_set) simp

lemma butlast_last: "distinct (h # as) \<Longrightarrow> a \<in> set (butlast (h # as)) \<Longrightarrow> a \<noteq> last (h # as) \<and> a \<in> set (h # as)"
  by (metis append_butlast_last_id distinct_butlast in_set_butlastD list.distinct(1) not_distinct_conv_prefix)

lemma hd_in: "hd (bs @ [h]) \<in> set (bs @ [h])"
  by (rule hd_in_set) simp

lemma tl_hd: "distinct (h # bs) \<Longrightarrow> a \<in> set (tl (bs @ [h])) \<Longrightarrow> a \<noteq> hd (bs @ [h]) \<and> a \<in> set (bs @ [h])"
  by (cases bs) auto

lemma ring_insert:
  assumes r: "ring nx pv h (as @ bs)" and new: "new \<notin> set (h # as @ bs)"
    and nx': "nx' = nx(new := hd (bs @ [h]), last (h # as) := new)"
    and pv': "pv' = pv(hd (bs @ [h]) := new, new := last (h # as))"
  shows "ring nx' pv' h (as @ new # bs)"
proof -
  define p n where "p = last (h # as)" and "n = hd (bs @ [h])"
  note nx' = nx' [folded p_def n_def] and pv' = pv' [folded p_def n_def]
  have d: "distinct (h # as @ bs)" "chain nx pv (h # as)" "chain nx pv (bs @ [h])"
    using r by (auto simp: ring_split)
  have p: "p \<in> set (h # as)" and n: "n \<in> set (bs @ [h])"
    unfolding p_def n_def by (rule last_in hd_in)+
  have "chain nx' pv' (h # as)"
    using d(2)
  proof (subst chain_cong)
    show "nx' a = nx a" if "a \<in> set (butlast (h # as))" for a
      using butlast_last [OF _ that, folded p_def] d(1) new nx' by auto
    show "pv' a = pv a" if "a \<in> set (tl (h # as))" for a
      using that d(1) new pv' n by auto
  qed
  moreover have "chain nx' pv' (bs @ [h])"
    using d(3)
  proof (subst chain_cong)
    show "nx' a = nx a" if "a \<in> set (butlast (bs @ [h]))" for a
      using that d(1) new nx' p by auto
    show "pv' a = pv a" if "a \<in> set (tl (bs @ [h]))" for a
      using tl_hd [OF _ that, folded n_def] d(1) new pv' by auto
  qed
  moreover have "chain nx' pv' (new # bs @ [h]) \<longleftrightarrow> nx' new = n \<and> pv' n = new \<and> chain nx' pv' (bs @ [h])"
    unfolding n_def by (cases bs) auto
  moreover have "p \<noteq> new" "n \<noteq> new"
    using p n new by auto
  ultimately show ?thesis
    using d(1) new unfolding ring_split nx' pv' p_def [symmetric] by (auto simp: n_def [symmetric])
qed

lemma ring_remove:
  assumes r: "ring nx pv h (as @ e # bs)"
    and nx': "\<And>a. a \<noteq> e \<Longrightarrow> nx' a = (if a = last (h # as) then hd (bs @ [h]) else nx a)"
    and pv': "\<And>a. a \<noteq> e \<Longrightarrow> pv' a = (if a = hd (bs @ [h]) then last (h # as) else pv a)"
  shows "ring nx' pv' h (as @ bs)"
proof -
  define p n where "p = last (h # as)" and "n = hd (bs @ [h])"
  note nx' = nx' [folded p_def n_def] and pv' = pv' [folded p_def n_def]
  have d: "distinct (h # as @ e # bs)" "chain nx pv (h # as)" "chain nx pv (e # bs @ [h])"
    using r by (auto simp: ring_split)
  then have c: "chain nx pv (bs @ [h])"
    by (cases bs) auto
  have p: "p \<in> set (h # as)" and n: "n \<in> set (bs @ [h])"
    unfolding p_def n_def by (rule last_in hd_in)+
  have "chain nx' pv' (h # as)"
    using d(2)
  proof (subst chain_cong)
    show "nx' a = nx a" if "a \<in> set (butlast (h # as))" for a
    proof -
      have "a \<noteq> e" and "a \<noteq> p"
        using butlast_last [OF _ that, folded p_def] d(1) by auto
      then show ?thesis by (simp add: nx')
    qed
    show "pv' a = pv a" if "a \<in> set (tl (h # as))" for a
    proof -
      have "a \<noteq> e" and "a \<noteq> n"
        using that d(1) n by auto
      then show ?thesis by (simp add: pv')
    qed
  qed
  moreover have "chain nx' pv' (bs @ [h])"
    using c
  proof (subst chain_cong)
    show "nx' a = nx a" if "a \<in> set (butlast (bs @ [h]))" for a
    proof -
      have "a \<noteq> e" and "a \<noteq> p"
        using that d(1) p by auto
      then show ?thesis by (simp add: nx')
    qed
    show "pv' a = pv a" if "a \<in> set (tl (bs @ [h]))" for a
    proof -
      have "a \<noteq> e" and "a \<noteq> n"
        using tl_hd [OF _ that, folded n_def] d(1) by auto
      then show ?thesis by (simp add: pv')
    qed
  qed
  moreover have "p \<noteq> e" "n \<noteq> e"
    using p n d(1) by auto
  ultimately show ?thesis
    using d(1) nx' [of p] pv' [of n] unfolding ring_split p_def [symmetric] n_def [symmetric] by auto
qed

lemma ring_links:
  assumes "ring nx pv h xs"
  shows "nx h = hd (xs @ [h])" and "pv h = last (h # xs)"
    and "xs = as @ e # bs \<Longrightarrow> nx e = hd (bs @ [h]) \<and> pv e = last (h # as)"
  using assms ring_split [of nx pv h "[]" xs] ring_split [of nx pv h xs "[]"]
    ring_split [of nx pv h as "e # bs"] ring_split [of nx pv h "as @ [e]" bs]
  by auto

section \<open>The operations keep rings\<close>

abbreviation lring :: "node_heap \<Rightarrow> u64 \<Rightarrow> u64 list \<Rightarrow> bool" where
  "lring h \<equiv> ring (\<lambda>a. nxt (h a)) (\<lambda>a. prv (h a))"

lemma links_list_add_between:
  "(\<lambda>a. nxt (list_add_between new prev next h a)) = (\<lambda>a. nxt (h a))(new := next, prev := new)"
  "(\<lambda>a. prv (list_add_between new prev next h a)) = (\<lambda>a. prv (h a))(next := new, new := prev)"
  by (auto simp: fun_eq_iff list_add_between_def Let_def set_nxt_def set_prv_def)

lemma links_list_del:
  "a \<noteq> e \<Longrightarrow> nxt (list_del e h a) = (if a = prv (h e) then nxt (h e) else nxt (h a))"
  "a \<noteq> e \<Longrightarrow> prv (list_del e h a) = (if a = nxt (h e) then prv (h e) else prv (h a))"
  by (auto simp: list_del_def list_del_between_def Let_def set_nxt_def set_prv_def)

lemma lring_INIT: "lring (INIT_LIST_HEAD hdr h) hdr []"
  by (simp add: ring_def INIT_LIST_HEAD_def set_nxt_def set_prv_def)

lemma lring_add:
  assumes "lring h hdr xs" and "new \<notin> set (hdr # xs)"
  shows "lring (list_add new hdr h) hdr (new # xs)"
  using ring_insert [of _ _ hdr "[]" xs new, OF _ _ refl refl] assms ring_links(1) [OF assms(1)]
  by (simp add: list_add_def links_list_add_between)

lemma lring_add_tail:
  assumes "lring h hdr xs" and "new \<notin> set (hdr # xs)"
  shows "lring (list_add_tail new hdr h) hdr (xs @ [new])"
  using ring_insert [of _ _ hdr xs "[]" new, OF _ _ refl refl] assms ring_links(2) [OF assms(1)]
  by (simp add: list_add_tail_def links_list_add_between del: last.simps)

lemma lring_del:
  assumes "lring h hdr xs" and "e \<in> set xs"
  shows "lring (list_del e h) hdr (remove1 e xs)"
proof -
  obtain as bs where xs: "xs = as @ e # bs"
    using assms(2) by (auto simp: in_set_conv_decomp)
  then have l: "nxt (h e) = hd (bs @ [hdr])" "prv (h e) = last (hdr # as)"
    using ring_links(3) [OF assms(1) xs] by auto
  have "lring (list_del e h) hdr (as @ bs)"
    by (rule ring_remove [OF assms(1) [unfolded xs]]) (simp_all only: links_list_del l not_False_eq_True)
  moreover have "e \<notin> set as"
    using assms(1) by (auto simp: xs ring_def)
  ultimately show ?thesis
    by (simp add: xs remove1_append)
qed

lemma list_for_each_from_ring:
  "ring nx pv hdr xs \<Longrightarrow> nx = (\<lambda>a. nxt (h a)) \<Longrightarrow> xs = as @ bs \<Longrightarrow>
     list_for_each_from (hd (bs @ [hdr])) hdr h = Some bs"
proof (induction bs arbitrary: as)
  case Nil
  then show ?case by (simp add: list_for_each_from.simps)
next
  case (Cons b bs)
  then have "nxt (h b) = hd (bs @ [hdr])" and "b \<noteq> hdr"
    using ring_links(3) [OF Cons.prems(1,3)] by (auto simp: ring_def)
  with Cons show ?case
    by (simp add: list_for_each_from.simps [of b])
qed

lemma list_for_each_ring: "lring h hdr xs \<Longrightarrow> list_for_each hdr h = Some xs"
  using list_for_each_from_ring [of _ _ hdr xs h "[]" xs] ring_links(1) [of "\<lambda>a. nxt (h a)" _ hdr xs]
  by (simp add: list_for_each_def)

lemma list_empty_ring: "lring h hdr xs \<Longrightarrow> list_empty hdr h \<longleftrightarrow> xs = []"
  using ring_links(1) [of "\<lambda>a. nxt (h a)" _ hdr xs] by (cases xs) (auto simp: list_empty_def ring_def)

lemma list_add_frame:
  "a \<noteq> new \<Longrightarrow> a \<noteq> hdr \<Longrightarrow> a \<noteq> nxt (h hdr) \<Longrightarrow> list_add new hdr h a = h a"
  by (simp add: list_add_def list_add_between_def Let_def set_nxt_def set_prv_def)

lemma list_del_frame:
  "a \<noteq> e \<Longrightarrow> a \<noteq> nxt (h e) \<Longrightarrow> a \<noteq> prv (h e) \<Longrightarrow> list_del e h a = h a"
  by (simp add: list_del_def list_del_between_def Let_def set_nxt_def set_prv_def)

section \<open>The contract\<close>

locale ring_store =
  fixes rep :: "'s \<Rightarrow> u64 \<Rightarrow> u64 list \<Rightarrow> bool"
    and init :: "u64 \<Rightarrow> 's \<Rightarrow> 's"
    and add :: "u64 \<Rightarrow> u64 \<Rightarrow> 's \<Rightarrow> 's"
    and add_tail :: "u64 \<Rightarrow> u64 \<Rightarrow> 's \<Rightarrow> 's"
    and del :: "u64 \<Rightarrow> 's \<Rightarrow> 's"
    and is_empty :: "u64 \<Rightarrow> 's \<Rightarrow> bool"
    and each :: "u64 \<Rightarrow> 's \<Rightarrow> u64 list option"
  assumes rep_distinct: "rep s hdr xs \<Longrightarrow> distinct (hdr # xs)"
    and rep_init: "rep (init hdr s) hdr []"
    and rep_add: "rep s hdr xs \<Longrightarrow> new \<notin> set (hdr # xs) \<Longrightarrow> rep (add new hdr s) hdr (new # xs)"
    and rep_add_tail: "rep s hdr xs \<Longrightarrow> new \<notin> set (hdr # xs) \<Longrightarrow> rep (add_tail new hdr s) hdr (xs @ [new])"
    and rep_del: "rep s hdr xs \<Longrightarrow> e \<in> set xs \<Longrightarrow> rep (del e s) hdr (remove1 e xs)"
    and empty_iff: "rep s hdr xs \<Longrightarrow> is_empty hdr s \<longleftrightarrow> xs = []"
    and each_rep: "rep s hdr xs \<Longrightarrow> each hdr s = Some xs"
begin

lemma rep_unique: "rep s hdr xs \<Longrightarrow> rep s hdr ys \<Longrightarrow> xs = ys"
  using each_rep [of s hdr xs] each_rep [of s hdr ys] by simp

lemma add_del:
  assumes "rep s hdr xs" and "new \<notin> set (hdr # xs)"
  shows "each hdr (del new (add new hdr s)) = Some xs"
  using rep_del [OF rep_add [OF assms], of new] by (simp add: each_rep)

text \<open>A queue filled at the tail and emptied at the front is first-in first-out.\<close>

lemma fill_order:
  "distinct (hdr # ns) \<Longrightarrow> each hdr (fold (\<lambda>n. add_tail n hdr) ns (init hdr s)) = Some ns"
proof -
  have "rep (fold (\<lambda>n. add_tail n hdr) ns s) hdr (xs @ ns)" if "rep s hdr xs" "distinct (hdr # xs @ ns)" for s xs
    using that
  proof (induction ns arbitrary: s xs)
    case Nil
    then show ?case by simp
  next
    case (Cons n ns)
    then show ?case
      using Cons.IH [OF rep_add_tail [of s hdr xs n]] by auto
  qed
  from this [OF rep_init] show "distinct (hdr # ns) \<Longrightarrow> ?thesis"
    by (simp add: each_rep)
qed

end

interpretation kl: ring_store lring INIT_LIST_HEAD list_add list_add_tail list_del list_empty list_for_each
  by unfold_locales (simp_all add: lring_INIT lring_add lring_add_tail lring_del list_empty_ring list_for_each_ring,
      simp add: ring_def)

section \<open>Properties\<close>

text \<open>
  C21: The operations of \<^verbatim>\<open>list.h\<close> implement lists: \<^verbatim>\<open>INIT_LIST_HEAD\<close> makes the empty list, and on a circular list
  that holds \<open>xs\<close>, empty or not, \<^verbatim>\<open>list_add\<close> puts a new node in front, \<^verbatim>\<open>list_add_tail\<close> at the end,
  \<^verbatim>\<open>list_del\<close> takes any of its nodes out and poisons its links, \<^verbatim>\<open>list_empty\<close> decides emptiness, and
  \<^verbatim>\<open>list_for_each\<close> terminates and visits \<open>xs\<close> in order.
\<close>

theorem list_ops_refine:
  assumes "lring h hdr xs"
  shows "lring (INIT_LIST_HEAD hdr h') hdr [] \<and>
    (\<forall>new. new \<notin> set (hdr # xs) \<longrightarrow>
       lring (list_add new hdr h) hdr (new # xs) \<and> lring (list_add_tail new hdr h) hdr (xs @ [new])) \<and>
    (\<forall>e \<in> set xs. lring (list_del e h) hdr (remove1 e xs) \<and>
       list_del e h e = \<lparr>nxt = LIST_POISON1, prv = LIST_POISON2\<rparr>) \<and>
    list_empty hdr h = (xs = []) \<and> list_for_each hdr h = Some xs"
proof -
  have "list_del e h e = \<lparr>nxt = LIST_POISON1, prv = LIST_POISON2\<rparr>" for e
    by (simp add: list_del_def Let_def set_nxt_def set_prv_def)
  then show ?thesis
    using kl.rep_init [of hdr h'] kl.rep_add [OF assms] kl.rep_add_tail [OF assms] kl.rep_del [OF assms]
      kl.empty_iff [OF assms] kl.each_rep [OF assms] by blast
qed

theorem list_ops_refine_witness:
  "list_for_each 0x1000 (list_add 0x1010 0x1000 (INIT_LIST_HEAD 0x1000 (\<lambda>_. \<lparr>nxt = 0, prv = 0\<rparr>))) = Some [0x1010]"
proof -
  have "lring (list_add 0x1010 0x1000 (INIT_LIST_HEAD 0x1000 (\<lambda>_. \<lparr>nxt = 0, prv = 0\<rparr>))) 0x1000 [0x1010]"
    by (rule kl.rep_add [OF kl.rep_init]) simp
  from list_ops_refine [OF this] show ?thesis
    by simp
qed

text \<open>A list filled with \<^verbatim>\<open>list_add_tail\<close> is traversed in the order of insertion.\<close>

theorem list_fifo:
  assumes "distinct (hdr # ns)"
  shows "list_for_each hdr (fold (\<lambda>n. list_add_tail n hdr) ns (INIT_LIST_HEAD hdr h)) = Some ns"
  using assms by (rule kl.fill_order)

theorem list_fifo_witness:
  "list_for_each 1 (fold (\<lambda>n. list_add_tail n 1) [2, 3, 4] (INIT_LIST_HEAD 1 (\<lambda>_. \<lparr>nxt = 0, prv = 0\<rparr>))) = Some [2, 3, 4]"
  by (rule list_fifo) simp

end
