(* ===== verification/Sched.thy ===== *)
theory Sched
  imports Klist
begin

text \<open>
  The scheduler: \<^verbatim>\<open>kernel/sched.c\<close>, \<^verbatim>\<open>kernel/sched_simple.c\<close> and the data of \<^verbatim>\<open>include/yios/sched.h\<close>, with
  the context switch of \<^verbatim>\<open>arch/arm64/core/entry.S\<close>. Task structures live in a heap from task
  addresses to records, their embedded \<^verbatim>\<open>run_list\<close> nodes in the node heap of \<open>Klist\<close> at the offset the
  structure layout gives. Signed C integers are \<^typ>\<open>int\<close>; the invariant keeps every one of them within
  its width, so no overflow arises.

  A call of \<^verbatim>\<open>__schedule\<close> that switches tasks does not return to its caller but in another task; the
  model follows the processor: after \<^verbatim>\<open>cpu_switch_to\<close> it runs what the incoming task has left to do,
  which is recorded in \<open>kont\<close> (its kernel stack) and in its saved program counter.
\<close>

section \<open>Data\<close>

datatype task_state =
  TASK_RUNNING | TASK_INTERRUPTIBLE | TASK_UNINTERRUPTIBLE | TASK_ZOMBIE | TASK_STOPPED

definition PF_KTHREAD :: u64 where [yios_consts]: "PF_KTHREAD = push_bit 0 1"

record cpu_context =
  x19 :: u64
  x20 :: u64
  x21 :: u64
  x22 :: u64
  x23 :: u64
  x24 :: u64
  x25 :: u64
  x26 :: u64
  x27 :: u64
  x28 :: u64
  fp :: u64
  sp :: u64
  pc :: u64

record task_struct =
  state :: task_state
  flags :: u32
  count :: int
  priority :: int
  pid :: int
  ctx :: cpu_context
  need_resched :: int
  preempt_count :: int
  next_task :: u64
  prev_task :: u64

text \<open>The offset of \<^verbatim>\<open>run_list\<close> in \<^verbatim>\<open>struct task_struct\<close> (LP64): 24 bytes, the context, then the list.\<close>

definition run_list_offset :: u64 where [yios_consts]: "run_list_offset = 24 + 13 * 8"

definition run_node :: "u64 \<Rightarrow> u64" where
  "run_node p = p + run_list_offset"

definition list_entry :: "u64 \<Rightarrow> u64" where
  "list_entry q = q - run_list_offset"

record run_queue =
  nr_running :: u32
  nr_switches :: u64
  curr :: u64

text \<open>
  Addresses the compiler and the linker fix: of \<^verbatim>\<open>init_task\<close>, of \<^verbatim>\<open>g_rq.rq_head\<close>, of the entry of
  \<^verbatim>\<open>ret_from_fork\<close>, the return address of the call of \<^verbatim>\<open>cpu_switch_to\<close>, and the string
  \<^verbatim>\<open>__FUNCTION__\<close> in \<^verbatim>\<open>preempt_schedule_irq\<close>.
\<close>

record kaddrs =
  init_task :: u64
  rq_head :: u64
  ret_from_fork :: u64
  switch_ret :: u64
  function_name :: u64

datatype kont = In_schedule | In_preempt

record kstate =
  tasks :: "u64 \<Rightarrow> task_struct"
  nodes :: node_heap
  g_rq :: run_queue
  sp_el0 :: u64
  irq_on :: bool
  cpu :: cpu_context
  kont :: "u64 \<Rightarrow> kont"
  log :: klog

definition HZ :: int where [yios_consts]: "HZ = 250"
definition DEF_COUNTER :: int where [yios_consts]: "DEF_COUNTER = HZ div 10"

text \<open>\<^verbatim>\<open>init_task\<close> as \<^verbatim>\<open>init/init_task.c\<close> initialises it; a static object's other members are zero.\<close>

definition init_task_data :: "u64 \<Rightarrow> task_struct" where
  "init_task_data self =
     \<lparr>state = TASK_RUNNING, flags = ucast PF_KTHREAD, count = DEF_COUNTER, priority = 1, pid = 0,
      ctx = \<lparr>x19 = 0, x20 = 0, x21 = 0, x22 = 0, x23 = 0, x24 = 0, x25 = 0, x26 = 0, x27 = 0, x28 = 0,
        fp = 0, sp = 0, pc = 0\<rparr>,
      need_resched = 0, preempt_count = 0, next_task = self, prev_task = self\<rparr>"

definition upd_task :: "u64 \<Rightarrow> (task_struct \<Rightarrow> task_struct) \<Rightarrow> kstate \<Rightarrow> kstate" where
  "upd_task p f s = s\<lparr>tasks := (tasks s)(p := f (tasks s p))\<rparr>"

abbreviation current :: "kstate \<Rightarrow> u64" where
  "current s \<equiv> sp_el0 s"

definition printk_msg :: "string \<Rightarrow> u64 list \<Rightarrow> kstate \<Rightarrow> kstate" where
  "printk_msg fmt args s = s\<lparr>log := log s @ [(fmt, args)]\<rparr>"

definition raw_local_irq_enable :: "kstate \<Rightarrow> kstate" where
  "raw_local_irq_enable s = s\<lparr>irq_on := True\<rparr>"

definition raw_local_irq_disable :: "kstate \<Rightarrow> kstate" where
  "raw_local_irq_disable s = s\<lparr>irq_on := False\<rparr>"

definition preempt_disable :: "kstate \<Rightarrow> kstate" where
  "preempt_disable s = upd_task (current s) (\<lambda>t. t\<lparr>preempt_count := preempt_count t + 1\<rparr>) s"

definition preempt_enable :: "kstate \<Rightarrow> kstate" where
  "preempt_enable s = upd_task (current s) (\<lambda>t. t\<lparr>preempt_count := preempt_count t - 1\<rparr>) s"

definition preempt_add :: "int \<Rightarrow> kstate \<Rightarrow> kstate" where
  "preempt_add val s = upd_task (current s) (\<lambda>t. t\<lparr>preempt_count := preempt_count t + val\<rparr>) s"

definition preempt_sub :: "int \<Rightarrow> kstate \<Rightarrow> kstate" where
  "preempt_sub val s = upd_task (current s) (\<lambda>t. t\<lparr>preempt_count := preempt_count t - val\<rparr>) s"

definition clear_task_resched :: "u64 \<Rightarrow> kstate \<Rightarrow> kstate" where
  "clear_task_resched p s = upd_task p (\<lambda>t. t\<lparr>need_resched := 0\<rparr>) s"

section \<open>The simple scheduling class\<close>

definition dequeue_task_simple :: "u64 \<Rightarrow> kstate \<Rightarrow> kstate" where
  "dequeue_task_simple p s =
     (let s = s\<lparr>g_rq := (g_rq s)\<lparr>nr_running := nr_running (g_rq s) - 1\<rparr>\<rparr>
      in s\<lparr>nodes := list_del (run_node p) (nodes s)\<rparr>)"

definition enqueue_task_simple :: "kaddrs \<Rightarrow> u64 \<Rightarrow> kstate \<Rightarrow> kstate" where
  "enqueue_task_simple K p s =
     (let s = s\<lparr>nodes := list_add (run_node p) (rq_head K) (nodes s)\<rparr>
      in s\<lparr>g_rq := (g_rq s)\<lparr>nr_running := nr_running (g_rq s) + 1\<rparr>\<rparr>)"

text \<open>\<^verbatim>\<open>goodness\<close> stores the \<^verbatim>\<open>long\<close> count in an \<^verbatim>\<open>int\<close>, which keeps its low 32 bits.\<close>

definition goodness :: "task_struct \<Rightarrow> int" where
  "goodness p = signed_take_bit 31 (count p)"

partial_function (option) reset_score_from :: "kaddrs \<Rightarrow> u64 \<Rightarrow> kstate \<Rightarrow> kstate option" where
  "reset_score_from K p s =
     (let p = next_task (tasks s p) in
      if p \<noteq> init_task K
      then reset_score_from K p (upd_task p (\<lambda>t. t\<lparr>count := DEF_COUNTER + priority t\<rparr>) s)
      else Some s)"

declare reset_score_from.simps [code]

definition reset_score :: "kaddrs \<Rightarrow> kstate \<Rightarrow> kstate option" where
  "reset_score K s = reset_score_from K (init_task K) s"

text \<open>
  One pass of \<^verbatim>\<open>list_for_each\<close> over the queue: the best weight so far and the variable \<^verbatim>\<open>next\<close>, which is
  \<^const>\<open>None\<close> as long as it is uninitialised.
\<close>

definition pick_body :: "(u64 \<Rightarrow> task_struct) \<Rightarrow> u64 \<Rightarrow> int \<times> u64 option \<Rightarrow> int \<times> u64 option" where
  "pick_body T tmp = (\<lambda>(c, next).
     let p = list_entry tmp; weight = goodness (T p)
     in if weight > c then (weight, Some p) else (c, next))"

partial_function (option) pick_repeat :: "kaddrs \<Rightarrow> u64 option \<Rightarrow> kstate \<Rightarrow> (u64 option \<times> kstate) option" where
  "pick_repeat K next s =
     do { ns \<leftarrow> list_for_each (rq_head K) (nodes s);
          let (c, next) = fold (pick_body (tasks s)) ns (- 1000, next);
          if c = 0 then do { s \<leftarrow> reset_score K s; pick_repeat K next s } else Some (next, s) }"

declare pick_repeat.simps [code]

definition pick_next_task_simple :: "kaddrs \<Rightarrow> u64 \<Rightarrow> kstate \<Rightarrow> fault + u64 \<times> kstate" where
  "pick_next_task_simple K prev s =
     (case pick_repeat K None s of
        None \<Rightarrow> Inl Diverges
      | Some (None, s) \<Rightarrow> Inl Uninitialised
      | Some (Some p, s) \<Rightarrow> Inr (p, s))"

definition task_tick_simple :: "u64 \<Rightarrow> kstate \<Rightarrow> kstate" where
  "task_tick_simple p s =
     (let s = upd_task p (\<lambda>t. t\<lparr>count := count t - 1\<rparr>) s in
      if count (tasks s p) \<le> 0
      then let s = upd_task p (\<lambda>t. t\<lparr>count := 0\<rparr>) s;
               s = upd_task p (\<lambda>t. t\<lparr>need_resched := 1\<rparr>) s
           in printk_msg ''pid %d need_resched\<newline>'' [word_of_int (pid (tasks s p))] s
      else s)"

record sched_class =
  class_enqueue :: "kaddrs \<Rightarrow> u64 \<Rightarrow> kstate \<Rightarrow> kstate"
  class_dequeue :: "u64 \<Rightarrow> kstate \<Rightarrow> kstate"
  class_tick :: "u64 \<Rightarrow> kstate \<Rightarrow> kstate"
  class_pick :: "kaddrs \<Rightarrow> u64 \<Rightarrow> kstate \<Rightarrow> fault + u64 \<times> kstate"

definition simple_sched_class :: sched_class where
  "simple_sched_class =
     \<lparr>class_enqueue = enqueue_task_simple, class_dequeue = dequeue_task_simple,
      class_tick = task_tick_simple, class_pick = pick_next_task_simple\<rparr>"

section \<open>The scheduler core\<close>

definition pick_next_task :: "kaddrs \<Rightarrow> u64 \<Rightarrow> kstate \<Rightarrow> fault + u64 \<times> kstate" where
  "pick_next_task = class_pick simple_sched_class"

definition dequeue_task :: "u64 \<Rightarrow> kstate \<Rightarrow> kstate" where
  "dequeue_task = class_dequeue simple_sched_class"

definition enqueue_task :: "kaddrs \<Rightarrow> u64 \<Rightarrow> kstate \<Rightarrow> kstate" where
  "enqueue_task = class_enqueue simple_sched_class"

definition task_tick :: "u64 \<Rightarrow> kstate \<Rightarrow> kstate" where
  "task_tick = class_tick simple_sched_class"

text \<open>
  \<^verbatim>\<open>cpu_switch_to\<close>: the callee-saved registers, the stack pointer and the link register go to the
  outgoing task's context, the incoming task's context comes back, and \<^verbatim>\<open>sp_el0\<close>, which holds
  \<^verbatim>\<open>current\<close>, becomes the incoming task.
\<close>

definition cpu_switch_to :: "kaddrs \<Rightarrow> u64 \<Rightarrow> u64 \<Rightarrow> kstate \<Rightarrow> kstate" where
  "cpu_switch_to K prev next s =
     (let s = upd_task prev (\<lambda>t. t\<lparr>ctx := (cpu s)\<lparr>pc := switch_ret K\<rparr>\<rparr>) s
      in s\<lparr>cpu := ctx (tasks s next), sp_el0 := next\<rparr>)"

text \<open>\<^verbatim>\<open>switch_to\<close> returns the task the processor came from, which \<^verbatim>\<open>cpu_switch_to\<close> keeps in \<^verbatim>\<open>x0\<close>.\<close>

definition switch_to :: "kaddrs \<Rightarrow> u64 \<Rightarrow> u64 \<Rightarrow> kstate \<Rightarrow> u64 \<times> kstate" where
  "switch_to K prev next s =
     (if prev = next then (0, s) else (prev, cpu_switch_to K prev next s))"

definition schedule_tail :: "kstate \<Rightarrow> kstate" where
  "schedule_tail s = raw_local_irq_enable s"

definition tick_handle_periodic :: "kstate \<Rightarrow> kstate" where
  "tick_handle_periodic s = task_tick (current s) s"

definition schedule_debug :: "u64 \<Rightarrow> kstate \<Rightarrow> kstate" where
  "schedule_debug p s =
     (if preempt_count (tasks s (current s)) \<noteq> 1
      then printk_msg ''BUG: scheduling while atomic:%d, 0x%x\<newline>''
             [word_of_int (pid (tasks s p)), word_of_int (preempt_count (tasks s (current s)))] s
      else s)"

text \<open>
  What the callers of \<^verbatim>\<open>__schedule\<close> do after it: \<^verbatim>\<open>schedule\<close> re-enables preemption;
  \<^verbatim>\<open>preempt_schedule_irq\<close> masks interrupts first, and the exception return behind it restores the
  interrupt mask of the interrupted code, which was clear.
\<close>

definition schedule_exit :: "kont \<Rightarrow> kstate \<Rightarrow> kstate" where
  "schedule_exit k s =
     (case k of
        In_schedule \<Rightarrow> preempt_enable s
      | In_preempt \<Rightarrow> (preempt_enable (raw_local_irq_disable s))\<lparr>irq_on := True\<rparr>)"

text \<open>
  The incoming task: a task that runs for the first time starts in \<^verbatim>\<open>ret_from_fork\<close>, which calls
  \<^verbatim>\<open>schedule_tail\<close>; any other one returns from \<^verbatim>\<open>switch_to\<close> inside its own \<^verbatim>\<open>__schedule\<close>, with the
  outgoing task as \<^verbatim>\<open>last\<close>.
\<close>

definition switch_in :: "kaddrs \<Rightarrow> u64 \<Rightarrow> kstate \<Rightarrow> kstate" where
  "switch_in K lastp s =
     (if pc (cpu s) = ret_from_fork K then schedule_tail s
      else let s = s\<lparr>g_rq := (g_rq s)\<lparr>nr_switches := nr_switches (g_rq s) + 1\<rparr>\<rparr>;
               s = s\<lparr>g_rq := (g_rq s)\<lparr>curr := current s\<rparr>\<rparr>;
               s = (if lastp \<noteq> 0 then schedule_tail s else s)
           in schedule_exit (kont s (current s)) s)"

definition schedule_core :: "kaddrs \<Rightarrow> kont \<Rightarrow> kstate \<Rightarrow> fault + kstate" where
  "schedule_core K k s =
     (let prev = current s;
          s = schedule_debug prev s;
          s = raw_local_irq_disable s;
          s = (if state (tasks s prev) \<noteq> TASK_RUNNING then dequeue_task prev s else s)
      in ebind (pick_next_task K prev s) (\<lambda>(next, s).
         let s = clear_task_resched prev s in
         if next \<noteq> prev
         then let (lastp, s) = switch_to K prev next (s\<lparr>kont := (kont s)(prev := k)\<rparr>)
              in Inr (switch_in K lastp s)
         else Inr (schedule_exit k s)))"

definition schedule :: "kaddrs \<Rightarrow> kstate \<Rightarrow> fault + kstate" where
  "schedule K s = schedule_core K In_schedule (preempt_disable s)"

definition preempt_schedule_irq :: "kaddrs \<Rightarrow> kstate \<Rightarrow> fault + kstate" where
  "preempt_schedule_irq K s =
     (let c = preempt_count (tasks s (current s));
          s = (if c \<noteq> 0
               then printk_msg ''BUG: %s incorrect preempt count: 0x%x\<newline>'' [function_name K, word_of_int c] s else s);
          s = preempt_disable s;
          s = raw_local_irq_enable s
      in schedule_core K In_preempt s)"

definition wake_up_process :: "kaddrs \<Rightarrow> u64 \<Rightarrow> kstate \<Rightarrow> kstate" where
  "wake_up_process K p s = enqueue_task K p (upd_task p (\<lambda>t. t\<lparr>state := TASK_RUNNING\<rparr>) s)"

definition sched_init :: "kaddrs \<Rightarrow> kstate \<Rightarrow> kstate" where
  "sched_init K s =
     s\<lparr>nodes := INIT_LIST_HEAD (rq_head K) (nodes s),
       g_rq := \<lparr>nr_running = 0, nr_switches = 0, curr = 0\<rparr>\<rparr>"

text \<open>
  An interrupt at EL1 (\<^verbatim>\<open>el1_irq\<close> in \<^verbatim>\<open>entry.S\<close>): interrupts are masked on entry, \<^verbatim>\<open>do_irq\<close> runs, and the running
  task is preempted if it asked for it and may be; the exception return unmasks. The effect of
  \<^verbatim>\<open>do_irq\<close> on the tasks is the argument \<open>h\<close>: the handler of the timer in the tree prints a line,
  \<^verbatim>\<open>tick_handle_periodic\<close> is the handler \<^verbatim>\<open>sched.c\<close> exports for it.
\<close>

definition el1_irq :: "kaddrs \<Rightarrow> (kstate \<Rightarrow> kstate) \<Rightarrow> kstate \<Rightarrow> fault + kstate" where
  "el1_irq K h s =
     (let s = s\<lparr>irq_on := False\<rparr>;
          s = h s;
          t = tasks s (current s)
      in if preempt_count t = 0 \<and> need_resched t \<noteq> 0
         then preempt_schedule_irq K s
         else Inr (s\<lparr>irq_on := True\<rparr>))"

end
