(* ===== verification/Sched_Inv.thy ===== *)
theory Sched_Inv
  imports Sched
begin

text \<open>
  What the scheduler promises: the invariant of its data, that every operation keeps it, which task
  \<^verbatim>\<open>pick_next_task\<close> chooses, and the properties of \<^verbatim>\<open>schedule\<close>, of the timer tick and of the context
  switch.
\<close>

section \<open>The invariant\<close>

definition task_ok :: "task_struct \<Rightarrow> bool" where
  "task_ok t \<longleftrightarrow> 0 \<le> count t \<and> count t < 2 ^ 31 \<and> 0 \<le> priority t \<and> priority t < 1000"

text \<open>
  \<open>sched_inv K s ts rs\<close>: the run queue holds the tasks \<open>ts\<close> in this order and \<^verbatim>\<open>nr_running\<close> counts them;
  the tasks \<open>rs\<close> form the ring behind \<^verbatim>\<open>init_task\<close>; queued tasks are in the ring; the running task
  has preemption enabled, and a task that is switched out has it disabled exactly if it is inside
  \<^verbatim>\<open>__schedule\<close>, that is, has run before.
\<close>

definition ring_tasks :: "kaddrs \<Rightarrow> u64 list \<Rightarrow> u64 set" where
  "ring_tasks K rs = insert (init_task K) (set rs)"

definition queue_inv :: "kaddrs \<Rightarrow> kstate \<Rightarrow> u64 list \<Rightarrow> u64 list \<Rightarrow> bool" where
  "queue_inv K s ts rs \<longleftrightarrow>
     lring (nodes s) (rq_head K) (map run_node ts) \<and>
     nr_running (g_rq s) = of_nat (length ts) \<and>
     ring (\<lambda>p. next_task (tasks s p)) (\<lambda>p. prev_task (tasks s p)) (init_task K) rs \<and>
     set ts \<subseteq> set rs \<and> (\<forall>p \<in> ring_tasks K rs. p \<noteq> 0 \<and> task_ok (tasks s p))"

definition preempt_inv :: "kaddrs \<Rightarrow> kstate \<Rightarrow> u64 list \<Rightarrow> bool" where
  "preempt_inv K s rs \<longleftrightarrow>
     current s \<in> ring_tasks K rs \<and> preempt_count (tasks s (current s)) = 0 \<and>
     (\<forall>p \<in> ring_tasks K rs. p \<noteq> current s \<longrightarrow>
        preempt_count (tasks s p) = (if pc (ctx (tasks s p)) = ret_from_fork K then 0 else 1))"

definition sched_inv :: "kaddrs \<Rightarrow> kstate \<Rightarrow> u64 list \<Rightarrow> u64 list \<Rightarrow> bool" where
  "sched_inv K s ts rs \<longleftrightarrow> switch_ret K \<noteq> ret_from_fork K \<and> queue_inv K s ts rs \<and> preempt_inv K s rs"

lemma list_entry_run_node [simp]: "list_entry (run_node p) = p"
  by (simp add: list_entry_def run_node_def)

lemma run_node_inj [simp]: "run_node p = run_node q \<longleftrightarrow> p = q"
  by (simp add: run_node_def)

lemma goodness_ok: "task_ok t \<Longrightarrow> goodness t = count t"
  by (simp add: goodness_def task_ok_def signed_take_bit_int_eq_self)

section \<open>Choosing a task\<close>

text \<open>\<open>p\<close> is the first task of the queue whose value is maximal.\<close>

definition first_best :: "('a \<Rightarrow> int) \<Rightarrow> 'a list \<Rightarrow> 'a \<Rightarrow> bool" where
  "first_best g ts p \<longleftrightarrow>
     (\<exists>as bs. ts = as @ p # bs \<and> (\<forall>q \<in> set as. g q < g p) \<and> (\<forall>q \<in> set bs. g q \<le> g p))"

lemma first_best_max: "first_best g ts p \<Longrightarrow> p \<in> set ts \<and> (\<forall>q \<in> set ts. g q \<le> g p)"
  by (auto simp: first_best_def less_imp_le)

lemma first_best_Nil [simp]: "\<not> first_best g [] p"
  by (simp add: first_best_def)

lemma first_best_Cons:
  "first_best g (t # ts) p \<longleftrightarrow> p = t \<and> (\<forall>q \<in> set ts. g q \<le> g t) \<or> g t < g p \<and> first_best g ts p"
proof
  assume "first_best g (t # ts) p"
  then obtain as bs where "t # ts = as @ p # bs" "\<forall>q \<in> set as. g q < g p" "\<forall>q \<in> set bs. g q \<le> g p"
    by (auto simp: first_best_def)
  then show "p = t \<and> (\<forall>q \<in> set ts. g q \<le> g t) \<or> g t < g p \<and> first_best g ts p"
    by (cases as) (auto simp: first_best_def)
next
  have "first_best g (t # ts) p" if "g t < g p" "ts = as @ p # bs" "\<forall>q \<in> set as. g q < g p" "\<forall>q \<in> set bs. g q \<le> g p" for as bs
    unfolding first_best_def by (rule exI [of _ "t # as"]) (use that in auto)
  moreover have "first_best g (t # ts) t" if "\<forall>q \<in> set ts. g q \<le> g t"
    unfolding first_best_def by (rule exI [of _ "[]"]) (use that in auto)
  moreover assume "p = t \<and> (\<forall>q \<in> set ts. g q \<le> g t) \<or> g t < g p \<and> first_best g ts p"
  ultimately show "first_best g (t # ts) p"
    by (auto simp: first_best_def [of g ts])
qed

lemma first_best_unique: "first_best g ts p \<Longrightarrow> first_best g ts q \<Longrightarrow> p = q"
  by (induction ts) (auto simp: first_best_Cons, (drule first_best_max, force)+)

lemma fold_pick:
  assumes g: "\<And>q. q \<in> set ts \<Longrightarrow> goodness (T q) = g q"
  shows "(\<forall>q \<in> set ts. g q \<le> c) \<and> fold (pick_body T) (map run_node ts) (c, nx) = (c, nx) \<or>
    (\<exists>p. first_best g ts p \<and> c < g p \<and> fold (pick_body T) (map run_node ts) (c, nx) = (g p, Some p))"
  using g
proof (induction ts arbitrary: c nx)
  case Nil
  then show ?case by simp
next
  case (Cons t ts)
  have gt: "goodness (T t) = g t"
    using Cons.prems by simp
  show ?case
  proof (cases "g t > c")
    case True
    then have "fold (pick_body T) (map run_node (t # ts)) (c, nx) = fold (pick_body T) (map run_node ts) (g t, Some t)"
      by (simp add: pick_body_def gt)
    moreover have "(\<forall>q \<in> set ts. g q \<le> g t) \<and> fold (pick_body T) (map run_node ts) (g t, Some t) = (g t, Some t) \<or>
        (\<exists>p. first_best g ts p \<and> g t < g p \<and> fold (pick_body T) (map run_node ts) (g t, Some t) = (g p, Some p))"
      using Cons.IH [of "g t" "Some t"] Cons.prems by simp
    ultimately show ?thesis
      using True by (auto simp: first_best_Cons)
  next
    case False
    then have "fold (pick_body T) (map run_node (t # ts)) (c, nx) = fold (pick_body T) (map run_node ts) (c, nx)"
      by (simp add: pick_body_def gt)
    moreover have "(\<forall>q \<in> set ts. g q \<le> c) \<and> fold (pick_body T) (map run_node ts) (c, nx) = (c, nx) \<or>
        (\<exists>p. first_best g ts p \<and> c < g p \<and> fold (pick_body T) (map run_node ts) (c, nx) = (g p, Some p))"
      using Cons.IH [of c nx] Cons.prems by simp
    ultimately show ?thesis
      using False by (auto simp: first_best_Cons)
  qed
qed

definition reset_counts :: "u64 set \<Rightarrow> kstate \<Rightarrow> kstate" where
  "reset_counts R s =
     s\<lparr>tasks := (\<lambda>p. if p \<in> R then (tasks s p)\<lparr>count := DEF_COUNTER + priority (tasks s p)\<rparr> else tasks s p)\<rparr>"

lemma reset_score_from_ring:
  assumes "ring nx pv (init_task K) (as @ bs)" and "\<And>p. next_task (tasks s p) = nx p"
  shows "reset_score_from K (last (init_task K # as)) s = Some (reset_counts (set bs) s)"
  using assms
proof (induction bs arbitrary: as s)
  case Nil
  then have "nx (last (init_task K # as)) = init_task K"
    using ring_split [of nx pv "init_task K" as "[]"] by simp
  then show ?case
    using Nil.prems(2) by (simp add: reset_score_from.simps reset_counts_def)
next
  case (Cons b bs)
  have n: "nx (last (init_task K # as)) = b" and d: "b \<noteq> init_task K" "b \<notin> set bs"
    using Cons.prems(1) by (auto simp: ring_split [of _ _ _ as])
  define s1 where "s1 = upd_task b (\<lambda>t. t\<lparr>count := DEF_COUNTER + priority t\<rparr>) s"
  have "reset_score_from K (last (init_task K # as)) s = reset_score_from K b s1"
    using n d Cons.prems(2) by (subst reset_score_from.simps) (simp add: s1_def del: last.simps)
  also have "\<dots> = reset_score_from K (last (init_task K # as @ [b])) s1"
    by simp
  also have "\<dots> = Some (reset_counts (set bs) s1)"
    using Cons.prems by (intro Cons.IH) (auto simp: s1_def upd_task_def)
  also have "reset_counts (set bs) s1 = reset_counts (set (b # bs)) s"
    using d(2) by (auto simp: reset_counts_def s1_def upd_task_def fun_eq_iff)
  finally show ?case .
qed

lemma reset_score_ring:
  assumes "queue_inv K s ts rs"
  shows "reset_score K s = Some (reset_counts (set rs) s)"
  using reset_score_from_ring [of _ _ K "[]" rs s] assms by (auto simp: reset_score_def queue_inv_def)

lemma queue_inv_reset:
  assumes "queue_inv K s ts rs"
  shows "queue_inv K (reset_counts (set rs) s) ts rs"
    and "\<forall>q \<in> set ts. 0 < count (tasks (reset_counts (set rs) s) q)"
proof -
  have ok: "task_ok (tasks s p)" if "p \<in> ring_tasks K rs" for p
    using assms that by (auto simp: queue_inv_def)
  have "(\<lambda>p. next_task (tasks (reset_counts (set rs) s) p)) = (\<lambda>p. next_task (tasks s p))"
    "(\<lambda>p. prev_task (tasks (reset_counts (set rs) s) p)) = (\<lambda>p. prev_task (tasks s p))"
    by (auto simp: reset_counts_def)
  moreover have "task_ok (tasks (reset_counts (set rs) s) p)" if "p \<in> ring_tasks K rs" for p
    using ok [OF that] by (auto simp: reset_counts_def task_ok_def DEF_COUNTER_def HZ_def)
  ultimately show "queue_inv K (reset_counts (set rs) s) ts rs"
    using assms by (simp add: queue_inv_def) (simp add: reset_counts_def)
  show "\<forall>q \<in> set ts. 0 < count (tasks (reset_counts (set rs) s) q)"
  proof
    fix q assume "q \<in> set ts"
    then have "q \<in> set rs" using assms by (auto simp: queue_inv_def)
    with ok [of q] show "0 < count (tasks (reset_counts (set rs) s) q)"
      by (simp add: reset_counts_def task_ok_def DEF_COUNTER_def HZ_def ring_tasks_def)
  qed
qed

lemma pick_scan:
  assumes "queue_inv K s ts rs" and "ts \<noteq> []"
  obtains p where "first_best (\<lambda>q. count (tasks s q)) ts p" and "0 \<le> count (tasks s p)"
    and "\<And>nx. pick_repeat K nx s =
      (if count (tasks s p) = 0 then do { s \<leftarrow> reset_score K s; pick_repeat K (Some p) s } else Some (Some p, s))"
proof -
  have ok: "task_ok (tasks s q)" if "q \<in> set ts" for q
    using assms that by (auto simp: queue_inv_def ring_tasks_def)
  have each: "list_for_each (rq_head K) (nodes s) = Some (map run_node ts)"
    using assms(1) by (simp add: queue_inv_def kl.each_rep)
  have "hd ts \<in> set ts"
    using assms(2) by simp
  then have "\<not> (\<forall>q \<in> set ts. count (tasks s q) \<le> - 1000)"
    using ok by (force simp: task_ok_def)
  then have F: "\<exists>p. first_best (\<lambda>q. count (tasks s q)) ts p \<and>
      fold (pick_body (tasks s)) (map run_node ts) (- 1000, nx) = (count (tasks s p), Some p)" for nx
    using fold_pick [of ts "tasks s" "\<lambda>q. count (tasks s q)" "- 1000" nx] goodness_ok [OF ok] by blast
  then obtain p where p: "first_best (\<lambda>q. count (tasks s q)) ts p"
    by blast
  have f: "fold (pick_body (tasks s)) (map run_node ts) (- 1000, nx) = (count (tasks s p), Some p)" for nx
    using F [of nx] first_best_unique [OF p] by auto
  show thesis
    by (rule that [OF p]) (use first_best_max [OF p] ok in \<open>auto simp: task_ok_def pick_repeat.simps [of K _ s] each f\<close>)
qed

text \<open>The state after the choice: the counts are reset when every queued task has used its slice.\<close>

definition after_pick :: "u64 list \<Rightarrow> u64 list \<Rightarrow> kstate \<Rightarrow> kstate" where
  "after_pick ts rs s = (if \<forall>q \<in> set ts. count (tasks s q) = 0 then reset_counts (set rs) s else s)"

lemma pick_spec:
  assumes q: "queue_inv K s ts rs" and ne: "ts \<noteq> []"
  obtains p where "pick_next_task K prev s = Inr (p, after_pick ts rs s)"
    and "first_best (\<lambda>q. count (tasks (after_pick ts rs s) q)) ts p"
    and "0 < count (tasks (after_pick ts rs s) p)"
    and "queue_inv K (after_pick ts rs s) ts rs"
proof -
  obtain p where p: "first_best (\<lambda>q. count (tasks s q)) ts p" "0 \<le> count (tasks s p)"
    and r: "\<And>nx. pick_repeat K nx s =
      (if count (tasks s p) = 0 then do { s \<leftarrow> reset_score K s; pick_repeat K (Some p) s } else Some (Some p, s))"
    using pick_scan [OF q ne] by blast
  note m = first_best_max [OF p(1)]
  have nn: "0 \<le> count (tasks s x)" if "x \<in> set ts" for x
    using q that by (auto simp: queue_inv_def ring_tasks_def task_ok_def)
  show thesis
  proof (cases "count (tasks s p) = 0")
    case False
    then have "after_pick ts rs s = s"
      using m by (auto simp: after_pick_def)
    with False p r [of None] q show thesis
      by (intro that [of p]) (simp_all add: pick_next_task_def simple_sched_class_def pick_next_task_simple_def)
  next
    case True
    then have ap: "after_pick ts rs s = reset_counts (set rs) s"
      using m nn by (auto simp: after_pick_def intro: antisym)
    note Q = queue_inv_reset [OF q]
    obtain p' where p': "first_best (\<lambda>q. count (tasks (reset_counts (set rs) s) q)) ts p'"
      and r': "\<And>nx. pick_repeat K nx (reset_counts (set rs) s) =
        (if count (tasks (reset_counts (set rs) s) p') = 0 then
           do { s \<leftarrow> reset_score K (reset_counts (set rs) s); pick_repeat K (Some p') s }
         else Some (Some p', reset_counts (set rs) s))"
      using pick_scan [OF Q(1) ne] by blast
    have pos: "0 < count (tasks (reset_counts (set rs) s) p')"
      using first_best_max [OF p'] Q(2) by blast
    then have "pick_next_task K prev s = Inr (p', reset_counts (set rs) s)"
      using True r [of None] r' reset_score_ring [OF q]
      by (simp add: pick_next_task_def simple_sched_class_def pick_next_task_simple_def)
    with p' pos Q(1) show thesis
      by (intro that [of p']) (simp_all add: ap)
  qed
qed

section \<open>Operations that keep the invariant\<close>

text \<open>Changes that touch neither links, nor counts, nor priorities, nor the queue.\<close>

lemma queue_inv_cong:
  assumes "queue_inv K s ts rs"
    and "nodes s' = nodes s" and "nr_running (g_rq s') = nr_running (g_rq s)"
    and "\<And>p. next_task (tasks s' p) = next_task (tasks s p)" "\<And>p. prev_task (tasks s' p) = prev_task (tasks s p)"
    and "\<And>p. task_ok (tasks s p) \<Longrightarrow> task_ok (tasks s' p)"
  shows "queue_inv K s' ts rs"
  using assms by (simp add: queue_inv_def)

lemma queue_inv_dequeue:
  assumes "queue_inv K s ts rs" and "p \<in> set ts"
  shows "queue_inv K (dequeue_task p s) (remove1 p ts) rs"
proof -
  have d: "distinct ts"
    using assms(1) by (auto simp: queue_inv_def ring_def distinct_map)
  have "map run_node (remove1 p ts) = remove1 (run_node p) (map run_node ts)"
    by (induction ts) auto
  moreover have "lring (list_del (run_node p) (nodes s)) (rq_head K) (remove1 (run_node p) (map run_node ts))"
    using assms by (intro kl.rep_del) (auto simp: queue_inv_def)
  moreover have "length ts = Suc (length (remove1 p ts))"
    using length_pos_if_in_set [OF assms(2)] assms(2) by (simp add: length_remove1)
  then have "of_nat (length ts) - 1 = (of_nat (length (remove1 p ts)) :: u32)"
    by (simp del: length_remove1)
  ultimately show ?thesis
    using assms set_remove1_subset [of p ts]
    by (auto simp: queue_inv_def dequeue_task_def simple_sched_class_def dequeue_task_simple_def)
qed

lemma queue_inv_enqueue:
  assumes "queue_inv K s ts rs" and "p \<in> set rs" and "p \<notin> set ts" and "run_node p \<noteq> rq_head K"
  shows "queue_inv K (enqueue_task K p s) (p # ts) rs"
proof -
  have "run_node p \<notin> set (rq_head K # map run_node ts)"
    using assms by auto
  with assms kl.rep_add [of "nodes s" "rq_head K" "map run_node ts" "run_node p"] show ?thesis
    by (simp add: queue_inv_def enqueue_task_def simple_sched_class_def enqueue_task_simple_def)
qed

text \<open>Inside \<^verbatim>\<open>__schedule\<close> the running task has preemption disabled once.\<close>

definition mid_inv :: "kaddrs \<Rightarrow> kstate \<Rightarrow> u64 list \<Rightarrow> bool" where
  "mid_inv K s rs \<longleftrightarrow>
     switch_ret K \<noteq> ret_from_fork K \<and> current s \<in> ring_tasks K rs \<and> preempt_count (tasks s (current s)) = 1 \<and>
     (\<forall>p \<in> ring_tasks K rs. p \<noteq> current s \<longrightarrow>
        preempt_count (tasks s p) = (if pc (ctx (tasks s p)) = ret_from_fork K then 0 else 1))"

lemmas irq_defs = raw_local_irq_enable_def raw_local_irq_disable_def schedule_tail_def
lemmas preempt_defs = preempt_enable_def preempt_disable_def upd_task_def schedule_exit_def

lemma schedule_exit_inv:
  assumes "queue_inv K s ts rs" and "mid_inv K s rs"
  shows "sched_inv K (schedule_exit k s) ts rs" and "current (schedule_exit k s) = current s"
    and "log (schedule_exit k s) = log s" and "count (tasks (schedule_exit k s) q) = count (tasks s q)"
    and "state (tasks (schedule_exit k s) q) = state (tasks s q)"
proof -
  have "queue_inv K (schedule_exit k s) ts rs"
    by (rule queue_inv_cong [OF assms(1)]) (auto simp: preempt_defs irq_defs task_ok_def split: kont.split)
  then show "sched_inv K (schedule_exit k s) ts rs"
    using assms(2) by (auto simp: sched_inv_def preempt_inv_def mid_inv_def preempt_defs irq_defs split: kont.split)
qed (auto simp: preempt_defs irq_defs split: kont.split)

lemma switch_in_inv:
  assumes q: "queue_inv K s ts rs" and m: "mid_inv K s rs"
    and nx: "next \<in> ring_tasks K rs" "next \<noteq> current s"
  defines "s' \<equiv> switch_in K (current s) (cpu_switch_to K (current s) next s)"
  shows "sched_inv K s' ts rs" and "current s' = next" and "log s' = log s"
    and "count (tasks s' x) = count (tasks s x)" and "cpu s' = ctx (tasks s next)"
    and "ctx (tasks s' (current s)) = (cpu s)\<lparr>pc := switch_ret K\<rparr>"
    and "state (tasks s' x) = state (tasks s x)" and "irq_on s'"
proof -
  have nz: "current s \<noteq> 0"
    using q m by (auto simp: queue_inv_def mid_inv_def)
  define s1 where "s1 = cpu_switch_to K (current s) next s"
  have q1: "queue_inv K s1 ts rs"
    by (rule queue_inv_cong [OF q]) (auto simp: s1_def cpu_switch_to_def upd_task_def task_ok_def)
  have c1: "current s1 = next" "log s1 = log s" "cpu s1 = ctx (tasks s next)"
    "count (tasks s1 x) = count (tasks s x)" "state (tasks s1 x) = state (tasks s x)" "ctx (tasks s1 (current s)) = (cpu s)\<lparr>pc := switch_ret K\<rparr>"
    using nx(2) by (auto simp: s1_def cpu_switch_to_def upd_task_def)
  have p1: "preempt_count (tasks s1 p) = preempt_count (tasks s p)" for p
    by (simp add: s1_def cpu_switch_to_def upd_task_def)
  have k1: "ctx (tasks s1 p) = ctx (tasks s p)" if "p \<noteq> current s" for p
    using that by (simp add: s1_def cpu_switch_to_def upd_task_def)
  have oth: "preempt_count (tasks s1 p) = (if pc (ctx (tasks s1 p)) = ret_from_fork K then 0 else 1)"
    if "p \<in> ring_tasks K rs" for p
    using that m c1(6) k1 [of p] by (cases "p = current s") (auto simp: mid_inv_def p1)
  have "irq_on s' \<and> sched_inv K s' ts rs \<and> current s' = next \<and> log s' = log s \<and> count (tasks s' x) = count (tasks s x) \<and>
      state (tasks s' x) = state (tasks s x) \<and> cpu s' = ctx (tasks s next) \<and> ctx (tasks s' (current s)) = (cpu s)\<lparr>pc := switch_ret K\<rparr>"
  proof (cases "pc (cpu s1) = ret_from_fork K")
    case True
    have s': "s' = schedule_tail s1"
      using True by (simp add: s'_def s1_def [symmetric] switch_in_def)
    have "queue_inv K s' ts rs"
      by (rule queue_inv_cong [OF q1]) (auto simp: s' irq_defs)
    then show ?thesis
      using True oth nx(1) m c1 k1 [OF nx(2)] by (auto simp: s' irq_defs sched_inv_def preempt_inv_def mid_inv_def)
  next
    case False
    define s2 where "s2 = schedule_tail (s1\<lparr>g_rq := (g_rq s1)\<lparr>nr_switches := nr_switches (g_rq s1) + 1, curr := next\<rparr>\<rparr>)"
    have s': "s' = schedule_exit (kont s1 next) s2"
      using False c1(1) nz by (simp add: s'_def s1_def [symmetric] switch_in_def s2_def irq_defs Let_def)
    have q2: "queue_inv K s2 ts rs"
      by (rule queue_inv_cong [OF q1]) (auto simp: s2_def irq_defs)
    have "mid_inv K s2 rs"
      using False oth nx(1) m c1 k1 [OF nx(2)] by (auto simp: s2_def irq_defs mid_inv_def)
    from schedule_exit_inv [OF q2 this, of "kont s1 next"] c1 show ?thesis
      by (simp add: s' [symmetric]) (auto simp: s' s2_def irq_defs preempt_defs split: kont.split)
  qed
  then show "sched_inv K s' ts rs" "current s' = next" "log s' = log s" "count (tasks s' x) = count (tasks s x)"
    "cpu s' = ctx (tasks s next)" "ctx (tasks s' (current s)) = (cpu s)\<lparr>pc := switch_ret K\<rparr>"
    "state (tasks s' x) = state (tasks s x)" "irq_on s'"
    by auto
qed

lemma resched_kept:
  "need_resched (tasks (schedule_exit k s) x) = need_resched (tasks s x)"
  "need_resched (tasks (switch_in K p s) x) = need_resched (tasks s x)"
  "need_resched (tasks (cpu_switch_to K p q s) x) = need_resched (tasks s x)"
  by (auto simp: switch_in_def preempt_defs irq_defs cpu_switch_to_def Let_def split: kont.split)

text \<open>The queue the next task is chosen from: without the running task if it is not runnable.\<close>

definition ready :: "kstate \<Rightarrow> u64 list \<Rightarrow> u64 list" where
  "ready s ts = (if state (tasks s (current s)) \<noteq> TASK_RUNNING then remove1 (current s) ts else ts)"

lemma schedule_core_spec:
  assumes q: "queue_inv K s ts rs" and m: "mid_inv K s rs"
    and st: "state (tasks s (current s)) \<noteq> TASK_RUNNING \<longrightarrow> current s \<in> set ts" and ne: "ready s ts \<noteq> []"
  obtains s' where "schedule_core K k s = Inr s'" and "sched_inv K s' (ready s ts) rs"
    and "first_best (\<lambda>q. count (tasks s' q)) (ready s ts) (current s')" and "0 < count (tasks s' (current s'))"
    and "log s' = log s" and "\<And>x. state (tasks s' x) = state (tasks s x)"
    and "current s' \<noteq> current s \<Longrightarrow> irq_on s' \<and> cpu s' = ctx (tasks s (current s')) \<and>
      ctx (tasks s' (current s)) = (cpu s)\<lparr>pc := switch_ret K\<rparr>"
    and "current s' = current s \<Longrightarrow> irq_on s' = (k = In_preempt) \<and> cpu s' = cpu s"
    and "\<And>x. need_resched (tasks s' x) = (if x = current s then 0 else need_resched (tasks s x))"
    and "\<exists>q \<in> set (ready s ts). count (tasks s q) \<noteq> 0 \<Longrightarrow> (\<And>x. count (tasks s' x) = count (tasks s x))"
proof -
  define prev where "prev = current s"
  define s1 where "s1 = raw_local_irq_disable (schedule_debug prev s)"
  define s2 where "s2 = (if state (tasks s1 prev) \<noteq> TASK_RUNNING then dequeue_task prev s1 else s1)"
  define ts' where "ts' = ready s ts"
  define s3 where "s3 = after_pick ts' rs s2"
  define s4 where "s4 = clear_task_resched prev s3"
  have s1: "s1 = s\<lparr>irq_on := False\<rparr>"
    using m by (simp add: s1_def schedule_debug_def mid_inv_def irq_defs)
  have q1: "queue_inv K s1 ts rs"
    by (rule queue_inv_cong [OF q]) (simp_all add: s1)
  have q2: "queue_inv K s2 ts' rs"
    using q1 st queue_inv_dequeue [OF q1] by (simp add: s2_def ts'_def ready_def s1 prev_def)
  have f2: "tasks s2 = tasks s" "sp_el0 s2 = sp_el0 s" "cpu s2 = cpu s" "log s2 = log s" "irq_on s2 = False" "kont s2 = kont s"
    by (auto simp: s2_def s1 dequeue_task_def simple_sched_class_def dequeue_task_simple_def)
  obtain p where p: "pick_next_task K prev s2 = Inr (p, s3)" and fb: "first_best (\<lambda>q. count (tasks s3 q)) ts' p"
    and pos: "0 < count (tasks s3 p)" and q3: "queue_inv K s3 ts' rs"
    using pick_spec [OF q2 ne [folded ts'_def], of prev] unfolding s3_def by blast
  have f3: "sp_el0 s3 = sp_el0 s" "cpu s3 = cpu s" "log s3 = log s" "irq_on s3 = False"
    "preempt_count (tasks s3 x) = preempt_count (tasks s x)" "state (tasks s3 x) = state (tasks s x)" "ctx (tasks s3 x) = ctx (tasks s x)" for x
    using f2 by (auto simp: s3_def after_pick_def reset_counts_def)
  have q4: "queue_inv K s4 ts' rs"
    by (rule queue_inv_cong [OF q3]) (auto simp: s4_def clear_task_resched_def upd_task_def task_ok_def)
  have f4: "sp_el0 s4 = sp_el0 s" "cpu s4 = cpu s" "log s4 = log s" "irq_on s4 = False"
    "preempt_count (tasks s4 x) = preempt_count (tasks s x)" "state (tasks s4 x) = state (tasks s x)" "ctx (tasks s4 x) = ctx (tasks s x)"
    "count (tasks s4 x) = count (tasks s3 x)" for x
    using f3 by (auto simp: s4_def clear_task_resched_def upd_task_def)
  have r4: "need_resched (tasks s4 x) = (if x = current s then 0 else need_resched (tasks s x))" for x
    using f2(1) by (auto simp: s4_def clear_task_resched_def upd_task_def s3_def after_pick_def reset_counts_def prev_def)
  have n4: "count (tasks s4 x) = count (tasks s x)" if "\<exists>q \<in> set (ready s ts). count (tasks s q) \<noteq> 0" for x
    using that f2(1) f4(8) [of x] by (auto simp: s3_def after_pick_def ts'_def)
  have m4: "mid_inv K s4 rs"
    using m by (simp add: mid_inv_def f4)
  have pr: "p \<in> ring_tasks K rs"
    using first_best_max [OF fb] q3 by (auto simp: queue_inv_def ring_tasks_def)
  have run: "schedule_core K k s = (if p \<noteq> prev
      then Inr (switch_in K prev (cpu_switch_to K prev p (s4\<lparr>kont := (kont s4)(prev := k)\<rparr>)))
      else Inr (schedule_exit k s4))"
    unfolding schedule_core_def Let_def prev_def [symmetric] s1_def [symmetric] s2_def [symmetric] p
    by (simp add: s4_def switch_to_def)
  show thesis
  proof (cases "p = prev")
    case True
    note E = schedule_exit_inv [OF q4 m4, of k]
    have r: "schedule_core K k s = Inr (schedule_exit k s4)"
      using run True by simp
    have x: "irq_on (schedule_exit k s4) = (k = In_preempt) \<and> cpu (schedule_exit k s4) = cpu s"
      using f4 by (cases k) (auto simp: preempt_defs irq_defs)
    show thesis
      by (rule that [OF r]) (use E x True fb pos f4 r4 n4 in \<open>simp_all add: ts'_def prev_def resched_kept\<close>)
  next
    case False
    define s5 where "s5 = s4\<lparr>kont := (kont s4)(prev := k)\<rparr>"
    have q5: "queue_inv K s5 ts' rs" and m5: "mid_inv K s5 rs"
      using q4 m4 by (simp_all add: s5_def queue_inv_def mid_inv_def)
    have np: "p \<noteq> current s5" and c5: "current s5 = prev"
      using False f4 by (simp_all add: s5_def prev_def)
    note E = switch_in_inv [OF q5 m5 pr np, unfolded c5]
    have r: "schedule_core K k s = Inr (switch_in K prev (cpu_switch_to K prev p s5))"
      using run False by (simp add: s5_def)
    show thesis
      by (rule that [OF r]) (use E False fb pos f4 r4 n4 in \<open>simp_all add: ts'_def prev_def s5_def resched_kept\<close>)
  qed
qed

lemma mid_inv_disable:
  assumes "sched_inv K s ts rs"
  shows "queue_inv K (preempt_disable s) ts rs" and "mid_inv K (preempt_disable s) rs"
    and "ready (preempt_disable s) ts = ready s ts"
proof -
  show "queue_inv K (preempt_disable s) ts rs"
    by (rule queue_inv_cong [of K s]) (use assms in \<open>auto simp: sched_inv_def preempt_defs task_ok_def\<close>)
qed (use assms in \<open>auto simp: sched_inv_def preempt_inv_def mid_inv_def preempt_defs ready_def\<close>)

text \<open>\<^verbatim>\<open>schedule\<close> and \<^verbatim>\<open>preempt_schedule_irq\<close> on a state that satisfies the invariant.\<close>

lemma schedule_spec:
  assumes i: "sched_inv K s ts rs"
    and st: "state (tasks s (current s)) \<noteq> TASK_RUNNING \<longrightarrow> current s \<in> set ts" and ne: "ready s ts \<noteq> []"
  obtains s' where "schedule K s = Inr s'" and "sched_inv K s' (ready s ts) rs"
    and "first_best (\<lambda>q. count (tasks s' q)) (ready s ts) (current s')" and "0 < count (tasks s' (current s'))"
    and "log s' = log s" and "\<And>x. state (tasks s' x) = state (tasks s x)"
    and "current s' \<noteq> current s \<Longrightarrow> irq_on s' \<and> cpu s' = ctx (tasks s (current s')) \<and>
      ctx (tasks s' (current s)) = (cpu s)\<lparr>pc := switch_ret K\<rparr>"
    and "current s' = current s \<Longrightarrow> \<not> irq_on s' \<and> cpu s' = cpu s"
    and "\<And>x. need_resched (tasks s' x) = (if x = current s then 0 else need_resched (tasks s x))"
    and "\<exists>q \<in> set (ready s ts). count (tasks s q) \<noteq> 0 \<Longrightarrow> (\<And>x. count (tasks s' x) = count (tasks s x))"
proof -
  define s1 where "s1 = preempt_disable s"
  have f: "current s1 = current s" "log s1 = log s" "cpu s1 = cpu s"
    "state (tasks s1 x) = state (tasks s x)" "ctx (tasks s1 x) = ctx (tasks s x)"
    "need_resched (tasks s1 x) = need_resched (tasks s x)" "count (tasks s1 x) = count (tasks s x)" for x
    by (simp_all add: s1_def preempt_defs)
  note M = mid_inv_disable [OF i, folded s1_def]
  show thesis
    by (rule schedule_core_spec [OF M(1,2), of In_schedule], unfold M(3) f)
      (use st ne in \<open>auto simp: schedule_def s1_def [symmetric] intro!: that\<close>)
qed

lemma preempt_spec:
  assumes i: "sched_inv K s ts rs"
    and st: "state (tasks s (current s)) \<noteq> TASK_RUNNING \<longrightarrow> current s \<in> set ts" and ne: "ready s ts \<noteq> []"
  obtains s' where "preempt_schedule_irq K s = Inr s'" and "sched_inv K s' (ready s ts) rs"
    and "first_best (\<lambda>q. count (tasks s' q)) (ready s ts) (current s')" and "0 < count (tasks s' (current s'))"
    and "log s' = log s" and "\<And>x. state (tasks s' x) = state (tasks s x)"
proof -
  define s1 where "s1 = raw_local_irq_enable (preempt_disable s)"
  have "queue_inv K s1 ts rs" "mid_inv K s1 rs"
    using mid_inv_disable [OF i] by (simp_all add: s1_def irq_defs queue_inv_def mid_inv_def)
  moreover have "ready s1 ts = ready s ts"
    by (simp add: s1_def irq_defs ready_def preempt_defs)
  ultimately have M: "queue_inv K s1 ts rs" "mid_inv K s1 rs" "ready s1 ts = ready s ts"
    by blast+
  have f: "current s1 = current s" "log s1 = log s" "state (tasks s1 x) = state (tasks s x)" for x
    by (simp_all add: s1_def preempt_defs irq_defs)
  have r: "preempt_schedule_irq K s = schedule_core K In_preempt s1"
    using i by (simp add: preempt_schedule_irq_def s1_def sched_inv_def preempt_inv_def)
  show thesis
    by (rule schedule_core_spec [OF M(1,2), of In_preempt], unfold M(3) f)
      (use st ne in \<open>auto simp: r intro!: that\<close>)
qed

section \<open>The tick\<close>

lemma tick_effect:
  "tasks (tick_handle_periodic s) x =
     (if x \<noteq> current s then tasks s x
      else if count (tasks s x) \<le> 1 then (tasks s x)\<lparr>count := 0, need_resched := 1\<rparr>
      else (tasks s x)\<lparr>count := count (tasks s x) - 1\<rparr>)"
  "current (tick_handle_periodic s) = current s" "nodes (tick_handle_periodic s) = nodes s"
  "g_rq (tick_handle_periodic s) = g_rq s" "cpu (tick_handle_periodic s) = cpu s"
  "kont (tick_handle_periodic s) = kont s" "irq_on (tick_handle_periodic s) = irq_on s"
  "log (tick_handle_periodic s) = log s @
     (if count (tasks s (current s)) \<le> 1
      then [(''pid %d need_resched\<newline>'', [word_of_int (pid (tasks s (current s)))])] else [])"
  by (auto simp: tick_handle_periodic_def task_tick_def simple_sched_class_def task_tick_simple_def
      upd_task_def printk_msg_def Let_def)

lemma tick_inv:
  assumes "sched_inv K s ts rs"
  shows "sched_inv K (tick_handle_periodic s) ts rs"
proof -
  have "queue_inv K (tick_handle_periodic s) ts rs"
    by (rule queue_inv_cong [of K s])
      (use assms in \<open>auto simp: sched_inv_def tick_effect task_ok_def\<close>)
  then show ?thesis
    using assms by (auto simp: sched_inv_def preempt_inv_def tick_effect)
qed

lemma ready_tick [simp]: "ready (tick_handle_periodic s) ts = ready s ts"
  by (simp add: ready_def tick_effect)

lemma ready_irq [simp]: "ready (s\<lparr>irq_on := b\<rparr>) ts = ready s ts"
  by (simp add: ready_def)

lemma sched_inv_irq [simp]: "sched_inv K (s\<lparr>irq_on := b\<rparr>) ts rs = sched_inv K s ts rs"
  by (simp add: sched_inv_def queue_inv_def preempt_inv_def)

text \<open>
  An interrupt whose handler keeps the invariant and the tasks' states: if nobody asked for a
  reschedule the interrupted task continues, otherwise the best ready task runs.
\<close>

lemma el1_irq_spec:
  assumes i1: "sched_inv K s1 ts rs" and s1: "s1 = h (s\<lparr>irq_on := False\<rparr>)"
    and st: "state (tasks s1 (current s1)) \<noteq> TASK_RUNNING \<longrightarrow> current s1 \<in> set ts"
    and ne: "need_resched (tasks s1 (current s1)) \<noteq> 0 \<longrightarrow> ready s1 ts \<noteq> []"
  obtains s' ts' where "el1_irq K h s = Inr s'" and "sched_inv K s' ts' rs" and "ts' = ts \<or> ts' = ready s1 ts"
    and "\<And>x. state (tasks s' x) = state (tasks s1 x)" and "log s' = log s1"
    and "need_resched (tasks s1 (current s1)) = 0 \<Longrightarrow> ts' = ts \<and> s' = s1\<lparr>irq_on := True\<rparr>"
    and "need_resched (tasks s1 (current s1)) \<noteq> 0 \<Longrightarrow>
      ts' = ready s1 ts \<and> first_best (\<lambda>q. count (tasks s' q)) ts' (current s')"
proof (cases "need_resched (tasks s1 (current s1)) = 0")
  case True
  then have "el1_irq K h s = Inr (s1\<lparr>irq_on := True\<rparr>)"
    by (simp add: el1_irq_def Let_def s1)
  with True i1 show thesis
    by (intro that [of "s1\<lparr>irq_on := True\<rparr>" ts]) auto
next
  case False
  have pc0: "preempt_count (tasks s1 (current s1)) = 0"
    using i1 by (simp add: sched_inv_def preempt_inv_def)
  obtain s' where r: "preempt_schedule_irq K s1 = Inr s'" and i': "sched_inv K s' (ready s1 ts) rs"
    and fb: "first_best (\<lambda>q. count (tasks s' q)) (ready s1 ts) (current s')"
    and l: "log s' = log s1" and st': "\<And>x. state (tasks s' x) = state (tasks s1 x)"
    by (rule preempt_spec [OF i1]) (use st ne False in auto)
  have "el1_irq K h s = Inr s'"
    using False pc0 r by (simp add: el1_irq_def Let_def s1)
  with False i' fb l st' show thesis
    by (intro that [of s' "ready s1 ts"]) auto
qed

lemma tick_irq_off: "tick_handle_periodic (s\<lparr>irq_on := b\<rparr>) = (tick_handle_periodic s)\<lparr>irq_on := b\<rparr>"
  by (simp add: tick_handle_periodic_def task_tick_def simple_sched_class_def task_tick_simple_def
      upd_task_def printk_msg_def Let_def)

lemma timer_spec:
  assumes i: "sched_inv K s ts rs"
    and st: "state (tasks s (current s)) \<noteq> TASK_RUNNING \<longrightarrow> current s \<in> set ts"
    and ne: "count (tasks s (current s)) \<le> 1 \<or> need_resched (tasks s (current s)) \<noteq> 0 \<longrightarrow> ready s ts \<noteq> []"
  obtains s' ts' where "el1_irq K tick_handle_periodic s = Inr s'" and "sched_inv K s' ts' rs"
    and "ts' = ts \<or> ts' = ready s ts"
    and "\<And>x. state (tasks s' x) = state (tasks s x)"
    and "log s' = log (tick_handle_periodic s)"
    and "\<not> (count (tasks s (current s)) \<le> 1 \<or> need_resched (tasks s (current s)) \<noteq> 0) \<Longrightarrow>
      ts' = ts \<and> s' = (tick_handle_periodic s)\<lparr>irq_on := True\<rparr>"
    and "count (tasks s (current s)) \<le> 1 \<Longrightarrow> ts' = ready s ts \<and> first_best (\<lambda>q. count (tasks s' q)) ts' (current s')"
proof -
  define s1 where "s1 = tick_handle_periodic (s\<lparr>irq_on := False\<rparr>)"
  have s1: "s1 = (tick_handle_periodic s)\<lparr>irq_on := False\<rparr>"
    by (simp add: s1_def tick_irq_off)
  have i1: "sched_inv K s1 ts rs"
    using tick_inv [OF i] by (simp add: s1)
  have f: "need_resched (tasks s1 (current s1)) \<noteq> 0 \<longleftrightarrow>
      count (tasks s (current s)) \<le> 1 \<or> need_resched (tasks s (current s)) \<noteq> 0"
    "current s1 = current s" "ready s1 ts = ready s ts" "log s1 = log (tick_handle_periodic s)"
    "state (tasks s1 x) = state (tasks s x)" for x
    by (simp_all add: s1 ready_def tick_effect)
  obtain s' ts' where "el1_irq K tick_handle_periodic s = Inr s'" "sched_inv K s' ts' rs" "ts' = ts \<or> ts' = ready s1 ts"
    "\<And>x. state (tasks s' x) = state (tasks s1 x)" "log s' = log s1"
    "need_resched (tasks s1 (current s1)) = 0 \<Longrightarrow> ts' = ts \<and> s' = s1\<lparr>irq_on := True\<rparr>"
    "need_resched (tasks s1 (current s1)) \<noteq> 0 \<Longrightarrow>
      ts' = ready s1 ts \<and> first_best (\<lambda>q. count (tasks s' q)) ts' (current s')"
    by (rule el1_irq_spec [where h = tick_handle_periodic, OF i1 s1_def]) (use st ne f in auto)
  then show thesis
    by (intro that [of s' ts']) (use f in \<open>auto simp: s1\<close>)
qed

end
