(* ===== verification/Fork.thy ===== *)
theory Fork
  imports Sched_Inv Page_Alloc
begin

text \<open>
  Task creation: \<^verbatim>\<open>kernel/fork.c\<close>, with the trap frame of \<^verbatim>\<open>asm/ptrace.h\<close> and the offsets that
  \<^verbatim>\<open>arch/arm64/core/asm-offsets.c\<close> exports to the assembly. The page of a new task is not cleared:
  a field \<^verbatim>\<open>do_fork\<close> does not set keeps what the page held.
\<close>

section \<open>Data\<close>

record pt_regs =
  regs :: "u64 list"
  frame_sp :: u64
  frame_pc :: u64
  pstate :: u64

definition zero_frame :: pt_regs where
  "zero_frame = \<lparr>regs = replicate 31 0, frame_sp = 0, frame_pc = 0, pstate = 0\<rparr>"

definition zero_context :: cpu_context where
  "zero_context = \<lparr>x19 = 0, x20 = 0, x21 = 0, x22 = 0, x23 = 0, x24 = 0, x25 = 0, x26 = 0, x27 = 0, x28 = 0,
     fp = 0, sp = 0, pc = 0\<rparr>"

definition PSR_MODE_EL1h :: u64 where [yios_consts]: "PSR_MODE_EL1h = 5"
definition NR_TASK :: nat where [yios_consts]: "NR_TASK = 64"
definition THREAD_SIZE :: u64 where [yios_consts]: "THREAD_SIZE = PAGE_SIZE"
definition THREAD_START_SP :: u64 where [yios_consts]: "THREAD_START_SP = THREAD_SIZE - 8"

text \<open>The structure layout (LP64) as \<^verbatim>\<open>asm-offsets.c\<close> computes it.\<close>

definition S_X :: "nat \<Rightarrow> u64" where "S_X i = of_nat i * 8"
definition S_FP :: u64 where [yios_consts]: "S_FP = S_X 29"
definition S_LR :: u64 where [yios_consts]: "S_LR = S_X 30"
definition S_SP :: u64 where [yios_consts]: "S_SP = 31 * 8"
definition S_PC :: u64 where [yios_consts]: "S_PC = S_SP + 8"
definition S_PSTATE :: u64 where [yios_consts]: "S_PSTATE = S_PC + 8"
definition STACK_FRAME_SIZE :: u64 where [yios_consts]: "STACK_FRAME_SIZE = S_PSTATE + 8"
definition THREAD_CPU_CONTEXT :: u64 where [yios_consts]: "THREAD_CPU_CONTEXT = 4 + 4 + 8 + 4 + 4"
definition NEED_RESCHED :: u64 where [yios_consts]: "NEED_RESCHED = run_list_offset + 16"
definition TI_PREEMPT :: u64 where [yios_consts]: "TI_PREEMPT = NEED_RESCHED + 4"
definition TASK_STRUCT_SIZE :: u64 where [yios_consts]: "TASK_STRUCT_SIZE = TI_PREEMPT + 4 + 8 + 8"

record fstate =
  ks :: kstate
  mm :: mem_map
  g_task :: "u64 list"
  frames :: "u64 \<Rightarrow> pt_regs"

definition on_ks :: "(kstate \<Rightarrow> kstate) \<Rightarrow> fstate \<Rightarrow> fstate" where
  "on_ks f fs = fs\<lparr>ks := f (ks fs)\<rparr>"

abbreviation set_task :: "u64 \<Rightarrow> (task_struct \<Rightarrow> task_struct) \<Rightarrow> fstate \<Rightarrow> fstate" where
  "set_task p f \<equiv> on_ks (upd_task p f)"

section \<open>The operations\<close>

fun find_empty_from :: "int \<Rightarrow> u64 list \<Rightarrow> int" where
  "find_empty_from i [] = - 1"
| "find_empty_from i (t # ts) = (if t = 0 then i else find_empty_from (i + 1) ts)"

definition find_empty_task :: "u64 list \<Rightarrow> int" where
  "find_empty_task tab = find_empty_from 0 tab"

definition task_pt_regs :: "u64 \<Rightarrow> u64" where
  "task_pt_regs task = task + THREAD_SIZE - STACK_FRAME_SIZE"

definition copy_thread :: "kaddrs \<Rightarrow> u64 \<Rightarrow> u64 \<Rightarrow> u64 \<Rightarrow> u64 \<Rightarrow> fstate \<Rightarrow> int \<times> fstate" where
  "copy_thread K clone_flags p fn arg fs =
     (let childregs = task_pt_regs p;
          fs = fs\<lparr>frames := (frames fs)(childregs := zero_frame)\<rparr>;
          fs = set_task p (\<lambda>t. t\<lparr>ctx := zero_context\<rparr>) fs;
          fs = (if clone_flags AND PF_KTHREAD \<noteq> 0
                then let fs = fs\<lparr>frames := (frames fs)(childregs := (frames fs childregs)\<lparr>pstate := PSR_MODE_EL1h\<rparr>)\<rparr>;
                         fs = set_task p (\<lambda>t. t\<lparr>ctx := (ctx t)\<lparr>x19 := fn\<rparr>\<rparr>) fs
                     in set_task p (\<lambda>t. t\<lparr>ctx := (ctx t)\<lparr>x20 := arg\<rparr>\<rparr>) fs
                else fs);
          fs = set_task p (\<lambda>t. t\<lparr>ctx := (ctx t)\<lparr>pc := ret_from_fork K\<rparr>\<rparr>) fs;
          fs = set_task p (\<lambda>t. t\<lparr>ctx := (ctx t)\<lparr>sp := childregs\<rparr>\<rparr>) fs
      in (0, fs))"

definition SET_LINKS :: "kaddrs \<Rightarrow> u64 \<Rightarrow> kstate \<Rightarrow> kstate" where
  "SET_LINKS K p s =
     (let i = init_task K;
          s = upd_task p (\<lambda>t. t\<lparr>next_task := i\<rparr>) s;
          s = upd_task p (\<lambda>t. t\<lparr>prev_task := prev_task (tasks s i)\<rparr>) s;
          s = upd_task (prev_task (tasks s i)) (\<lambda>t. t\<lparr>next_task := p\<rparr>) s
      in upd_task i (\<lambda>t. t\<lparr>prev_task := p\<rparr>) s)"

definition do_fork :: "kaddrs \<Rightarrow> u64 \<Rightarrow> u64 \<Rightarrow> u64 \<Rightarrow> fstate \<Rightarrow> int \<times> fstate" where
  "do_fork K clone_flags fn arg fs =
     (let (p, m) = get_free_page (mm fs);
          fs = fs\<lparr>mm := m\<rparr>
      in if p = 0 then (- 1, fs)
         else let pid' = find_empty_task (g_task fs) in
         if pid' < 0 then (- 1, fs)
         else let (r, fs) = copy_thread K clone_flags p fn arg fs in
         if r \<noteq> 0 then (- 1, fs)
         else let cur = current (ks fs);
                  fs = set_task p (\<lambda>t. t\<lparr>state := TASK_RUNNING\<rparr>) fs;
                  fs = set_task p (\<lambda>t. t\<lparr>pid := pid'\<rparr>) fs;
                  fs = set_task p (\<lambda>t. t\<lparr>count := (count (tasks (ks fs) cur) + 1) div 2\<rparr>) fs;
                  fs = set_task cur (\<lambda>t. t\<lparr>count := count t div 2\<rparr>) fs;
                  fs = set_task p (\<lambda>t. t\<lparr>need_resched := 0\<rparr>) fs;
                  fs = set_task p (\<lambda>t. t\<lparr>preempt_count := 0\<rparr>) fs;
                  fs = set_task p (\<lambda>t. t\<lparr>priority := 2\<rparr>) fs;
                  fs = fs\<lparr>g_task := (g_task fs)[nat pid' := p]\<rparr>;
                  fs = on_ks (SET_LINKS K p) fs;
                  fs = on_ks (wake_up_process K p) fs
              in (pid', fs))"

section \<open>The invariant with tasks and pages\<close>

definition pool :: "u64 set" where
  "pool = page_of ` {..<NR_PAGES}"

text \<open>What the linker guarantees: the scheduler's own objects do not lie in the page pool.\<close>

definition kaddrs_ok :: "kaddrs \<Rightarrow> bool" where
  "kaddrs_ok K \<longleftrightarrow> init_task K \<noteq> 0 \<and> init_task K \<notin> pool \<and> rq_head K \<notin> run_node ` pool \<and> switch_ret K \<noteq> ret_from_fork K"

definition fork_inv :: "kaddrs \<Rightarrow> fstate \<Rightarrow> u64 list \<Rightarrow> u64 list \<Rightarrow> bool" where
  "fork_inv K fs ts rs \<longleftrightarrow>
     sched_inv K (ks fs) ts rs \<and> (\<forall>p \<in> ring_tasks K rs. state (tasks (ks fs) p) = TASK_RUNNING) \<and>
     length (g_task fs) = NR_TASK \<and> set rs \<subseteq> pool \<and> set rs \<inter> free_pages (mm fs) = {}"

lemma free_pages_pool: "free_pages m \<subseteq> pool"
  by (auto simp: free_pages_def pool_def)

lemma find_empty_from_spec:
  "find_empty_from i tab = (if 0 \<in> set tab then i + int (length (takeWhile (\<lambda>t. t \<noteq> 0) tab)) else - 1)"
  by (induction tab arbitrary: i) auto

text \<open>The context of a new task, and its structure over the old content \<open>t\<close> of its page.\<close>

definition child_ctx :: "kaddrs \<Rightarrow> u64 \<Rightarrow> u64 \<Rightarrow> u64 \<Rightarrow> u64 \<Rightarrow> cpu_context" where
  "child_ctx K clone_flags p fn arg =
     (if clone_flags AND PF_KTHREAD \<noteq> 0 then zero_context\<lparr>x19 := fn, x20 := arg\<rparr> else zero_context)
       \<lparr>pc := ret_from_fork K, sp := task_pt_regs p\<rparr>"

definition child :: "task_struct \<Rightarrow> int \<Rightarrow> int \<Rightarrow> cpu_context \<Rightarrow> task_struct" where
  "child t n c x = t\<lparr>ctx := x, state := TASK_RUNNING, pid := n, count := c, need_resched := 0,
     preempt_count := 0, priority := 2\<rparr>"

definition forked :: "u64 \<Rightarrow> task_struct \<Rightarrow> kstate \<Rightarrow> kstate" where
  "forked p t s = s\<lparr>tasks := (tasks s)(p := t, current s := (tasks s (current s))\<lparr>count := count (tasks s (current s)) div 2\<rparr>)\<rparr>"

lemma ks_copy_thread:
  "fst (copy_thread K f p fn arg fs) = 0"
  "ks (snd (copy_thread K f p fn arg fs)) = upd_task p (\<lambda>t. t\<lparr>ctx := child_ctx K f p fn arg\<rparr>) (ks fs)"
  "g_task (snd (copy_thread K f p fn arg fs)) = g_task fs" "mm (snd (copy_thread K f p fn arg fs)) = mm fs"
  "frames (snd (copy_thread K f p fn arg fs)) (task_pt_regs p) =
     zero_frame\<lparr>pstate := if f AND PF_KTHREAD \<noteq> 0 then PSR_MODE_EL1h else 0\<rparr>"
  by (simp_all add: copy_thread_def Let_def on_ks_def upd_task_def child_ctx_def zero_frame_def)

lemma do_fork_success:
  assumes g: "get_free_page (mm fs) = (p, m)" "p \<noteq> 0" and n: "find_empty_task (g_task fs) = n" "0 \<le> n"
    and p: "p \<noteq> current (ks fs)"
  shows "fst (do_fork K f fn arg fs) = n"
    and "ks (snd (do_fork K f fn arg fs)) = wake_up_process K p (SET_LINKS K p
      (forked p (child (tasks (ks fs) p) n ((count (tasks (ks fs) (current (ks fs))) + 1) div 2) (child_ctx K f p fn arg)) (ks fs)))"
    and "g_task (snd (do_fork K f fn arg fs)) = (g_task fs)[nat n := p]" and "mm (snd (do_fork K f fn arg fs)) = m"
    and "frames (snd (do_fork K f fn arg fs)) (task_pt_regs p) =
      zero_frame\<lparr>pstate := if f AND PF_KTHREAD \<noteq> 0 then PSR_MODE_EL1h else 0\<rparr>"
proof -
  obtain r fs1 where c: "copy_thread K f p fn arg (fs\<lparr>mm := m\<rparr>) = (r, fs1)"
    by (cases "copy_thread K f p fn arg (fs\<lparr>mm := m\<rparr>)")
  note C = ks_copy_thread [of K f p fn arg "fs\<lparr>mm := m\<rparr>", unfolded c fst_conv snd_conv]
  have n0: "find_empty_task (g_task (fs\<lparr>mm := m\<rparr>)) = n"
    using n by simp
  note D = do_fork_def [of K f fn arg fs, unfolded g(1) Let_def prod.case n0 c]
  show "fst (do_fork K f fn arg fs) = n"
    unfolding D using g(2) n(2) C(1) by simp
  show "g_task (snd (do_fork K f fn arg fs)) = (g_task fs)[nat n := p]" "mm (snd (do_fork K f fn arg fs)) = m"
    unfolding D using g(2) n(2) C by (simp_all add: on_ks_def)
  show "frames (snd (do_fork K f fn arg fs)) (task_pt_regs p) =
      zero_frame\<lparr>pstate := if f AND PF_KTHREAD \<noteq> 0 then PSR_MODE_EL1h else 0\<rparr>"
    unfolding D using g(2) n(2) C by (simp add: on_ks_def)
  show "ks (snd (do_fork K f fn arg fs)) = wake_up_process K p (SET_LINKS K p
      (forked p (child (tasks (ks fs) p) n ((count (tasks (ks fs) (current (ks fs))) + 1) div 2) (child_ctx K f p fn arg)) (ks fs)))"
    unfolding D using g(2) n(2) C p
    by (simp add: on_ks_def upd_task_def forked_def child_def fun_upd_twist)
qed

lemma SET_LINKS_links:
  assumes "p \<noteq> init_task K" and "prev_task (tasks s (init_task K)) \<noteq> p"
  shows "(\<lambda>x. next_task (tasks (SET_LINKS K p s) x)) =
      (\<lambda>x. next_task (tasks s x))(p := init_task K, prev_task (tasks s (init_task K)) := p)"
    and "(\<lambda>x. prev_task (tasks (SET_LINKS K p s) x)) =
      (\<lambda>x. prev_task (tasks s x))(init_task K := p, p := prev_task (tasks s (init_task K)))"
  using assms by (auto simp: SET_LINKS_def Let_def upd_task_def fun_eq_iff)

lemma SET_LINKS_frame:
  "count (tasks (SET_LINKS K p s) x) = count (tasks s x)" "priority (tasks (SET_LINKS K p s) x) = priority (tasks s x)"
  "state (tasks (SET_LINKS K p s) x) = state (tasks s x)" "ctx (tasks (SET_LINKS K p s) x) = ctx (tasks s x)"
  "pid (tasks (SET_LINKS K p s) x) = pid (tasks s x)" "flags (tasks (SET_LINKS K p s) x) = flags (tasks s x)"
  "preempt_count (tasks (SET_LINKS K p s) x) = preempt_count (tasks s x)"
  "need_resched (tasks (SET_LINKS K p s) x) = need_resched (tasks s x)"
  "nodes (SET_LINKS K p s) = nodes s" "g_rq (SET_LINKS K p s) = g_rq s" "sp_el0 (SET_LINKS K p s) = sp_el0 s"
  "log (SET_LINKS K p s) = log s" "irq_on (SET_LINKS K p s) = irq_on s" "cpu (SET_LINKS K p s) = cpu s"
  by (simp_all add: SET_LINKS_def Let_def upd_task_def)

lemma wake_frame:
  "tasks (wake_up_process K p s) = (tasks s)(p := (tasks s p)\<lparr>state := TASK_RUNNING\<rparr>)"
  "sp_el0 (wake_up_process K p s) = sp_el0 s" "log (wake_up_process K p s) = log s"
  "irq_on (wake_up_process K p s) = irq_on s" "cpu (wake_up_process K p s) = cpu s"
  by (simp_all add: wake_up_process_def enqueue_task_def simple_sched_class_def enqueue_task_simple_def upd_task_def)

lemma forked_queue_inv:
  assumes q: "queue_inv K s ts rs" and c: "current s \<in> ring_tasks K rs"
    and p: "p \<notin> ring_tasks K rs" and t: "task_ok t" and rq: "run_node p \<noteq> rq_head K" and p0: "p \<noteq> 0"
  shows "queue_inv K (wake_up_process K p (SET_LINKS K p (forked p t s))) (p # ts) (rs @ [p])"
proof -
  define s1 where "s1 = forked p t s"
  define s2 where "s2 = upd_task p (\<lambda>t. t\<lparr>state := TASK_RUNNING\<rparr>) (SET_LINKS K p s1)"
  have pi: "p \<noteq> init_task K" "p \<notin> set rs" "p \<noteq> current s"
    using p c by (auto simp: ring_tasks_def)
  have r: "ring (\<lambda>x. next_task (tasks s x)) (\<lambda>x. prev_task (tasks s x)) (init_task K) rs"
    using q by (simp add: queue_inv_def)
  have lp: "prev_task (tasks s1 (init_task K)) = last (init_task K # rs)"
    using ring_links(2) [OF r] pi by (auto simp: s1_def forked_def)
  have "last (init_task K # rs) \<in> ring_tasks K rs"
    unfolding ring_tasks_def using last_in [of "init_task K" rs] by simp
  then have ne: "prev_task (tasks s1 (init_task K)) \<noteq> p"
    using p lp by auto
  have nx: "(\<lambda>x. next_task (tasks s2 x)) = (\<lambda>x. next_task (tasks s x))(p := init_task K, last (init_task K # rs) := p)"
    using SET_LINKS_links(1) [OF pi(1) ne] pi lp by (auto simp: s2_def upd_task_def fun_eq_iff s1_def forked_def)
  have pv: "(\<lambda>x. prev_task (tasks s2 x)) = (\<lambda>x. prev_task (tasks s x))(init_task K := p, p := last (init_task K # rs))"
    using SET_LINKS_links(2) [OF pi(1) ne] pi lp by (auto simp: s2_def upd_task_def fun_eq_iff s1_def forked_def)
  have "ring (\<lambda>x. next_task (tasks s2 x)) (\<lambda>x. prev_task (tasks s2 x)) (init_task K) (rs @ [p])"
    using ring_insert [of _ _ "init_task K" rs "[]" p] r pi nx pv by simp
  moreover have "x \<noteq> 0 \<and> task_ok (tasks s2 x)" if "x \<in> ring_tasks K (rs @ [p])" for x
  proof -
    have "x \<noteq> 0 \<and> task_ok (tasks s1 x)"
      using that q t pi p0 by (auto simp: s1_def forked_def ring_tasks_def queue_inv_def task_ok_def)
    then show ?thesis
      by (auto simp: task_ok_def s2_def upd_task_def SET_LINKS_frame)
  qed
  ultimately have q2: "queue_inv K s2 ts (rs @ [p])"
    using q by (auto simp: queue_inv_def s2_def upd_task_def SET_LINKS_frame s1_def forked_def)
  have "p \<notin> set ts"
    using q pi by (auto simp: queue_inv_def)
  from queue_inv_enqueue [OF q2 _ this rq] show ?thesis
    by (simp add: wake_up_process_def s2_def s1_def)
qed

lemma do_fork_spec:
  assumes i: "fork_inv K fs ts rs" and k: "kaddrs_ok K"
    and fr: "free_pages (mm fs) \<noteq> {}" and sl: "0 \<in> set (g_task fs)"
  obtains p n fs' where "do_fork K f fn arg fs = (n, fs')" and "p \<in> free_pages (mm fs)"
    and "p = fst (get_free_page (mm fs))"
    and "fork_inv K fs' (p # ts) (rs @ [p])" and "free_pages (mm fs') = free_pages (mm fs) - {p}"
    and "0 \<le> n" and "n < int NR_TASK" and "g_task fs ! nat n = 0" and "g_task fs' = (g_task fs)[nat n := p]"
    and "ctx (tasks (ks fs') p) = child_ctx K f p fn arg" and "pid (tasks (ks fs') p) = n"
    and "flags (tasks (ks fs') p) = flags (tasks (ks fs) p)"
    and "count (tasks (ks fs') p) + count (tasks (ks fs') (current (ks fs'))) = count (tasks (ks fs) (current (ks fs)))"
    and "current (ks fs') = current (ks fs)" and "log (ks fs') = log (ks fs)" and "irq_on (ks fs') = irq_on (ks fs)"
    and "need_resched (tasks (ks fs') (current (ks fs'))) = need_resched (tasks (ks fs) (current (ks fs)))"
    and "frames fs' (task_pt_regs p) = zero_frame\<lparr>pstate := if f AND PF_KTHREAD \<noteq> 0 then PSR_MODE_EL1h else 0\<rparr>"
    and "\<And>x. need_resched (tasks (ks fs') x) = (if x = p then 0 else need_resched (tasks (ks fs) x))"
    and "\<And>x. count (tasks (ks fs') x) = (if x = p then (count (tasks (ks fs) (current (ks fs))) + 1) div 2
      else if x = current (ks fs) then count (tasks (ks fs) x) div 2 else count (tasks (ks fs) x))"
    and "\<And>x. x \<noteq> p \<Longrightarrow> ctx (tasks (ks fs') x) = ctx (tasks (ks fs) x)"
    and "\<And>x. x \<noteq> p \<Longrightarrow> pid (tasks (ks fs') x) = pid (tasks (ks fs) x)" and "n = find_empty_task (g_task fs)"
proof -
  define s where "s = ks fs"
  define cur where "cur = current s"
  define c where "c = count (tasks s cur)"
  obtain p m where g: "get_free_page (mm fs) = (p, m)"
    by (cases "get_free_page (mm fs)")
  have p: "p \<in> free_pages (mm fs)" "free_pages m = free_pages (mm fs) - {p}"
    using get_free_page_taken [OF fr g] by auto
  then have pl: "p \<in> pool" and p0: "p \<noteq> 0"
    using free_pages_pool free_pages_props(2) [OF p(1)] by auto
  have si: "sched_inv K s ts rs" and run: "\<And>x. x \<in> ring_tasks K rs \<Longrightarrow> state (tasks s x) = TASK_RUNNING"
    and len: "length (g_task fs) = NR_TASK" and rs: "set rs \<subseteq> pool" "set rs \<inter> free_pages (mm fs) = {}"
    using i by (auto simp: fork_inv_def s_def)
  have pn: "p \<notin> ring_tasks K rs"
    using p(1) pl rs k by (auto simp: ring_tasks_def kaddrs_ok_def)
  have cr: "cur \<in> ring_tasks K rs"
    using si by (simp add: sched_inv_def preempt_inv_def cur_def)
  then have pc': "p \<noteq> cur"
    using pn by auto
  have rq: "run_node p \<noteq> rq_head K"
    using k pl unfolding kaddrs_ok_def by (metis imageI)
  define l where "l = length (takeWhile (\<lambda>t. t \<noteq> 0) (g_task fs))"
  have n: "find_empty_task (g_task fs) = int l"
    using sl by (simp add: find_empty_task_def find_empty_from_spec l_def)
  have lt: "l < length (g_task fs)"
    using sl length_takeWhile_le [of "\<lambda>t. t \<noteq> 0" "g_task fs"] takeWhile_eq_all_conv [of "\<lambda>t. t \<noteq> 0" "g_task fs"]
    unfolding l_def by (metis le_neq_implies_less takeWhile_eq_take take_all_iff le_refl)
  have nz: "g_task fs ! l = 0"
    using nth_length_takeWhile [of "\<lambda>t. t \<noteq> 0" "g_task fs"] lt by (simp add: l_def)
  note D = do_fork_success [OF g p0 n _ pc' [unfolded cur_def s_def], of K f fn arg, simplified,
      folded s_def, folded cur_def, folded c_def]
  define t where "t = child (tasks s p) (int l) ((c + 1) div 2) (child_ctx K f p fn arg)"
  have cb: "0 \<le> c" "c < 2 ^ 31"
    using si cr by (auto simp: sched_inv_def queue_inv_def task_ok_def c_def)
  have tk: "task_ok t"
    using cb by (simp add: t_def child_def task_ok_def)
  define s' where "s' = wake_up_process K p (SET_LINKS K p (forked p t s))"
  have ks': "ks (snd (do_fork K f fn arg fs)) = s'"
    using D(2) by (simp add: s'_def t_def)
  have q': "queue_inv K s' (p # ts) (rs @ [p])"
    unfolding s'_def using si cr pn tk rq
    by (intro forked_queue_inv) (auto simp: sched_inv_def cur_def p0)
  have F: "state (tasks s' x) = (if x = p then TASK_RUNNING else state (tasks s x))"
    "preempt_count (tasks s' x) = (if x = p then 0 else preempt_count (tasks s x))"
    "ctx (tasks s' x) = (if x = p then child_ctx K f p fn arg else ctx (tasks s x))" "current s' = cur" for x
    using pc' by (auto simp: s'_def wake_frame SET_LINKS_frame forked_def t_def child_def cur_def)
  have rt: "ring_tasks K (rs @ [p]) = insert p (ring_tasks K rs)"
    by (auto simp: ring_tasks_def)
  have "pc (child_ctx K f p fn arg) = ret_from_fork K"
    by (simp add: child_ctx_def)
  then have "preempt_inv K s' (rs @ [p])"
    using si pc' pn unfolding preempt_inv_def rt F
    by (auto simp: sched_inv_def preempt_inv_def cur_def)
  then have "sched_inv K s' (p # ts) (rs @ [p])"
    using q' k by (simp add: sched_inv_def kaddrs_ok_def)
  then have inv: "fork_inv K (snd (do_fork K f fn arg fs)) (p # ts) (rs @ [p])"
    using run rs len pl p D(3,4) by (auto simp: fork_inv_def ks' F rt)
  have cx: "count (tasks s' x) = (if x = p then (c + 1) div 2 else if x = cur then c div 2 else count (tasks s x))" for x
    using pc' by (auto simp: s'_def wake_frame SET_LINKS_frame forked_def t_def child_def cur_def c_def)
  then have cnt: "count (tasks s' p) + count (tasks s' cur) = c"
    using pc' by simp
  have pd: "pid (tasks s' x) = pid (tasks s x)" if "x \<noteq> p" for x
    using that by (auto simp: s'_def wake_frame SET_LINKS_frame forked_def cur_def)
  have nr: "need_resched (tasks s' x) = (if x = p then 0 else need_resched (tasks s x))" for x
    using pc' by (auto simp: s'_def wake_frame SET_LINKS_frame forked_def t_def child_def cur_def)
  have G: "pid (tasks s' p) = int l" "flags (tasks s' p) = flags (tasks s p)" "log s' = log s" "irq_on s' = irq_on s"
    "need_resched (tasks s' cur) = need_resched (tasks s cur)"
    using pc' by (auto simp: s'_def wake_frame SET_LINKS_frame forked_def t_def child_def cur_def)
  show thesis
  proof (rule that [of "int l" "snd (do_fork K f fn arg fs)" p])
    show "do_fork K f fn arg fs = (int l, snd (do_fork K f fn arg fs))"
      using D(1) by (simp add: prod_eq_iff)
    show "p = fst (get_free_page (mm fs))"
      by (simp add: g)
    show "free_pages (mm (snd (do_fork K f fn arg fs))) = free_pages (mm fs) - {p}"
      using D(4) p(2) by simp
    show "count (tasks (ks (snd (do_fork K f fn arg fs))) p) +
        count (tasks (ks (snd (do_fork K f fn arg fs))) (current (ks (snd (do_fork K f fn arg fs))))) =
        count (tasks (ks fs) (current (ks fs)))"
      using cnt by (simp add: ks' F c_def cur_def s_def)
  qed (use p(1) inv lt len nz D(3,5) G F nr cx pd n in \<open>simp_all add: ks' s_def cur_def c_def\<close>)
qed

end
