(* ===== verification/Tasking.thy ===== *)
theory Tasking
  imports Fork
begin

text \<open>
  Tasks as a state machine: from the state \<^verbatim>\<open>kernel_main\<close> leaves after \<^verbatim>\<open>sched_init\<close>, the kernel forks,
  schedules and takes timer interrupts in any order. The theorems are about the reachable states
  and about each transition.
\<close>

section \<open>The machine\<close>

text \<open>
  Initially only \<^verbatim>\<open>init_task\<close> exists and runs (\<^verbatim>\<open>start.S\<close> puts it into \<^verbatim>\<open>sp_el0\<close>), the run queue is empty,
  every page of the pool is free, and interrupts are on. \<open>junk\<close> is what memory holds before.
\<close>

definition boot_state :: "kaddrs \<Rightarrow> (u64 \<Rightarrow> task_struct) \<Rightarrow> node_heap \<Rightarrow> fstate" where
  "boot_state K junk nds =
     \<lparr>ks = raw_local_irq_enable (sched_init K
        \<lparr>tasks = junk(init_task K := init_task_data (init_task K)), nodes = nds,
         g_rq = \<lparr>nr_running = 0, nr_switches = 0, curr = 0\<rparr>, sp_el0 = init_task K, irq_on = False,
         cpu = zero_context, kont = (\<lambda>_. In_schedule), log = []\<rparr>),
      mm = (\<lambda>_. 0), g_task = init_task K # replicate 63 0, frames = (\<lambda>_. zero_frame)\<rparr>"

text \<open>Messages that do not report a scheduling bug.\<close>

definition clean_log :: "klog \<Rightarrow> bool" where
  "clean_log l \<longleftrightarrow> (\<forall>e \<in> set l. take 4 (fst e) \<noteq> ''BUG:'')"

text \<open>
  Two kinds of interrupt: one whose handler may print but leaves the tasks alone, and one that runs the
  scheduler's own tick. The handlers in the tree work on the devices only; they are in \<open>Irq\<close> and are
  composed with the tasks in \<open>System\<close>.
\<close>

definition quiet_handler :: "klog \<Rightarrow> kstate \<Rightarrow> kstate" where
  "quiet_handler l s = s\<lparr>log := log s @ l\<rparr>"

inductive kstep :: "kaddrs \<Rightarrow> fstate \<Rightarrow> fstate \<Rightarrow> bool" for K :: kaddrs where
  irq: "irq_on (ks fs) \<Longrightarrow> clean_log l \<Longrightarrow> el1_irq K (quiet_handler l) (ks fs) = Inr s' \<Longrightarrow>
    kstep K fs (fs\<lparr>ks := s'\<rparr>)"
| timer: "irq_on (ks fs) \<Longrightarrow> el1_irq K tick_handle_periodic (ks fs) = Inr s' \<Longrightarrow> kstep K fs (fs\<lparr>ks := s'\<rparr>)"
| sched: "schedule K (ks fs) = Inr s' \<Longrightarrow> kstep K fs (fs\<lparr>ks := s'\<rparr>)"
| fork: "do_fork K clone_flags fn arg fs = (r, fs') \<Longrightarrow> kstep K fs fs'"

inductive reachable :: "kaddrs \<Rightarrow> fstate \<Rightarrow> bool" for K :: kaddrs where
  boot: "reachable K (boot_state K junk nds)"
| step: "reachable K fs \<Longrightarrow> kstep K fs fs' \<Longrightarrow> reachable K fs'"

primrec timer_irqs :: "nat \<Rightarrow> kaddrs \<Rightarrow> kstate \<Rightarrow> fault + kstate" where
  "timer_irqs 0 K s = Inr s"
| "timer_irqs (Suc n) K s = ebind (el1_irq K tick_handle_periodic s) (timer_irqs n K)"

section \<open>An empty run queue\<close>

lemma pick_empty:
  assumes "queue_inv K s [] rs"
  shows "pick_next_task K prev s = Inl Uninitialised"
proof -
  have "list_for_each (rq_head K) (nodes s) = Some []"
    using assms kl.each_rep by (simp add: queue_inv_def)
  then show ?thesis
    by (simp add: pick_next_task_def simple_sched_class_def pick_next_task_simple_def pick_repeat.simps)
qed

lemma schedule_core_empty:
  assumes q: "queue_inv K s ts rs"
    and st: "state (tasks s (current s)) \<noteq> TASK_RUNNING \<longrightarrow> current s \<in> set ts" and e: "ready s ts = []"
  shows "schedule_core K k s = Inl Uninitialised"
proof -
  define s1 where "s1 = raw_local_irq_disable (schedule_debug (current s) s)"
  have f: "tasks s1 = tasks s" "nodes s1 = nodes s" "g_rq s1 = g_rq s"
    by (simp_all add: s1_def schedule_debug_def printk_msg_def irq_defs)
  have q1: "queue_inv K s1 ts rs"
    by (rule queue_inv_cong [OF q]) (simp_all add: f)
  have q2: "queue_inv K (if state (tasks s1 (current s)) \<noteq> TASK_RUNNING then dequeue_task (current s) s1 else s1) [] rs"
    using q1 queue_inv_dequeue [OF q1, of "current s"] st e by (auto simp: f ready_def split: if_splits)
  show ?thesis
    unfolding schedule_core_def Let_def s1_def [symmetric] pick_empty [OF q2] by simp
qed

lemma ready_Nil [simp]: "ready s [] = []"
  by (simp add: ready_def)

lemma schedule_empty:
  assumes "sched_inv K s [] rs" and "state (tasks s (current s)) = TASK_RUNNING"
  shows "schedule K s = Inl Uninitialised"
  using schedule_core_empty [OF mid_inv_disable(1) [OF assms(1)]] assms(2)
  by (simp add: schedule_def preempt_defs)

lemma quiet_handler_simps [simp]:
  "tasks (quiet_handler l s) = tasks s" "current (quiet_handler l s) = current s"
  "log (quiet_handler l s) = log s @ l" "sched_inv K (quiet_handler l s) ts rs = sched_inv K s ts rs"
  "ready (quiet_handler l s) ts = ready s ts"
  by (simp_all add: quiet_handler_def sched_inv_def queue_inv_def preempt_inv_def ready_def)

lemma preempt_empty:
  assumes i: "sched_inv K s [] rs" and st: "state (tasks s (current s)) = TASK_RUNNING"
  shows "preempt_schedule_irq K s = Inl Uninitialised"
proof -
  have M: "queue_inv K (raw_local_irq_enable (preempt_disable s)) [] rs"
    using mid_inv_disable(1) [OF i] by (simp add: irq_defs queue_inv_def)
  show ?thesis
    using i st schedule_core_empty [OF M]
    by (simp add: preempt_schedule_irq_def sched_inv_def preempt_inv_def preempt_defs irq_defs)
qed

lemma el1_irq_empty:
  assumes i: "sched_inv K s1 [] rs" and s1: "s1 = h (s\<lparr>irq_on := False\<rparr>)"
    and st: "state (tasks s1 (current s1)) = TASK_RUNNING" and nr: "need_resched (tasks s1 (current s1)) \<noteq> 0"
  shows "el1_irq K h s = Inl Uninitialised"
proof -
  have "preempt_count (tasks s1 (current s1)) = 0"
    using i by (simp add: sched_inv_def preempt_inv_def)
  with nr preempt_empty [OF i st] show ?thesis
    by (simp add: el1_irq_def Let_def s1)
qed

lemma timer_empty:
  assumes i: "sched_inv K s [] rs" and st: "state (tasks s (current s)) = TASK_RUNNING"
    and nr: "count (tasks s (current s)) \<le> 1 \<or> need_resched (tasks s (current s)) \<noteq> 0"
  shows "el1_irq K tick_handle_periodic s = Inl Uninitialised"
proof (rule el1_irq_empty [where h = tick_handle_periodic, OF _ refl])
  show "sched_inv K (tick_handle_periodic (s\<lparr>irq_on := False\<rparr>)) [] rs"
    using i by (intro tick_inv) simp
qed (use st nr in \<open>auto simp: tick_effect\<close>)

section \<open>The invariant of the machine\<close>

lemma fork_inv_boot:
  assumes "kaddrs_ok K"
  shows "fork_inv K (boot_state K junk nds) [] []"
proof -
  have "lring (nodes (ks (boot_state K junk nds))) (rq_head K) []"
    by (simp add: boot_state_def sched_init_def irq_defs kl.rep_init)
  moreover have "ring (\<lambda>p. next_task (tasks (ks (boot_state K junk nds)) p))
      (\<lambda>p. prev_task (tasks (ks (boot_state K junk nds)) p)) (init_task K) []"
    by (simp add: ring_def boot_state_def sched_init_def irq_defs init_task_data_def)
  ultimately show ?thesis
    using assms
    by (simp add: fork_inv_def sched_inv_def queue_inv_def preempt_inv_def ring_tasks_def kaddrs_ok_def NR_TASK_def)
      (simp add: boot_state_def sched_init_def irq_defs init_task_data_def task_ok_def yios_consts)
qed

lemma fork_inv_ready:
  assumes "fork_inv K fs ts rs"
  shows "ready (ks fs) ts = ts" and "sched_inv K (ks fs) ts rs"
    and "state (tasks (ks fs) (current (ks fs))) = TASK_RUNNING"
  using assms by (auto simp: fork_inv_def ready_def sched_inv_def preempt_inv_def)

lemma fork_inv_ks:
  assumes "fork_inv K fs ts rs" and "sched_inv K s' ts rs" and "\<And>x. state (tasks s' x) = state (tasks (ks fs) x)"
  shows "fork_inv K (fs\<lparr>ks := s'\<rparr>) ts rs"
  using assms by (simp add: fork_inv_def)

lemma do_fork_no_page: "free_pages (mm fs) = {} \<Longrightarrow> do_fork K f fn arg fs = (- 1, fs)"
  by (simp add: do_fork_def get_free_page_none)

lemma do_fork_no_slot:
  assumes "0 \<notin> set (g_task fs)"
  shows "do_fork K f fn arg fs = (- 1, fs\<lparr>mm := snd (get_free_page (mm fs))\<rparr>)"
  using assms by (cases "get_free_page (mm fs)") (simp add: do_fork_def Let_def find_empty_task_def find_empty_from_spec)

lemma free_pages_get: "free_pages (snd (get_free_page m)) \<subseteq> free_pages m"
  using get_free_page_taken(2) [of m "fst (get_free_page m)" "snd (get_free_page m)"] get_free_page_none [of m]
  by (cases "free_pages m = {}") auto

lemma fork_step_inv:
  assumes i: "fork_inv K fs ts rs" and k: "kaddrs_ok K" and d: "do_fork K f fn arg fs = (r, fs')"
  shows "(\<exists>ts' rs'. fork_inv K fs' ts' rs') \<and> log (ks fs') = log (ks fs)"
proof (cases "0 \<in> set (g_task fs) \<and> free_pages (mm fs) \<noteq> {}")
  case True
  then show ?thesis
    by (elim conjE, rule_tac f = f and fn = fn and arg = arg in do_fork_spec [OF i k]) (use d in auto)
next
  case False
  then have "fs' = fs \<or> fs' = fs\<lparr>mm := snd (get_free_page (mm fs))\<rparr>"
    using d do_fork_no_page [of fs K f fn arg] do_fork_no_slot [of fs K f fn arg] by auto
  then have "fork_inv K fs' ts rs" and "log (ks fs') = log (ks fs)"
    using i free_pages_get [of "mm fs"] by (auto simp: fork_inv_def)
  then show ?thesis by blast
qed

lemma clean_tick: "clean_log (log s) \<Longrightarrow> clean_log (log (tick_handle_periodic s))"
  by (auto simp: clean_log_def tick_effect)

lemma kstep_inv:
  assumes i: "fork_inv K fs ts rs" and k: "kaddrs_ok K" and c: "clean_log (log (ks fs))" and st: "kstep K fs fs'"
  shows "(\<exists>ts' rs'. fork_inv K fs' ts' rs') \<and> clean_log (log (ks fs'))"
  using st
proof (cases rule: kstep.cases)
  case (irq l s')
  note R = fork_inv_ready [OF i]
  let ?s1 = "quiet_handler l (ks fs\<lparr>irq_on := False\<rparr>)"
  have i1: "sched_inv K ?s1 ts rs"
    using R(2) by simp
  have "ts \<noteq> []" if "need_resched (tasks ?s1 (current ?s1)) \<noteq> 0"
    using that irq el1_irq_empty [where h = "quiet_handler l", OF _ refl, of K "ks fs" rs] R(3) i1 by fastforce
  then obtain s2 where "el1_irq K (quiet_handler l) (ks fs) = Inr s2" "sched_inv K s2 ts rs"
    "\<And>x. state (tasks s2 x) = state (tasks (ks fs) x)" "log s2 = log (ks fs) @ l"
    by (rule_tac el1_irq_spec [where h = "quiet_handler l", OF i1 refl]) (use R in auto)
  with irq c show ?thesis
    using fork_inv_ks [OF i, of s2] by (auto simp: clean_log_def)
next
  case (timer s')
  note R = fork_inv_ready [OF i]
  have "ts \<noteq> []" if "count (tasks (ks fs) (current (ks fs))) \<le> 1 \<or> need_resched (tasks (ks fs) (current (ks fs))) \<noteq> 0"
    using that timer timer_empty [OF _ R(3)] R(2) by fastforce
  with R obtain s2 ts' where "el1_irq K tick_handle_periodic (ks fs) = Inr s2" "sched_inv K s2 ts' rs" "ts' = ts"
    "\<And>x. state (tasks s2 x) = state (tasks (ks fs) x)" "log s2 = log (tick_handle_periodic (ks fs))"
    by (metis timer_spec [OF R(2)])
  with timer i c show ?thesis
    using fork_inv_ks [OF i, of s'] clean_tick [of "ks fs"] by auto
next
  case (sched s')
  note R = fork_inv_ready [OF i]
  have "ts \<noteq> []"
    using sched schedule_empty [OF _ R(3)] R(2) by fastforce
  with R obtain s2 where "schedule K (ks fs) = Inr s2" "sched_inv K s2 ts rs"
    "\<And>x. state (tasks s2 x) = state (tasks (ks fs) x)" "log s2 = log (ks fs)"
    by (metis schedule_spec [OF R(2)])
  with sched c show ?thesis
    using fork_inv_ks [OF i, of s'] by auto
next
  case (fork clone_flags fn arg r)
  then show ?thesis
    using fork_step_inv [OF i k, of clone_flags fn arg r fs'] c by auto
qed

lemma reachable_inv:
  assumes "kaddrs_ok K" and "reachable K fs"
  shows "(\<exists>ts rs. fork_inv K fs ts rs) \<and> clean_log (log (ks fs))"
  using assms(2)
proof induction
  case (boot junk nds)
  then show ?case
    using fork_inv_boot [OF assms(1), of junk nds]
    by (auto simp: clean_log_def boot_state_def sched_init_def irq_defs)
next
  case (step fs fs')
  then show ?case
    using kstep_inv [OF _ assms(1)] by blast
qed

section \<open>Runs of timer interrupts\<close>

text \<open>As long as the running task has slice left, an interrupt only counts it down.\<close>

lemma timer_countdown:
  assumes "sched_inv K s ts rs" and "state (tasks s (current s)) = TASK_RUNNING"
    and "need_resched (tasks s (current s)) = 0" and "int n < count (tasks s (current s))"
  obtains s' where "timer_irqs n K s = Inr s'" and "sched_inv K s' ts rs" and "current s' = current s"
    and "count (tasks s' (current s)) = count (tasks s (current s)) - int n"
    and "need_resched (tasks s' (current s)) = 0" and "state (tasks s' (current s)) = TASK_RUNNING"
    and "\<And>x. x \<noteq> current s \<Longrightarrow> tasks s' x = tasks s x" and "log s' = log s"
  using assms
proof (induction n arbitrary: s thesis)
  case 0
  then show ?case by simp
next
  case (Suc n)
  define s1 where "s1 = (tick_handle_periodic s)\<lparr>irq_on := True\<rparr>"
  have c1: "\<not> count (tasks s (current s)) \<le> 1"
    using Suc.prems(5) by simp
  obtain s2 ts' where r: "el1_irq K tick_handle_periodic s = Inr s2" and i: "sched_inv K s2 ts' rs" and e: "ts' = ts \<and> s2 = s1"
    using timer_spec [OF Suc.prems(2)] Suc.prems(3,4) c1 unfolding s1_def by metis
  have f: "current s1 = current s" "count (tasks s1 (current s)) = count (tasks s (current s)) - 1"
    "need_resched (tasks s1 (current s)) = 0" "state (tasks s1 (current s)) = TASK_RUNNING"
    "log s1 = log s" "\<And>x. x \<noteq> current s \<Longrightarrow> tasks s1 x = tasks s x"
    using c1 Suc.prems(3,4) by (simp_all add: s1_def tick_effect)
  have i1: "sched_inv K s1 ts rs"
    using i e by simp
  obtain s' where s': "timer_irqs n K s1 = Inr s'" "sched_inv K s' ts rs" "current s' = current s1"
    "count (tasks s' (current s1)) = count (tasks s1 (current s1)) - int n"
    "need_resched (tasks s' (current s1)) = 0" "state (tasks s' (current s1)) = TASK_RUNNING"
    "\<And>x. x \<noteq> current s1 \<Longrightarrow> tasks s' x = tasks s1 x" "log s' = log s1"
    by (rule Suc.IH [OF _ i1]) (use Suc.prems(5) f in auto)
  show ?case
    by (rule Suc.prems(1) [of s']) (use s' f r e in auto)
qed

lemma timer_irqs_Suc: "timer_irqs (Suc n) K s = ebind (timer_irqs n K s) (el1_irq K tick_handle_periodic)"
proof (induction n arbitrary: s)
  case 0
  then show ?case by (cases "el1_irq K tick_handle_periodic s") simp_all
next
  case (Suc n)
  then show ?case by (cases "el1_irq K tick_handle_periodic s") simp_all
qed

section \<open>A concrete kernel\<close>

definition K0 :: kaddrs where
  "K0 = \<lparr>init_task = 0x90000, rq_head = 0x91000, ret_from_fork = 0x80400, switch_ret = 0x80500, function_name = 0x80600\<rparr>"

definition task0 :: task_struct where
  "task0 = \<lparr>state = TASK_STOPPED, flags = 0, count = 0, priority = 0, pid = 0, ctx = zero_context,
     need_resched = 0, preempt_count = 0, next_task = 0, prev_task = 0\<rparr>"

definition fs0 :: fstate where
  "fs0 = boot_state K0 (\<lambda>_. task0) (\<lambda>_. \<lparr>nxt = 0, prv = 0\<rparr>)"

lemma pool_props: "p \<in> pool \<Longrightarrow> 0x400000 \<le> unat p \<and> unat p < 0x20400000"
  by (auto simp: pool_def unat_page_of NR_PAGES_def)

lemma K0_ok: "kaddrs_ok K0"
proof -
  have "init_task K0 \<notin> pool"
    using pool_props [of "0x90000"] by (auto simp: K0_def)
  moreover have "rq_head K0 \<notin> run_node ` pool"
  proof
    assume "rq_head K0 \<in> run_node ` pool"
    then obtain p where p: "p \<in> pool" "rq_head K0 = run_node p"
      by (rule imageE) simp
    then have "p = 0x91000 - run_list_offset"
      by (simp add: run_node_def K0_def eq_diff_eq)
    with pool_props [OF p(1)] show False
      by (simp add: run_list_offset_def)
  qed
  moreover have "switch_ret K0 \<noteq> ret_from_fork K0"
    by (simp add: K0_def)
  moreover have "init_task K0 \<noteq> 0"
    by (simp add: K0_def)
  ultimately show ?thesis
    by (simp add: kaddrs_ok_def)
qed

lemmas fs0_inv = fork_inv_boot [OF K0_ok, of "\<lambda>_. task0" "\<lambda>_. \<lparr>nxt = 0, prv = 0\<rparr>", folded fs0_def]

lemma fs0_simps [simp]:
  "current (ks fs0) = 0x90000" "mm fs0 = (\<lambda>_. 0)" "0 \<in> set (g_task fs0)" "free_pages (mm fs0) \<noteq> {}"
  "count (tasks (ks fs0) 0x90000) = 25" "need_resched (tasks (ks fs0) 0x90000) = 0" "log (ks fs0) = []"
  "irq_on (ks fs0)"
proof -
  have "card (free_pages (mm fs0)) = 131072"
    by (simp add: fs0_def boot_state_def)
  then show "free_pages (mm fs0) \<noteq> {}"
    by auto
qed (simp_all add: fs0_def boot_state_def sched_init_def irq_defs init_task_data_def K0_def yios_consts)

text \<open>The state after one fork from boot: one ready task, at the first page of the pool.\<close>

definition fs1 :: fstate where
  "fs1 = snd (do_fork K0 PF_KTHREAD 0x80700 0x12345 fs0)"

lemma fs1_inv: "fork_inv K0 fs1 [0x400000] [0x400000]"
  and fs1_simps [simp]: "current (ks fs1) = 0x90000" "log (ks fs1) = []" "irq_on (ks fs1)"
    "need_resched (tasks (ks fs1) 0x90000) = 0"
  and fs1_count: "0 \<le> count (tasks (ks fs1) 0x90000)" "count (tasks (ks fs1) 0x90000) \<le> 25"
proof -
  have g: "get_free_page (mm fs0) = (0x400000, (\<lambda>_. 0)(0 := 1))"
    by (simp add: get_free_page_def get_free_page_from.simps NR_PAGES_def LOW_MEMORY_def)
  obtain p n fs' where d: "do_fork K0 PF_KTHREAD 0x80700 0x12345 fs0 = (n, fs')" "fork_inv K0 fs' [p] [p]"
    and p: "p = fst (get_free_page (mm fs0))" and c: "count (tasks (ks fs') p) + count (tasks (ks fs') (current (ks fs'))) = 25"
      "current (ks fs') = 0x90000" "log (ks fs') = []" "irq_on (ks fs')"
      "need_resched (tasks (ks fs') 0x90000) = 0"
    by (rule do_fork_spec [OF fs0_inv K0_ok fs0_simps(4,3), of PF_KTHREAD "0x80700" "0x12345"]) auto
  have f: "fs1 = fs'"
    by (simp add: fs1_def d)
  have ok: "0 \<le> count (tasks (ks fs') p)" "0 \<le> count (tasks (ks fs') 0x90000)"
    using d(2) by (auto simp: fork_inv_def sched_inv_def queue_inv_def ring_tasks_def task_ok_def K0_def)
  have "p = 0x400000"
    by (simp only: p g fst_conv)
  with d c ok show "fork_inv K0 fs1 [0x400000] [0x400000]" "current (ks fs1) = 0x90000" "log (ks fs1) = []"
    "irq_on (ks fs1)" "need_resched (tasks (ks fs1) 0x90000) = 0" "0 \<le> count (tasks (ks fs1) 0x90000)" "count (tasks (ks fs1) 0x90000) \<le> 25"
    by (auto simp: f)
qed

section \<open>Properties\<close>

text \<open>
  C3: In every state the kernel reaches from boot by forks, calls of \<^verbatim>\<open>schedule\<close> and timer interrupts in
  any order, the run queue and the task ring are well-formed circular lists, \<^verbatim>\<open>nr_running\<close> is the
  length of the queue, every count stays within its type, the running task has a preempt count of 0
  and every task that is switched out one of 1 (0 if it has not run yet), and neither of the two
  scheduler bug messages was ever printed.
\<close>

theorem reachable_kernel_inv:
  assumes "kaddrs_ok K" and "reachable K fs"
  shows "(\<exists>ts rs. fork_inv K fs ts rs) \<and> clean_log (log (ks fs))"
  using reachable_inv [OF assms] .

theorem reachable_kernel_inv_witness:
  "(\<exists>ts rs. fork_inv K0 fs1 ts rs) \<and> clean_log (log (ks fs1))"
proof (rule reachable_kernel_inv [OF K0_ok])
  have "reachable K0 fs0"
    unfolding fs0_def by (rule reachable.boot)
  moreover have "kstep K0 fs0 fs1"
    by (rule kstep.fork) (simp add: fs1_def prod_eq_iff)
  ultimately show "reachable K0 fs1"
    by (rule reachable.step)
qed

text \<open>
  C7: \<^verbatim>\<open>schedule\<close> terminates and hands the processor to the first task of the queue with the largest
  remaining count, a positive one; a task that is no longer runnable leaves the queue first. If
  that is another task, the registers are that task's saved context and the outgoing task's
  registers are saved in its structure, to continue after the switch. The invariant is kept.
\<close>

theorem schedule_runs_best:
  assumes "sched_inv K s ts rs" and "state (tasks s (current s)) \<noteq> TASK_RUNNING \<longrightarrow> current s \<in> set ts"
    and "ready s ts \<noteq> []"
  shows "\<exists>s'. schedule K s = Inr s' \<and> sched_inv K s' (ready s ts) rs \<and>
    first_best (\<lambda>q. count (tasks s' q)) (ready s ts) (current s') \<and> 0 < count (tasks s' (current s')) \<and>
    (current s' \<noteq> current s \<longrightarrow>
       cpu s' = ctx (tasks s (current s')) \<and> ctx (tasks s' (current s)) = (cpu s)\<lparr>pc := switch_ret K\<rparr>)"
  by (rule schedule_spec [OF assms]) blast

lemma fs1_ready:
  "sched_inv K0 (ks fs1) [0x400000] [0x400000]" "ready (ks fs1) [0x400000] = [0x400000]"
  "state (tasks (ks fs1) 0x90000) = TASK_RUNNING"
  using fork_inv_ready [OF fs1_inv] by simp_all

theorem schedule_runs_best_witness:
  "\<exists>s'. schedule K0 (ks fs1) = Inr s' \<and> current s' = 0x400000 \<and> 0 < count (tasks s' 0x400000)"
  using schedule_runs_best [OF fs1_ready(1)] fs1_ready(2,3) first_best_max [of _ "[0x400000]"] by fastforce

text \<open>
  C23: With \<^verbatim>\<open>tick_handle_periodic\<close> as the handler of the timer interrupt a running task is preempted after
  as many interrupts as its remaining count (at least one), and then the best ready task runs:
  \<open>timer_irqs\<close> delivers them one after the other, none of them faults, and after the last the first
  task of the queue with the largest count is current.
\<close>

theorem preempted_after_slice:
  assumes "sched_inv K s ts rs" and "state (tasks s (current s)) = TASK_RUNNING" and "ts \<noteq> []"
    and "need_resched (tasks s (current s)) = 0" and "c = nat (max 1 (count (tasks s (current s))))"
  shows "\<exists>s'. timer_irqs c K s = Inr s' \<and> sched_inv K s' ts rs \<and>
    first_best (\<lambda>q. count (tasks s' q)) ts (current s') \<and>
    (\<forall>n < c. \<exists>s1. timer_irqs n K s = Inr s1 \<and> current s1 = current s)"
proof -
  define m where "m = c - 1"
  have c: "c = Suc m"
    using assms(5) by (simp add: m_def)
  have before: "\<exists>s1. timer_irqs n K s = Inr s1 \<and> sched_inv K s1 ts rs \<and> current s1 = current s \<and>
      state (tasks s1 (current s)) = TASK_RUNNING \<and>
      count (tasks s1 (current s)) = count (tasks s (current s)) - int n" if "n \<le> m" for n
  proof (cases "n = 0")
    case True
    with assms(1,2) show ?thesis by simp
  next
    case False
    then have "int n < count (tasks s (current s))"
      using that c assms(5) by simp
    from timer_countdown [OF assms(1,2,4) this] show ?thesis
      by metis
  qed
  obtain s1 where s1: "timer_irqs m K s = Inr s1" "sched_inv K s1 ts rs" "current s1 = current s"
    "state (tasks s1 (current s)) = TASK_RUNNING" "count (tasks s1 (current s)) = count (tasks s (current s)) - int m"
    using before [of m] by auto
  have r: "ready s1 ts = ts"
    using s1 by (simp add: ready_def)
  have "count (tasks s1 (current s1)) \<le> 1"
    using s1 c assms(5) by simp
  then obtain s' where "el1_irq K tick_handle_periodic s1 = Inr s'" "sched_inv K s' ts rs"
    "first_best (\<lambda>q. count (tasks s' q)) ts (current s')"
    using timer_spec [OF s1(2)] s1(3,4) assms(3) r by metis
  then have "timer_irqs c K s = Inr s'" "sched_inv K s' ts rs" "first_best (\<lambda>q. count (tasks s' q)) ts (current s')"
    unfolding c timer_irqs_Suc by (simp_all add: s1)
  moreover have "\<forall>n < c. \<exists>s1. timer_irqs n K s = Inr s1 \<and> current s1 = current s"
    using before c by (metis less_Suc_eq_le)
  ultimately show ?thesis by blast
qed

theorem preempted_after_slice_witness:
  "\<exists>c s'. timer_irqs c K0 (ks fs1) = Inr s' \<and> current s' = 0x400000"
  using preempted_after_slice [OF fs1_ready(1) _ _ _ refl] fs1_ready(3) first_best_max [of _ "[0x400000]"]
  by fastforce

text \<open>
  C31: \<^verbatim>\<open>tick_handle_periodic\<close> as the interrupt handler with nothing forked, the run queue \<^verbatim>\<open>kernel_main\<close> leaves:
  24 interrupts pass, and the 25th, which exhausts \<^verbatim>\<open>init_task\<close>'s slice, makes \<^verbatim>\<open>pick_next_task_simple\<close>
  return its uninitialised variable \<^verbatim>\<open>next\<close>.
\<close>

theorem idle_kernel_faults:
  assumes "kaddrs_ok K"
  shows "(\<forall>n < 25. \<exists>s'. timer_irqs n K (ks (boot_state K junk nds)) = Inr s') \<and>
    timer_irqs 25 K (ks (boot_state K junk nds)) = Inl Uninitialised"
proof -
  define s where "s = ks (boot_state K junk nds)"
  have i: "sched_inv K s [] []" "state (tasks s (current s)) = TASK_RUNNING"
    using fork_inv_ready(2,3) [OF fork_inv_boot [OF assms, of junk nds]] by (simp_all add: s_def)
  have c: "count (tasks s (current s)) = 25" "need_resched (tasks s (current s)) = 0"
    by (simp_all add: s_def boot_state_def sched_init_def irq_defs init_task_data_def yios_consts)
  have "\<exists>s'. timer_irqs n K s = Inr s'" if "n < 25" for n
    by (rule timer_countdown [OF i c(2), of n]) (use that c in auto)
  moreover obtain s' where s': "timer_irqs 24 K s = Inr s'" "sched_inv K s' [] []" "current s' = current s"
    "state (tasks s' (current s)) = TASK_RUNNING" "count (tasks s' (current s)) = 1"
    by (rule timer_countdown [OF i c(2), of 24]) (use c in auto)
  have "el1_irq K tick_handle_periodic s' = Inl Uninitialised"
    using s' by (intro timer_empty) auto
  then have "timer_irqs (Suc 24) K s = Inl Uninitialised"
    unfolding timer_irqs_Suc s'(1) by simp
  ultimately show ?thesis
    by (simp add: s_def)
qed

theorem idle_kernel_faults_witness: "timer_irqs 25 K0 (ks fs0) = Inl Uninitialised"
  using idle_kernel_faults [OF K0_ok] unfolding fs0_def by blast

text \<open>
  C30: Whatever tasks are ready, \<^verbatim>\<open>schedule\<close> returns with interrupts masked exactly if it chose the running task
  again: then \<^verbatim>\<open>switch_to\<close> is not called, \<^verbatim>\<open>last\<close> stays null and \<^verbatim>\<open>schedule_tail\<close>, the only place that unmasks
  interrupts, is skipped. It does choose the running task whenever that is the first ready task with
  the largest count and that count is not used up.
\<close>

theorem schedule_same_task_masks_irqs:
  assumes "sched_inv K s ts rs" and "state (tasks s (current s)) = TASK_RUNNING" and "ready s ts \<noteq> []"
  shows "\<exists>s'. schedule K s = Inr s' \<and> (\<not> irq_on s' \<longleftrightarrow> current s' = current s) \<and>
    (first_best (\<lambda>q. count (tasks s q)) (ready s ts) (current s) \<and> count (tasks s (current s)) \<noteq> 0 \<longrightarrow> \<not> irq_on s')"
proof (rule schedule_spec [OF assms(1)], goal_cases)
  case (3 s')
  have "current s' = current s"
    if b: "first_best (\<lambda>q. count (tasks s q)) (ready s ts) (current s)" and c: "count (tasks s (current s)) \<noteq> 0"
  proof -
    have "current s \<in> set (ready s ts)"
      using first_best_max [OF b] by blast
    then have "(\<lambda>q. count (tasks s' q)) = (\<lambda>q. count (tasks s q))"
      using 3(10) c by blast
    then show ?thesis
      using 3(3) b first_best_unique by metis
  qed
  with 3(1,7,8) show ?case
    by blast
qed (use assms in simp_all)

theorem schedule_same_task_masks_irqs_witness:
  "\<exists>s s'. schedule K0 (ks fs1) = Inr s \<and> irq_on s \<and> schedule K0 s = Inr s' \<and> \<not> irq_on s'"
proof -
  obtain s where s: "schedule K0 (ks fs1) = Inr s" "sched_inv K0 s [0x400000] [0x400000]"
    "first_best (\<lambda>q. count (tasks s q)) [0x400000] (current s)" "\<And>x. state (tasks s x) = state (tasks (ks fs1) x)"
    "current s \<noteq> 0x90000 \<Longrightarrow> irq_on s" "0 < count (tasks s (current s))"
    by (rule schedule_spec [OF fs1_ready(1)]) (use fs1_ready in auto)
  have c: "current s = 0x400000"
    using first_best_max [OF s(3)] by simp
  have st: "state (tasks s (current s)) = TASK_RUNNING"
    using fs1_inv by (simp add: s(4) c fork_inv_def ring_tasks_def)
  have "irq_on s"
    using s(5) c by simp
  moreover have "ready s [0x400000] = [0x400000]"
    using st c by (simp add: ready_def)
  moreover have "count (tasks s 0x400000) \<noteq> 0"
    using s(6) c by simp
  ultimately show ?thesis
    using s(1,3) schedule_same_task_masks_irqs [OF s(2) st] c by auto
qed

text \<open>
  A context switch and the switch back restore every callee-saved register, the stack pointer and
  \<^verbatim>\<open>current\<close>; execution continues behind the switch. No other task's saved context changes.
\<close>

theorem context_switch_roundtrip:
  assumes "prev \<noteq> next" and "current s = prev"
  shows "let s1 = cpu_switch_to K prev next s; s2 = cpu_switch_to K next prev s1 in
    cpu s2 = (cpu s)\<lparr>pc := switch_ret K\<rparr> \<and> current s2 = prev \<and> current s1 = next \<and> cpu s1 = ctx (tasks s next) \<and>
    (\<forall>x. x \<noteq> prev \<and> x \<noteq> next \<longrightarrow> tasks s2 x = tasks s x)"
  using assms by (simp add: cpu_switch_to_def upd_task_def Let_def)

theorem context_switch_roundtrip_witness:
  "cpu (cpu_switch_to K0 0x400000 0x90000 (cpu_switch_to K0 0x90000 0x400000 (ks fs1))) =
     (cpu (ks fs1))\<lparr>pc := 0x80500\<rparr>"
  using context_switch_roundtrip [of "0x90000" "0x400000" "ks fs1" K0] by (simp add: Let_def K0_def)

text \<open>
  C12: With a free page and a free slot \<^verbatim>\<open>do_fork\<close> returns a free slot of the task table as the new pid, keeps the
  invariant with the new task at the front of the run queue and at the end of the task ring, gives the
  child half of the parent's remaining count, rounded up, and leaves the parent the other half. The
  child's context starts in \<^verbatim>\<open>ret_from_fork\<close> on a stack below its trap frame; with \<^verbatim>\<open>PF_KTHREAD\<close> it has the
  thread function and its argument in \<^verbatim>\<open>x19\<close> and \<^verbatim>\<open>x20\<close> and the frame the state of EL1, without the flag
  they are zero. No other task's count or context changes.
\<close>

theorem do_fork_creates_task:
  assumes "fork_inv K fs ts rs" and "kaddrs_ok K" and "free_pages (mm fs) \<noteq> {}" and "0 \<in> set (g_task fs)"
  shows "\<exists>p n fs'. do_fork K clone_flags fn arg fs = (n, fs') \<and> p \<in> free_pages (mm fs) \<and>
    fork_inv K fs' (p # ts) (rs @ [p]) \<and> 0 \<le> n \<and> n < int NR_TASK \<and>
    g_task fs ! nat n = 0 \<and> g_task fs' = (g_task fs)[nat n := p] \<and> pid (tasks (ks fs') p) = n \<and>
    p \<noteq> current (ks fs) \<and> current (ks fs') = current (ks fs) \<and>
    count (tasks (ks fs') p) = (count (tasks (ks fs) (current (ks fs))) + 1) div 2 \<and>
    count (tasks (ks fs') (current (ks fs))) = count (tasks (ks fs) (current (ks fs))) div 2 \<and>
    (\<forall>x. x \<noteq> p \<and> x \<noteq> current (ks fs) \<longrightarrow> count (tasks (ks fs') x) = count (tasks (ks fs) x)) \<and>
    (\<forall>x. x \<noteq> p \<longrightarrow> ctx (tasks (ks fs') x) = ctx (tasks (ks fs) x)) \<and>
    (let c = ctx (tasks (ks fs') p); thread = clone_flags AND PF_KTHREAD \<noteq> 0 in
       pc c = ret_from_fork K \<and> sp c = task_pt_regs p \<and> x19 c = (if thread then fn else 0) \<and> x20 c = (if thread then arg else 0) \<and>
       pstate (frames fs' (task_pt_regs p)) = (if thread then PSR_MODE_EL1h else 0))"
proof (rule do_fork_spec [OF assms, of clone_flags fn arg], goal_cases)
  case (1 p n fs')
  have "current (ks fs) \<in> ring_tasks K rs"
    using assms(1) by (simp add: fork_inv_def sched_inv_def preempt_inv_def)
  then have "p \<noteq> current (ks fs)"
    using assms(1,2) 1(2) subsetD [OF free_pages_pool 1(2)] by (auto simp: fork_inv_def ring_tasks_def kaddrs_ok_def)
  moreover have "let c = ctx (tasks (ks fs') p); thread = clone_flags AND PF_KTHREAD \<noteq> 0 in
       pc c = ret_from_fork K \<and> sp c = task_pt_regs p \<and> x19 c = (if thread then fn else 0) \<and> x20 c = (if thread then arg else 0) \<and>
       pstate (frames fs' (task_pt_regs p)) = (if thread then PSR_MODE_EL1h else 0)"
    using 1(10,18) by (simp add: child_ctx_def zero_context_def)
  ultimately show ?case
    using 1(1,2,4,6-9,11,14,20,21) by (intro exI [of _ p] exI [of _ n] exI [of _ fs']) simp
qed

theorem do_fork_creates_task_witness:
  "\<exists>p n fs'. do_fork K0 PF_KTHREAD 0x80700 0x12345 fs0 = (n, fs') \<and> pid (tasks (ks fs') p) = n \<and>
    x19 (ctx (tasks (ks fs') p)) = 0x80700"
  using do_fork_creates_task [OF fs0_inv K0_ok fs0_simps(4,3), of PF_KTHREAD "0x80700" "0x12345"]
  by (auto simp: Let_def PF_KTHREAD_def)

text \<open>
  C32: When \<^verbatim>\<open>do_fork\<close> fails it returns -1. Without a free page nothing changes; without a free task slot
  the page it took is not given back: one page of the pool is lost with each such call.
\<close>

theorem do_fork_failure:
  "(free_pages (mm fs) = {} \<longrightarrow> do_fork K clone_flags fn arg fs = (- 1, fs)) \<and>
   (0 \<notin> set (g_task fs) \<and> free_pages (mm fs) \<noteq> {} \<longrightarrow>
      (\<exists>fs'. do_fork K clone_flags fn arg fs = (- 1, fs') \<and> ks fs' = ks fs \<and> g_task fs' = g_task fs \<and>
        card (free_pages (mm fs')) = card (free_pages (mm fs)) - 1))"
proof -
  have "card (free_pages (snd (get_free_page (mm fs)))) = card (free_pages (mm fs)) - 1" if "free_pages (mm fs) \<noteq> {}"
    using get_free_page_taken [OF that, of "fst (get_free_page (mm fs))" "snd (get_free_page (mm fs))"] by simp
  then show ?thesis
    using do_fork_no_page [of fs K clone_flags fn arg] do_fork_no_slot [of fs K clone_flags fn arg] by auto
qed

theorem do_fork_failure_witness:
  "\<exists>fs'. do_fork K0 PF_KTHREAD 0 0 (fs0\<lparr>g_task := replicate 64 0x90000\<rparr>) = (- 1, fs') \<and>
    card (free_pages (mm fs')) = 131071"
  using do_fork_failure [of "fs0\<lparr>g_task := replicate 64 0x90000\<rparr>" K0 PF_KTHREAD 0 0] fs0_simps(4)
  by (auto simp: set_replicate_conv_if)

text \<open>
  The offsets \<^verbatim>\<open>asm-offsets.c\<close> gives the assembly fit the structures: the context starts where
  \<^verbatim>\<open>cpu_switch_to\<close> looks for it and ends where \<^verbatim>\<open>run_list\<close> begins; the trap frame fills the end of the
  task's page exactly, is 16-byte aligned and does not overlap the task structure at its start.
\<close>

theorem task_page_layout:
  assumes "page_aligned p"
  shows "THREAD_CPU_CONTEXT + 13 * 8 = run_list_offset \<and> NEED_RESCHED + 4 = TI_PREEMPT \<and> STACK_FRAME_SIZE = 272 \<and>
    unat (task_pt_regs p) + unat STACK_FRAME_SIZE = unat p + 4096 \<and> unat (task_pt_regs p) mod 16 = 0 \<and>
    unat p + unat TASK_STRUCT_SIZE < unat (task_pt_regs p)"
proof -
  obtain k where k: "unat p = 4096 * k"
    using assms by (auto simp: page_aligned_def)
  then have lt: "unat p + 3824 < 2 ^ 64"
    using unat_lt_64 [of p] by simp
  have "task_pt_regs p = p + 3824"
    by (simp add: task_pt_regs_def yios_consts S_X_def)
  then have "unat (task_pt_regs p) = unat p + 3824"
    using lt by (simp add: unat_add_no_wrap)
  moreover have "(4096 * k + 3824) mod 16 = 0"
    by (simp add: mod_eq_0_iff_dvd)
  ultimately show ?thesis
    by (simp add: yios_consts S_X_def k)
qed

theorem task_page_layout_witness: "unat (task_pt_regs 0x400000) mod 16 = 0"
  using task_page_layout [of "0x400000"] by (simp add: page_aligned_def)

end
