(* ===== verification/Dump_Pgtable.thy ===== *)
theory Dump_Pgtable
  imports Mmu_Boot Printk_Conv
begin

text \<open>
  \<^verbatim>\<open>kernel/dump_pgtable.c\<close>: the walk over the page tables that prints a line for every leaf. The
  walkers read the tables from the machine's memory and print through \<^verbatim>\<open>printk\<close>; a string literal
  is the address \<open>lit\<close> gives it, and a member of a table that is not initialised is a null pointer.
  Each loop over a table is a \<^theory_text>\<open>partial_function\<close> whose value \<^const>\<open>None\<close> means that it never ends.
\<close>

section \<open>The tables of names\<close>

record addr_marker =
  start_address :: u64
  marker_name :: string

record prot_bits =
  bmask :: u64
  bval :: u64
  bset :: "string option"
  bclear :: "string option"

record pg_level =
  bits :: "prot_bits list option"
  level_name :: "string option"
  num :: nat
  lmask :: u64

definition address_markers :: "addr_marker list" where
  "address_markers = [\<lparr>start_address = 0, marker_name = ''Identical mapping''\<rparr>]"

definition pte_bits :: "prot_bits list" where
  "pte_bits =
    [\<lparr>bmask = PTE_VALID, bval = PTE_VALID, bset = Some '' '', bclear = Some ''F''\<rparr>,
     \<lparr>bmask = PTE_USER, bval = PTE_USER, bset = Some ''USR'', bclear = Some '' ''\<rparr>,
     \<lparr>bmask = PTE_RDONLY, bval = PTE_RDONLY, bset = Some ''ro'', bclear = Some ''RW''\<rparr>,
     \<lparr>bmask = PTE_PXN, bval = PTE_PXN, bset = Some ''NX'', bclear = Some ''X''\<rparr>,
     \<lparr>bmask = PTE_SHARED, bval = PTE_SHARED, bset = Some ''SHD'', bclear = Some ''   ''\<rparr>,
     \<lparr>bmask = PTE_AF, bval = PTE_AF, bset = Some ''AF'', bclear = Some ''  ''\<rparr>,
     \<lparr>bmask = PTE_NG, bval = PTE_NG, bset = Some ''NG'', bclear = Some ''  ''\<rparr>,
     \<lparr>bmask = PTE_CONT, bval = PTE_CONT, bset = Some ''CON'', bclear = Some ''   ''\<rparr>,
     \<lparr>bmask = PTE_TABLE_BIT, bval = PTE_TABLE_BIT, bset = Some ''   '', bclear = Some ''BLK''\<rparr>,
     \<lparr>bmask = PTE_UXN, bval = PTE_UXN, bset = Some ''UXN'', bclear = None\<rparr>,
     \<lparr>bmask = PTE_ATTRINDX_MASK, bval = PTE_ATTRINDX MT_DEVICE_nGnRnE, bset = Some ''DEVICE/nGnRnE'', bclear = None\<rparr>,
     \<lparr>bmask = PTE_ATTRINDX_MASK, bval = PTE_ATTRINDX MT_DEVICE_nGnRE, bset = Some ''DEVICE/nGnRE'', bclear = None\<rparr>,
     \<lparr>bmask = PTE_ATTRINDX_MASK, bval = PTE_ATTRINDX MT_DEVICE_GRE, bset = Some ''DEVICE/GRE'', bclear = None\<rparr>,
     \<lparr>bmask = PTE_ATTRINDX_MASK, bval = PTE_ATTRINDX MT_NORMAL_NC, bset = Some ''MEM/NORMAL-NC'', bclear = None\<rparr>,
     \<lparr>bmask = PTE_ATTRINDX_MASK, bval = PTE_ATTRINDX MT_NORMAL, bset = Some ''MEM/NORMAL'', bclear = None\<rparr>]"

definition level_entry :: "string \<Rightarrow> pg_level" where
  "level_entry name = \<lparr>bits = Some pte_bits, level_name = Some name, num = length pte_bits, lmask = 0\<rparr>"

definition pg_levels :: "pg_level list" where
  "pg_levels =
     [\<lparr>bits = None, level_name = None, num = 0, lmask = 0\<rparr>,
      level_entry ''PGD'', level_entry ''PUD'', level_entry ''PMD'', level_entry ''PTE'']"

definition level_init :: "pg_level \<Rightarrow> pg_level" where
  "level_init l = (case bits l of None \<Rightarrow> l | Some bs \<Rightarrow> fold (\<lambda>b l. l\<lparr>lmask := lmask l OR bmask b\<rparr>) (take (num l) bs) l)"

definition pg_level_init :: "pg_level list \<Rightarrow> pg_level list" where
  "pg_level_init P = map level_init P"

section \<open>Printing a line\<close>

definition opt_str :: "(string \<Rightarrow> u64) \<Rightarrow> string option \<Rightarrow> u64" where
  "opt_str lit r = (case r of None \<Rightarrow> 0 | Some t \<Rightarrow> lit t)"

fun dump_prot :: "(string \<Rightarrow> u64) \<Rightarrow> u64 \<Rightarrow> prot_bits list \<Rightarrow> nat \<Rightarrow> machine \<Rightarrow> fault + machine" where
  "dump_prot lit prot bs 0 s = Inr s"
| "dump_prot lit prot [] (Suc n) s = Inl Out_Of_Bounds"
| "dump_prot lit prot (b # bs) (Suc n) s =
     (let t = opt_str lit (if prot AND bmask b = bval b then bset b else bclear b) in
      ebind (if t \<noteq> 0 then say '' %s'' [t] s else Inr s) (\<lambda>s. dump_prot lit prot bs n s))"

definition units :: string where "units = ''KMGT'' @ [CHR 0x00]"

text \<open>
  The loop that scales the size tests \<^verbatim>\<open>units[1]\<close>, which is never 0, and not the current unit: it ends
  only when a set bit comes down to the low ten, and never for 0.
\<close>

partial_function (option) unit_loop :: "u64 \<Rightarrow> nat \<Rightarrow> (u64 \<times> nat) option" where
  "unit_loop delta unit =
     (if delta AND 1023 = 0 \<and> units ! 1 \<noteq> CHR 0x00 then unit_loop (drop_bit 10 delta) (unit + 1) else Some (delta, unit))"

declare unit_loop.simps [code]

text \<open>The loop over the markers: it returns from the function in its first round when the entry is 0.\<close>

fun print_markers :: "(string \<Rightarrow> u64) \<Rightarrow> u64 \<Rightarrow> u64 \<Rightarrow> addr_marker list \<Rightarrow> machine \<Rightarrow> fault + bool \<times> machine" where
  "print_markers lit start val [] s = Inr (False, s)"
| "print_markers lit start val (k # ks) s =
     ebind (if start = start_address k then say ''---[ %s ]---\<newline>'' [lit (marker_name k)] s else Inr s) (\<lambda>s.
     if val = 0 then Inr (True, s) else print_markers lit start val ks s)"

definition print_pgtable ::
  "(string \<Rightarrow> u64) \<Rightarrow> pg_level list \<Rightarrow> u64 \<Rightarrow> u64 \<Rightarrow> nat \<Rightarrow> u64 \<Rightarrow> machine \<Rightarrow> fault + machine" where
  "print_pgtable lit P start stop level val s =
     (if \<not> level < length P then Inl Out_Of_Bounds
      else let prot = val AND lmask (P ! level) in
      ebind (print_markers lit start val address_markers s) (\<lambda>(done, s).
      if done then Inr s
      else
      ebind (say ''0x%016lx-0x%016lx   '' [start, stop] s) (\<lambda>s.
      ebind (of_opt Diverges (unit_loop (drop_bit 10 (stop - start)) 0)) (\<lambda>(delta, unit).
      if \<not> unit < length units then Inl Out_Of_Bounds
      else
      ebind (say ''%9lu%c %s'' [delta, ucast (ord (units ! unit) :: u8), opt_str lit (level_name (P ! level))] s) (\<lambda>s.
      ebind (case bits (P ! level) of None \<Rightarrow> Inr s | Some bs \<Rightarrow> dump_prot lit prot bs (num (P ! level)) s) (\<lambda>s.
      say ''\<newline>'' [] s))))))"

section \<open>The walkers\<close>

type_synonym walk = "(fault + machine) option"

partial_function (option) walk_pte_loop ::
  "(string \<Rightarrow> u64) \<Rightarrow> pg_level list \<Rightarrow> u64 \<Rightarrow> u64 \<Rightarrow> u64 \<Rightarrow> machine \<Rightarrow> walk" where
  "walk_pte_loop lit P ptep addr stop s =
     (case print_pgtable lit P addr (addr + PAGE_SIZE) 4 (ld64 (ram s) ptep) s of
        Inl e \<Rightarrow> Some (Inl e)
      | Inr s \<Rightarrow>
          let addr = addr + PAGE_SIZE
          in if addr \<noteq> stop then walk_pte_loop lit P (ptep + 8) addr stop s else Some (Inr s))"

declare walk_pte_loop.simps [code]

definition walk_pte :: "(string \<Rightarrow> u64) \<Rightarrow> pg_level list \<Rightarrow> u64 \<Rightarrow> u64 \<Rightarrow> u64 \<Rightarrow> machine \<Rightarrow> walk" where
  "walk_pte lit P pmdp start stop s = walk_pte_loop lit P (pte_offset_phys (ram s) pmdp start) start stop s"

text \<open>The body of the loop of \<^verbatim>\<open>walk_pmd\<close>, likewise below for the levels above.\<close>

definition walk_pmd_entry :: "(string \<Rightarrow> u64) \<Rightarrow> pg_level list \<Rightarrow> u64 \<Rightarrow> u64 \<Rightarrow> u64 \<Rightarrow> machine \<Rightarrow> walk" where
  "walk_pmd_entry lit P pmdp addr nxt s =
     (let pmd = ld64 (ram s) pmdp in
      if pmd_none pmd \<or> pmd_sect pmd then Some (print_pgtable lit P addr nxt 3 pmd s)
      else walk_pte lit P pmdp addr nxt s)"

partial_function (option) walk_pmd_loop ::
  "(string \<Rightarrow> u64) \<Rightarrow> pg_level list \<Rightarrow> u64 \<Rightarrow> u64 \<Rightarrow> u64 \<Rightarrow> machine \<Rightarrow> walk" where
  "walk_pmd_loop lit P pmdp addr stop s =
     (let nxt = pmd_addr_end addr stop in
      do { r \<leftarrow> walk_pmd_entry lit P pmdp addr nxt s;
           case r of
             Inl e \<Rightarrow> Some (Inl e)
           | Inr s \<Rightarrow> if nxt \<noteq> stop then walk_pmd_loop lit P (pmdp + 8) nxt stop s else Some (Inr s) })"

declare walk_pmd_loop.simps [code]

definition walk_pmd :: "(string \<Rightarrow> u64) \<Rightarrow> pg_level list \<Rightarrow> u64 \<Rightarrow> u64 \<Rightarrow> u64 \<Rightarrow> machine \<Rightarrow> walk" where
  "walk_pmd lit P pudp start stop s = walk_pmd_loop lit P (pmd_offset_phys (ram s) pudp start) start stop s"

definition walk_pud_entry :: "(string \<Rightarrow> u64) \<Rightarrow> pg_level list \<Rightarrow> u64 \<Rightarrow> u64 \<Rightarrow> u64 \<Rightarrow> machine \<Rightarrow> walk" where
  "walk_pud_entry lit P pudp addr nxt s =
     (let pud = ld64 (ram s) pudp in
      if pud_none pud \<or> pud_sect pud then Some (print_pgtable lit P addr nxt 2 pud s)
      else walk_pmd lit P pudp addr nxt s)"

text \<open>The end of the next block is computed from \<^verbatim>\<open>start\<close>, the same in every round.\<close>

partial_function (option) walk_pud_loop ::
  "(string \<Rightarrow> u64) \<Rightarrow> pg_level list \<Rightarrow> u64 \<Rightarrow> u64 \<Rightarrow> u64 \<Rightarrow> u64 \<Rightarrow> machine \<Rightarrow> walk" where
  "walk_pud_loop lit P pudp start addr stop s =
     (let nxt = pud_addr_end start stop in
      do { r \<leftarrow> walk_pud_entry lit P pudp addr nxt s;
           case r of
             Inl e \<Rightarrow> Some (Inl e)
           | Inr s \<Rightarrow> if nxt \<noteq> stop then walk_pud_loop lit P (pudp + 8) start nxt stop s else Some (Inr s) })"

declare walk_pud_loop.simps [code]

definition walk_pud :: "(string \<Rightarrow> u64) \<Rightarrow> pg_level list \<Rightarrow> u64 \<Rightarrow> u64 \<Rightarrow> u64 \<Rightarrow> machine \<Rightarrow> walk" where
  "walk_pud lit P pgdp start stop s = walk_pud_loop lit P (pud_offset_phys (ram s) pgdp start) start start stop s"

definition walk_pgd_entry :: "(string \<Rightarrow> u64) \<Rightarrow> pg_level list \<Rightarrow> u64 \<Rightarrow> u64 \<Rightarrow> u64 \<Rightarrow> machine \<Rightarrow> walk" where
  "walk_pgd_entry lit P pgdp addr nxt s =
     (let pgd = ld64 (ram s) pgdp in
      if pgd_none pgd then Some (print_pgtable lit P addr nxt 1 pgd s)
      else walk_pud lit P pgdp addr nxt s)"

partial_function (option) walk_pgd_loop ::
  "(string \<Rightarrow> u64) \<Rightarrow> pg_level list \<Rightarrow> u64 \<Rightarrow> u64 \<Rightarrow> u64 \<Rightarrow> machine \<Rightarrow> walk" where
  "walk_pgd_loop lit P pgdp addr stop s =
     (let nxt = pgd_addr_end addr stop in
      do { r \<leftarrow> walk_pgd_entry lit P pgdp addr nxt s;
           case r of
             Inl e \<Rightarrow> Some (Inl e)
           | Inr s \<Rightarrow> if nxt \<noteq> stop then walk_pgd_loop lit P (pgdp + 8) nxt stop s else Some (Inr s) })"

declare walk_pgd_loop.simps [code]

definition walk_pgd :: "(string \<Rightarrow> u64) \<Rightarrow> pg_level list \<Rightarrow> u64 \<Rightarrow> u64 \<Rightarrow> u64 \<Rightarrow> machine \<Rightarrow> walk" where
  "walk_pgd lit P pgd start sz s =
     (let stop = start + sz in walk_pgd_loop lit P (pgd_offset_raw pgd start) start stop s)"

definition dump_pgtable :: "(string \<Rightarrow> u64) \<Rightarrow> layout \<Rightarrow> pg_level list \<times> machine \<Rightarrow> pg_level list \<times> walk" where
  "dump_pgtable lit L = (\<lambda>(P, s).
     let P = pg_level_init P in (P, walk_pgd lit P (idmap_pg_dir L) 0 TOTAL_MEMORY s))"

end
