(* ===== verification/Dump_Spec.thy ===== *)
theory Dump_Spec
  imports Dump_Pgtable
begin

text \<open>
  What the table dump prints. The size of a line is exact in its unit; a line names the bits of the
  entry; the walk over a table lists entries whose ranges join (locale \<open>walk_loop\<close>, for the loops
  of \<^verbatim>\<open>walk_pte\<close> and \<^verbatim>\<open>walk_pmd\<close>), inside an environment in which the literals are in memory (locale
  \<open>dump_env\<close>). The lines are compared with the translation of \<open>Table_Spec\<close>, which the table code
  of \<^verbatim>\<open>mmu.c\<close> is proved against.
\<close>

section \<open>The size of a line\<close>

lemma low_ten: "(x :: u64) AND 1023 = 0 \<longleftrightarrow> unat x mod 1024 = 0"
proof -
  have "(1023 :: u64) = mask 10"
    by (simp add: mask_eq_exp_minus_1)
  then have "unat (x AND 1023) = unat x mod 1024"
    using unat_and_mask [of x 10] by simp
  then show ?thesis
    by (metis unat_eq_0)
qed

lemma unit_loop_run:
  assumes "unat d = q * 1024 ^ j" and "q mod 1024 \<noteq> 0"
  shows "unit_loop d k = Some (of_nat q, k + j)"
  using assms(1)
proof (induction j arbitrary: d k)
  case 0
  then have "d = of_nat q"
    using of_nat_unat_64 [of d] by simp
  moreover have "unit_loop d k = Some (d, k)"
    using 0 assms(2) by (subst unit_loop.simps) (simp add: low_ten)
  ultimately show ?case by simp
next
  case (Suc j)
  then have "unat (drop_bit 10 d) = q * 1024 ^ j" and "unat d mod 1024 = 0"
    by (simp_all add: unat_drop_bit)
  with Suc.IH show ?case
    by (simp add: unit_loop.simps [of d] low_ten units_def)
qed

lemma unit_loop_returns: "d \<noteq> 0 \<Longrightarrow> \<exists>r. unit_loop d k = Some r"
proof (induction "unat d" arbitrary: d k rule: less_induct)
  case (less d k)
  show ?case
  proof (cases "unat d mod 1024 = 0")
    case False
    then show ?thesis
      by (subst unit_loop.simps) (simp add: low_ten)
  next
    case True
    have "0 < unat d"
      using less.prems by (simp add: unat_gt_0)
    with True have "0 < unat (drop_bit 10 d)" and "unat (drop_bit 10 d) < unat d"
      by (auto simp: unat_drop_bit)
    then obtain r where "unit_loop (drop_bit 10 d) (k + 1) = Some r"
      using less.hyps [of "drop_bit 10 d" "k + 1"] by (auto simp: unat_gt_0)
    with True show ?thesis
      by (subst unit_loop.simps) (simp add: low_ten units_def)
  qed
qed

lemma unit_loop_0: "unit_loop 0 k = None"
proof (rule ccontr)
  let ?Q = "\<lambda>(d :: u64) (k :: nat) (r :: u64 \<times> nat). d \<noteq> 0"
  assume "unit_loop 0 k \<noteq> None"
  then obtain r where "unit_loop 0 k = Some r"
    by blast
  then have "?Q 0 k r"
    by (rule unit_loop.raw_induct [where P = ?Q, rotated]) (force simp: units_def split: if_splits)
  then show False by simp
qed

text \<open>The largest unit that divides the size, and the number of such units.\<close>

definition unit_of :: "nat \<Rightarrow> nat" where
  "unit_of n = (if n mod 1024 \<noteq> 0 then 0 else if n mod 1024 ^ 2 \<noteq> 0 then 1 else if n mod 1024 ^ 3 \<noteq> 0 then 2 else 3)"

definition scaled :: "nat \<Rightarrow> nat" where
  "scaled n = n div 1024 ^ unit_of n"

lemma scaled:
  assumes "0 < n" and "n < 1024 ^ 4"
  shows "n = scaled n * 1024 ^ unit_of n" and "scaled n mod 1024 \<noteq> 0"
proof -
  have "n = n div 1024 ^ j * 1024 ^ j" if "n mod 1024 ^ j = 0" for j
    using that by (metis add.right_neutral div_mult_mod_eq)
  moreover have "n mod 1024 ^ unit_of n = 0"
    by (simp add: unit_of_def)
  ultimately show e: "n = scaled n * 1024 ^ unit_of n"
    by (simp add: scaled_def)
  have dv: "n mod 1024 ^ Suc (unit_of n) = 0" if z: "scaled n mod 1024 = 0"
  proof -
    from z obtain c where "scaled n = 1024 * c" by auto
    then have "n = c * 1024 ^ Suc (unit_of n)"
      by (subst e) simp
    then show ?thesis by (metis mod_mult_self2_is_0)
  qed
  show "scaled n mod 1024 \<noteq> 0"
  proof
    assume "scaled n mod 1024 = 0"
    then have z: "n mod 1024 ^ Suc (unit_of n) = 0"
      by (rule dv)
    have "unit_of n \<in> {0, 1, 2, 3}"
      by (simp add: unit_of_def)
    then show False
    proof (elim insertE emptyE)
      assume "unit_of n = 3"
      with z have "n mod 1024 ^ 4 = 0" by simp
      with assms show False by simp
    qed (use z in \<open>simp_all add: unit_of_def split: if_splits\<close>)
  qed
qed

lemma unit_loop_size:
  assumes "0 < n" and "n < 1024 ^ 4"
  shows "unit_loop (of_nat n) 0 = Some (of_nat (scaled n), unit_of n)"
  using unit_loop_run [of "of_nat n" "scaled n" "unit_of n" 0] scaled [OF assms] assms(2)
  by (simp add: unat_of_nat_64)

section \<open>The text of a line\<close>

definition prot_text :: "u64 \<Rightarrow> prot_bits list \<Rightarrow> string" where
  "prot_text v bs = concat (map (\<lambda>b.
     case (if v AND bmask b = bval b then bset b else bclear b) of None \<Rightarrow> [] | Some t \<Rightarrow> '' '' @ t) bs)"

definition hex16 :: "u64 \<Rightarrow> string" where
  "hex16 n = number_text n 16 16 (- 1) (ZEROPAD OR SMALL)"

definition dec9 :: "nat \<Rightarrow> string" where
  "dec9 n = number_text (of_nat n) 10 9 (- 1) 0"

definition level_text :: "nat \<Rightarrow> string" where
  "level_text l = [''PGD'', ''PUD'', ''PMD'', ''PTE''] ! (l - 1)"

type_synonym dline = "u64 \<times> u64 \<times> nat \<times> u64"

definition line_text :: "dline \<Rightarrow> string" where
  "line_text = (\<lambda>(a, b, l, v).
     (if a = 0 then ''---[ Identical mapping ]---\<newline>'' else []) @
     (if v = 0 then []
      else let n = unat (b - a) div 1024 in
        ''0x'' @ hex16 a @ ''-0x'' @ hex16 b @ ''   '' @
        dec9 (scaled n) @ [''KMGT'' ! unit_of n] @ '' '' @ level_text l @ prot_text v pte_bits @ ''\<newline>''))"

definition dump_literals :: "string list" where
  "dump_literals = [''Identical mapping'', ''PGD'', ''PUD'', ''PMD'', ''PTE''] @
     map the (filter (\<lambda>x. x \<noteq> None) (map bset pte_bits @ map bclear pte_bits))"

lemma dump_literals_short: "t \<in> set dump_literals \<Longrightarrow> length t \<le> 60 \<and> CHR 0x00 \<notin> set t"
proof -
  have "list_all (\<lambda>t. length t \<le> 60 \<and> CHR 0x00 \<notin> set t) dump_literals"
    by code_simp
  then show "t \<in> set dump_literals \<Longrightarrow> length t \<le> 60 \<and> CHR 0x00 \<notin> set t"
    by (simp add: list_all_iff)
qed

lemma bit_name_literal:
  assumes "b \<in> set pte_bits" and "bset b = Some t \<or> bclear b = Some t"
  shows "t \<in> set dump_literals"
proof -
  have "Some t \<in> set (filter (\<lambda>x. x \<noteq> None) (map bset pte_bits @ map bclear pte_bits))"
    using assms by (force simp: image_iff)
  then have "the (Some t) \<in> the ` set (filter (\<lambda>x. x \<noteq> None) (map bset pte_bits @ map bclear pte_bits))"
    by (rule imageI)
  then show ?thesis
    unfolding dump_literals_def set_append set_map by simp
qed

lemma prints_name:
  assumes "lits_in ls lit m" and "t \<in> set ls" and "length t \<le> 60"
  shows "prints m (\<lambda>s. say '' %s'' [lit t] s) ('' '' @ t)"
  using lits_inD [OF assms(1,2)] assms(3)
  by (intro prints_say) (simp_all add: myprintf_def conv_rules)

lemma prints_dump_prot:
  assumes "lits_in dump_literals lit m" and "set bs \<subseteq> set pte_bits"
  shows "prints m (\<lambda>s. dump_prot lit v bs (length bs) s) (prot_text v bs)"
  using assms(2)
proof (induction bs)
  case Nil
  show ?case
    using prints_Inr by (simp add: prot_text_def)
next
  case (Cons b bs)
  define r where "r = (if v AND bmask b = bval b then bset b else bclear b)"
  have b: "b \<in> set pte_bits"
    using Cons.prems by simp
  have "prints m (\<lambda>s. if opt_str lit r \<noteq> 0 then say '' %s'' [opt_str lit r] s else Inr s)
      (case r of None \<Rightarrow> [] | Some t \<Rightarrow> '' '' @ t)"
  proof (cases r)
    case None
    then show ?thesis
      using prints_Inr by (simp add: opt_str_def)
  next
    case (Some t)
    then have t: "t \<in> set dump_literals"
      by (intro bit_name_literal [OF b]) (auto simp: r_def split: if_splits)
    with Some show ?thesis
      using prints_name [OF assms(1) t] dump_literals_short [OF t] lits_inD(1) [OF assms(1) t]
      by (simp add: opt_str_def)
  qed
  from prints_bind [OF this Cons.IH] Cons.prems show ?case
    by (simp add: prot_text_def r_def [symmetric] Let_def)
qed

section \<open>Printing a line\<close>

abbreviation the_levels :: "pg_level list" where
  "the_levels \<equiv> pg_level_init pg_levels"

lemma the_levels_length [simp]: "length the_levels = 5"
  by (simp add: pg_level_init_def pg_levels_def)

lemma fold_lmask:
  "fold (\<lambda>b l. l\<lparr>lmask := lmask l OR bmask b\<rparr>) bs (l :: pg_level) =
     l\<lparr>lmask := fold (\<lambda>b m. m OR bmask b) bs (lmask l)\<rparr>"
  by (induction bs arbitrary: l) simp_all

definition named_bits :: u64 where
  "named_bits = fold (\<lambda>b m. m OR bmask b) pte_bits 0"

lemma the_levels_nth:
  assumes "1 \<le> l" and "l \<le> 4"
  shows "the_levels ! l =
    \<lparr>bits = Some pte_bits, level_name = Some (level_text l), num = length pte_bits, lmask = named_bits\<rparr>"
proof -
  have "level_init (level_entry t) =
      \<lparr>bits = Some pte_bits, level_name = Some t, num = length pte_bits, lmask = named_bits\<rparr>" for t
    by (simp add: level_init_def level_entry_def fold_lmask named_bits_def)
  moreover have "l \<in> {1, 2, 3, 4}"
    using assms by auto
  ultimately show ?thesis
    by (auto simp: pg_level_init_def pg_levels_def level_text_def)
qed

lemma named_bits_all: "b \<in> set pte_bits \<Longrightarrow> (v AND named_bits) AND bmask b = v AND bmask b"
proof -
  have "list_all (\<lambda>b. named_bits AND bmask b = bmask b) pte_bits"
    by code_simp
  then show "b \<in> set pte_bits \<Longrightarrow> (v AND named_bits) AND bmask b = v AND bmask b"
    by (simp add: list_all_iff and.assoc)
qed

lemma prot_text_named: "prot_text (v AND named_bits) pte_bits = prot_text v pte_bits"
  unfolding prot_text_def
  by (rule arg_cong [where f = concat], rule map_cong [OF refl]) (simp only: named_bits_all)

lemma level_literal: "1 \<le> l \<Longrightarrow> l \<le> 4 \<Longrightarrow> level_text l \<in> set dump_literals"
proof -
  assume "1 \<le> l" "l \<le> 4"
  then have "l \<in> {1, 2, 3, 4}" by auto
  then show ?thesis
    by (auto simp: level_text_def dump_literals_def)
qed

lemma line_numbers_short: "length (hex16 a) \<le> 68" "length (dec9 n) \<le> 68"
  unfolding hex16_def dec9_def by (rule number_text_short; simp)+

lemma prints_range: "prints m (\<lambda>s. say ''0x%016lx-0x%016lx   '' [a, b] s) (''0x'' @ hex16 a @ ''-0x'' @ hex16 b @ ''   '')"
proof (rule prints_say)
  show "myprintf 1024 ''0x%016lx-0x%016lx   '' [a, b] m = Inr (''0x'' @ hex16 a @ ''-0x'' @ hex16 b @ ''   '', m)"
    by (simp add: myprintf_def conv_rules hex16_def)
  show "length (''0x'' @ hex16 a @ ''-0x'' @ hex16 b @ ''   '') < 1024"
    using line_numbers_short(1) [of a] line_numbers_short(1) [of b] unfolding length_append by simp
qed

lemma unit_char: "u < 4 \<Longrightarrow> chr (ucast (ucast (ord (units ! u) :: u8) :: u64) :: u8) = ''KMGT'' ! u"
proof -
  assume "u < 4"
  moreover have "(ucast (ucast (x :: u8) :: u64) :: u8) = x" for x
    by (rule bit_eqI) (auto simp: bit_simps dest: bit_imp_le_length)
  ultimately show ?thesis
    by (simp add: units_def nth_append del: append.simps)
qed

lemma prints_line_size:
  assumes "lits_in dump_literals lit m" and "t \<in> set dump_literals" and "u < 4"
  shows "prints m (\<lambda>s. say ''%9lu%c %s'' [of_nat n, ucast (ord (units ! u) :: u8), lit t] s)
    (dec9 n @ [''KMGT'' ! u] @ '' '' @ t)"
proof (rule prints_say)
  show "myprintf 1024 ''%9lu%c %s'' [of_nat n, ucast (ord (units ! u) :: u8), lit t] m =
      Inr (dec9 n @ [''KMGT'' ! u] @ '' '' @ t, m)"
    using lits_inD [OF assms(1,2)] unit_char [OF assms(3)] by (simp add: myprintf_def conv_rules dec9_def)
  show "length (dec9 n @ [''KMGT'' ! u] @ '' '' @ t) < 1024"
    using line_numbers_short(2) [of n] dump_literals_short [OF assms(2)] unfolding length_append by simp
qed

lemma prints_marker:
  assumes "lits_in dump_literals lit m"
  shows "prints m (\<lambda>s. if a = 0 then say ''---[ %s ]---\<newline>'' [lit ''Identical mapping''] s else Inr s)
    (if a = 0 then ''---[ Identical mapping ]---\<newline>'' else [])"
proof (rule prints_if)
  have "''Identical mapping'' \<in> set dump_literals"
    by (simp add: dump_literals_def)
  from lits_inD [OF assms this]
  show "prints m (\<lambda>s. say ''---[ %s ]---\<newline>'' [lit ''Identical mapping''] s) ''---[ Identical mapping ]---\<newline>''"
    by (intro prints_say) (simp_all add: myprintf_def conv_rules)
qed (rule prints_Inr)

lemma prints_line:
  assumes lits: "lits_in dump_literals lit m" and l: "1 \<le> l" "l \<le> 4"
    and n: "1024 \<le> unat (b - a)" "unat (b - a) \<le> 2 ^ 48"
  shows "prints m (\<lambda>s. print_pgtable lit the_levels a b l v s) (line_text (a, b, l, v))"
proof (cases "v = 0")
  case True
  have "print_pgtable lit the_levels a b l v =
      (\<lambda>s. ebind (if a = 0 then say ''---[ %s ]---\<newline>'' [lit ''Identical mapping''] s else Inr s) (\<lambda>s. Inr s))"
    using l True by (simp add: print_pgtable_def address_markers_def ebind_assoc fun_eq_iff)
  then show ?thesis
    using prints_bind [OF prints_marker [OF lits, of a] prints_Inr] True by (simp add: line_text_def)
next
  case False
  define k where "k = unat (b - a) div 1024"
  have k: "0 < k" "k < 1024 ^ 4"
    using n by (simp_all add: k_def)
  have u: "unit_of k < 4"
    by (simp add: unit_of_def)
  have "drop_bit 10 (b - a) = of_nat k"
    using unat_drop_bit [of 10 "b - a"] of_nat_unat_64 [of "drop_bit 10 (b - a)"] by (simp add: k_def)
  then have "print_pgtable lit the_levels a b l v =
      (\<lambda>s. ebind (if a = 0 then say ''---[ %s ]---\<newline>'' [lit ''Identical mapping''] s else Inr s) (\<lambda>s.
       ebind (say ''0x%016lx-0x%016lx   '' [a, b] s) (\<lambda>s.
       ebind (say ''%9lu%c %s'' [of_nat (scaled k), ucast (ord (units ! unit_of k) :: u8), lit (level_text l)] s) (\<lambda>s.
       ebind (dump_prot lit (v AND named_bits) pte_bits (length pte_bits) s) (\<lambda>s.
       say ''\<newline>'' [] s)))))"
    using l False u unit_loop_size [OF k] the_levels_nth [OF l]
    by (simp add: print_pgtable_def address_markers_def ebind_assoc fun_eq_iff of_opt_def opt_str_def units_def)
  moreover have "prints m (\<lambda>s. say ''\<newline>'' [] s) ''\<newline>''"
    by (rule prints_say) (simp_all add: myprintf_def conv_rules)
  ultimately show ?thesis
    using prints_bind [OF prints_marker [OF lits, of a] prints_bind [OF prints_range [of m a b]
        prints_bind [OF prints_line_size [OF lits level_literal [OF l] u, of "scaled k"]
        prints_bind [OF prints_dump_prot [OF lits subset_refl, of "v AND named_bits"]]]]] False
    by (simp add: line_text_def prot_text_named k_def Let_def)
qed


section \<open>Lists of lines\<close>

text \<open>
  \<open>dumps m W L\<close>: on memory \<open>m\<close> the walk \<open>W\<close> ends and prints exactly the lines \<open>L\<close>. \<open>covers x L y\<close>: the
  lines are adjacent, not empty, and go from \<open>x\<close> to \<open>y\<close>. \<open>agrees T L\<close>: every address of a line
  translates under \<open>T\<close> the way the entry of the line says by itself.
\<close>

definition dumps :: "mem \<Rightarrow> (machine \<Rightarrow> walk) \<Rightarrow> dline list \<Rightarrow> bool" where
  "dumps m W L \<longleftrightarrow>
     (\<forall>s. tx_ready s \<and> ram s = m \<longrightarrow> (\<exists>s'. W s = Some (Inr s') \<and> printed s s' (concat (map line_text L))))"

definition leaf :: "nat \<Rightarrow> u64 \<Rightarrow> u64 \<Rightarrow> (u64 \<times> u64) option" where
  "leaf l v va =
     (if l = 4 \<and> v AND 3 = 3 then Some (paddr v + of_nat (unat va mod 2 ^ 12), attrs v)
      else if l = 3 \<and> v AND 3 = 1 then Some (paddr v + of_nat (unat va mod 2 ^ 21), attrs v)
      else None)"

fun covers :: "nat \<Rightarrow> dline list \<Rightarrow> nat \<Rightarrow> bool" where
  "covers x [] y \<longleftrightarrow> x = y"
| "covers x ((a, b, l, v) # L) y \<longleftrightarrow> x = unat a \<and> unat a < unat b \<and> covers (unat b) L y"

definition agrees :: "(u64 \<Rightarrow> (u64 \<times> u64) option) \<Rightarrow> dline list \<Rightarrow> bool" where
  "agrees T L \<longleftrightarrow> (\<forall>(a, b, l, v) \<in> set L. \<forall>va. unat a \<le> unat va \<and> unat va < unat b \<longrightarrow> T va = leaf l v va)"

lemma covers_within: "covers x L y \<Longrightarrow> (a, b, l, v) \<in> set L \<Longrightarrow> x \<le> unat a \<and> unat b \<le> y"
proof (induction L arbitrary: x)
  case (Cons d L)
  have le: "covers z M y \<Longrightarrow> z \<le> y" for z M
    by (induction M arbitrary: z) fastforce+
  obtain a' b' l' v' where d: "d = (a', b', l', v')"
    by (cases d)
  with Cons.prems Cons.IH [of "unat b'"] le [of "unat b'" L] show ?case
    by auto
qed simp

lemma covers_append: "covers x L1 y \<Longrightarrow> covers y L2 z \<Longrightarrow> covers x (L1 @ L2) z"
  by (induction L1 arbitrary: x) auto

lemma agrees_cong:
  assumes "agrees T L" and "covers (unat addr) L (unat stop)" and "\<And>va. inr addr stop va \<Longrightarrow> T' va = T va"
  shows "agrees T' L"
  unfolding agrees_def
proof clarify
  fix a b l v and va :: u64
  assume i: "(a, b, l, v) \<in> set L" and va: "unat a \<le> unat va" "unat va < unat b"
  then have "inr addr stop va"
    using covers_within [OF assms(2) i] by (simp add: inr_def)
  then show "T' va = leaf l v va"
    using assms(1,3) i va unfolding agrees_def by auto
qed

lemma dumps_seq:
  assumes "dumps m W L1" and "dumps m V L2"
  shows "dumps m (\<lambda>s. W s \<bind> (\<lambda>r. case r of Inl e \<Rightarrow> Some (Inl e) | Inr s \<Rightarrow> V s)) (L1 @ L2)"
  unfolding dumps_def
proof (intro allI impI)
  fix s
  assume s: "tx_ready s \<and> ram s = m"
  obtain s1 where s1: "W s = Some (Inr s1)" "printed s s1 (concat (map line_text L1))"
    using assms(1) s by (auto simp: dumps_def)
  then have "tx_ready s1 \<and> ram s1 = m"
    using s by (simp add: printed_def)
  then obtain s2 where "V s1 = Some (Inr s2)" "printed s1 s2 (concat (map line_text L2))"
    using assms(2) by (auto simp: dumps_def)
  with s1 show "\<exists>s'. W s \<bind> (\<lambda>r. case r of Inl e \<Rightarrow> Some (Inl e) | Inr s \<Rightarrow> V s) = Some (Inr s') \<and>
      printed s s' (concat (map line_text (L1 @ L2)))"
    by (auto simp: printed_def)
qed

lemma dumps_none: "dumps m (\<lambda>s. Some (Inr s)) []"
  by (simp add: dumps_def printed_def)

lemma dumps_cong: "(\<And>s. ram s = m \<Longrightarrow> W s = V s) \<Longrightarrow> dumps m V L \<Longrightarrow> dumps m W L"
  by (simp add: dumps_def)

abbreviation area :: "nat \<Rightarrow> u64 \<Rightarrow> u64 \<Rightarrow> bool" where
  "area n addr stop \<equiv> req n addr stop addr 3"

lemma areaI:
  assumes "page_aligned addr" and "page_aligned stop" and "unat addr < unat stop" and "unat stop \<le> 2 ^ 48"
    and "unat addr div 2 ^ sh n = (unat stop - 1) div 2 ^ sh n"
  shows "area n addr stop"
  using assms by (simp add: req_def PTE_ADDR_MASK_def PAGE_SHIFT_def)

section \<open>A loop over a table\<close>

locale walk_loop =
  fixes m :: mem and n :: nat
    and child :: "u64 \<Rightarrow> u64 \<Rightarrow> u64 \<Rightarrow> machine \<Rightarrow> walk"
    and loop :: "u64 \<Rightarrow> u64 \<Rightarrow> u64 \<Rightarrow> machine \<Rightarrow> walk"
    and addr_end :: "u64 \<Rightarrow> u64 \<Rightarrow> u64"
  assumes loop_unfold: "loop ep addr stop s =
      (let nxt = addr_end addr stop in
       do { r \<leftarrow> child ep addr nxt s;
            case r of
              Inl e \<Rightarrow> Some (Inl e)
            | Inr s \<Rightarrow> if nxt \<noteq> stop then loop (ep + 8) nxt stop s else Some (Inr s) })"
    and addr_end_spec: "area (Suc n) addr stop \<Longrightarrow>
      unat (addr_end addr stop) = min ((unat addr div 2 ^ sh n + 1) * 2 ^ sh n) (unat stop)"
    and child_lists: "area n addr stop \<Longrightarrow> ent n (ld64 m) (ld64 m ep) F \<Longrightarrow>
      \<exists>L. dumps m (child ep addr stop) L \<and> covers (unat addr) L (unat stop) \<and>
        agrees (look n (ld64 m) (ld64 m ep)) L"
begin

lemma loop_lists:
  assumes "area (Suc n) addr stop" and "tbl n (ld64 m) p F"
  shows "\<exists>L. dumps m (loop (slot p (idx n addr)) addr stop) L \<and> covers (unat addr) L (unat stop) \<and>
    agrees (ltab n (ld64 m) p) L"
  using assms(1)
proof (induction "(unat stop - 1) div 2 ^ sh n - unat addr div 2 ^ sh n" arbitrary: addr rule: less_induct)
  case (less addr)
  note R = less.prems
  define nxt where "nxt = addr_end addr stop"
  note f = req_first [OF R addr_end_spec [OF R], folded nxt_def]
  obtain Fi where "ent n (ld64 m) (ld64 m (slot p (idx n addr))) Fi"
    using assms(2) by (metis tblE idx_lt)
  from child_lists [OF f(1) this] obtain L1 where
    L1: "dumps m (child (slot p (idx n addr)) addr nxt) L1" "covers (unat addr) L1 (unat nxt)"
    and a1: "agrees (look n (ld64 m) (ld64 m (slot p (idx n addr)))) L1"
    by blast
  have A1: "agrees (ltab n (ld64 m) p) L1"
  proof (rule agrees_cong [OF a1 L1(2)])
    fix va
    assume i: "inr addr nxt va"
    then have "inr addr stop va"
      using f(3) by (simp add: inr_def)
    then have "idx n va = idx n addr"
      using same_block_idx [OF req_block [OF R]] req_block [OF f(1) i] by simp
    then show "ltab n (ld64 m) p va = look n (ld64 m) (ld64 m (slot p (idx n addr))) va"
      by (simp add: ltab_def)
  qed
  show ?case
  proof (cases "nxt = stop")
    case True
    have "loop (slot p (idx n addr)) addr stop =
        (\<lambda>s. child (slot p (idx n addr)) addr nxt s \<bind> (\<lambda>r. case r of Inl e \<Rightarrow> Some (Inl e) | Inr s \<Rightarrow> Some (Inr s)))"
      using True by (simp add: fun_eq_iff loop_unfold [of "slot p (idx n addr)"] nxt_def [symmetric])
    then have "dumps m (loop (slot p (idx n addr)) addr stop) L1"
      using dumps_seq [OF L1(1) dumps_none] by simp
    then show ?thesis
      using True L1(2) A1 by blast
  next
    case False
    then have hi: "unat nxt < unat stop"
      using f(3) by (simp add: order_less_le word_unat_eq_iff)
    then have n2: "unat nxt div 2 ^ sh n = unat addr div 2 ^ sh n + 1"
      using addr_end_spec [OF R] by (simp add: nxt_def min_def split: if_splits)
    have "unat nxt div 2 ^ sh n \<le> (unat stop - 1) div 2 ^ sh n"
      using hi by (intro div_le_mono) simp
    then have dec: "(unat stop - 1) div 2 ^ sh n - unat nxt div 2 ^ sh n
        < (unat stop - 1) div 2 ^ sh n - unat addr div 2 ^ sh n"
      using n2 by simp
    have "unat nxt div 2 ^ sh (Suc n) = unat addr div 2 ^ sh (Suc n)"
      using f hi by (intro req_block [OF R]) (simp add: inr_def)
    then have sl: "slot p (idx n addr) + 8 = slot p (idx n nxt)"
      using idx_Suc n2 by (simp add: slot_Suc)
    have "area (Suc n) nxt stop"
      using req_rest(1) [OF R _ f(2) hi] f(1) by (simp add: req_def)
    from less.hyps [OF dec this] obtain L2 where
      L2: "dumps m (loop (slot p (idx n nxt)) nxt stop) L2" "covers (unat nxt) L2 (unat stop)"
      and A2: "agrees (ltab n (ld64 m) p) L2"
      by blast
    have "loop (slot p (idx n addr)) addr stop =
        (\<lambda>s. child (slot p (idx n addr)) addr nxt s \<bind>
          (\<lambda>r. case r of Inl e \<Rightarrow> Some (Inl e) | Inr s \<Rightarrow> loop (slot p (idx n nxt)) nxt stop s))"
      using False sl by (simp add: fun_eq_iff loop_unfold [of "slot p (idx n addr)"] nxt_def [symmetric])
    then have "dumps m (loop (slot p (idx n addr)) addr stop) (L1 @ L2)"
      using dumps_seq [OF L1(1) L2(1)] by simp
    moreover have "agrees (ltab n (ld64 m) p) (L1 @ L2)"
      using A1 A2 by (auto simp: agrees_def)
    ultimately show ?thesis
      using covers_append [OF L1(2) L2(2)] by blast
  qed
qed

end


section \<open>The levels\<close>

locale dump_env =
  fixes lit :: "string \<Rightarrow> u64" and m :: mem
  assumes lits: "lits_in dump_literals lit m"
begin

lemma line_lists:
  assumes "area n addr stop" and "1 \<le> l" and "l \<le> 4" and "\<And>va. inr addr stop va \<Longrightarrow> T va = leaf l v va"
  shows "dumps m (\<lambda>s. Some (print_pgtable lit the_levels addr stop l v s)) [(addr, stop, l, v)] \<and>
    covers (unat addr) [(addr, stop, l, v)] (unat stop) \<and> agrees T [(addr, stop, l, v)]"
proof -
  have r: "unat addr < unat stop" "unat stop \<le> 2 ^ 48" "page_aligned addr" "page_aligned stop"
    using assms(1) by (auto simp: req_def)
  then have "unat (stop - addr) = unat stop - unat addr"
    by (simp add: unat_sub word_le_nat_alt)
  moreover have "4096 \<le> unat stop - unat addr"
    using r by (auto simp: page_aligned_def elim!: dvdE)
  ultimately have "prints m (\<lambda>s. print_pgtable lit the_levels addr stop l v s) (line_text (addr, stop, l, v))"
    using prints_line [OF lits assms(2,3)] r(2) by simp
  then show ?thesis
    using r(1) assms(4) by (auto simp: dumps_def prints_def agrees_def inr_def)
qed

end

sublocale dump_env \<subseteq> pte: walk_loop m 0
    "\<lambda>ep addr nxt s. Some (print_pgtable lit the_levels addr nxt 4 (ld64 (ram s) ep) s)"
    "walk_pte_loop lit the_levels" "\<lambda>addr stop. addr + PAGE_SIZE"
proof
  show "\<exists>L. dumps m (\<lambda>s. Some (print_pgtable lit the_levels addr stop 4 (ld64 (ram s) ep) s)) L \<and>
      covers (unat addr) L (unat stop) \<and> agrees (look 0 (ld64 m) (ld64 m ep)) L"
    if "area 0 addr stop" for addr stop ep
    using line_lists [OF that, of 4 "look 0 (ld64 m) (ld64 m ep)" "ld64 m ep"]
    by (intro exI [of _ "[(addr, stop, 4, ld64 m ep)]"]) (auto simp: leaf_def dumps_def)
qed (simp_all add: pte_end_spec walk_pte_loop.simps [of lit] Let_def split: sum.split)

context dump_env
begin

lemma leaf_entry_lists:
  assumes "area n addr stop" and "1 \<le> l" and "l \<le> 4" and "\<And>va. T va = leaf l v va"
    and "\<And>s. ram s = m \<Longrightarrow> W s = Some (print_pgtable lit the_levels addr stop l v s)"
  shows "\<exists>L. dumps m W L \<and> covers (unat addr) L (unat stop) \<and> agrees T L"
  using line_lists [OF assms(1-3), of T v] dumps_cong [of m W, OF assms(5)] assms(4) by blast

lemma table_entry_lists:
  assumes "\<exists>L. dumps m V L \<and> covers (unat addr) L (unat stop) \<and> agrees T' L"
    and "\<And>s. ram s = m \<Longrightarrow> W s = V s" and "\<And>va. inr addr stop va \<Longrightarrow> T va = T' va"
  shows "\<exists>L. dumps m W L \<and> covers (unat addr) L (unat stop) \<and> agrees T L"
proof -
  obtain L where "dumps m V L" "covers (unat addr) L (unat stop)" "agrees T' L"
    using assms(1) by blast
  then show ?thesis
    using dumps_cong [of m W V, OF assms(2)] agrees_cong [of T' L addr stop T] assms(3) by blast
qed

lemmas entry_simps = pmd_none_def pmd_sect_def pud_none_def pud_sect_def pgd_none_def yios_consts Let_def

lemma walk_pmd_entry_lists:
  assumes "area (Suc 0) addr stop" and "ent (Suc 0) (ld64 m) (ld64 m ep) F"
  shows "\<exists>L. dumps m (walk_pmd_entry lit the_levels ep addr stop) L \<and> covers (unat addr) L (unat stop) \<and>
    agrees (look (Suc 0) (ld64 m) (ld64 m ep)) L"
proof (cases "ld64 m ep AND 3 = 3")
  case False
  then have "ld64 m ep = 0 \<or> ld64 m ep AND 3 = 1"
    using assms(2) by (auto simp: ent_Suc)
  then show ?thesis
    by (intro leaf_entry_lists [OF assms(1), of 3 _ "ld64 m ep"])
      (auto simp: leaf_def walk_pmd_entry_def entry_simps)
next
  case True
  then have "tbl 0 (ld64 m) (paddr (ld64 m ep)) F"
    using assms(2) by (auto simp: ent_Suc)
  from pte.loop_lists [OF assms(1) this] True show ?thesis
    by (elim table_entry_lists) (auto simp: walk_pmd_entry_def walk_pte_def pte_index_slot ltab_def entry_simps)
qed

end

sublocale dump_env \<subseteq> pmd: walk_loop m "Suc 0" "walk_pmd_entry lit the_levels" "walk_pmd_loop lit the_levels" pmd_addr_end
proof
  show "unat (pmd_addr_end addr stop) = min ((unat addr div 2 ^ sh (Suc 0) + 1) * 2 ^ sh (Suc 0)) (unat stop)"
    if "area (Suc (Suc 0)) addr stop" for addr stop
    using boundary_end [OF that] by (simp add: pmd_addr_end_eq Let_def)
qed (rule walk_pmd_loop.simps, rule walk_pmd_entry_lists)


text \<open>The two upper levels, for a range inside one entry of theirs: their loops make one round.\<close>

lemma area_Suc: "area n addr stop \<Longrightarrow> area (Suc n) addr stop"
  by (simp add: req_def div_sh_Suc)

lemma one_block:
  assumes "area n addr stop" and "n \<le> 3"
  shows "(let b = (addr + 2 ^ sh n) AND NOT (mask (sh n)) in if b - 1 < stop - 1 then b else stop) = stop"
proof -
  define S :: nat where "S = 2 ^ sh n"
  have "unat stop - 1 < (unat addr div S + 1) * S"
    using assms(1) dividend_less_times_div [of S "unat stop - 1"] by (simp add: req_def S_def algebra_simps)
  then have "min ((unat addr div S + 1) * S) (unat stop) = unat stop"
    by simp
  then show ?thesis
    using boundary_end [OF area_Suc [OF assms(1)] assms(2)] unfolding Let_def S_def word_unat_eq_iff by simp
qed

lemma walk_pud_once:
  "pud_addr_end start stop = stop \<Longrightarrow> walk_pud_loop lit P ep start addr stop s = walk_pud_entry lit P ep addr stop s"
  by (subst walk_pud_loop.simps) (auto simp: Let_def split: bind_split sum.split)

lemma walk_pgd_once:
  "pgd_addr_end addr stop = stop \<Longrightarrow> walk_pgd_loop lit P ep addr stop s = walk_pgd_entry lit P ep addr stop s"
  by (subst walk_pgd_loop.simps) (auto simp: Let_def split: bind_split sum.split)

context dump_env
begin

lemma walk_pud_entry_lists:
  assumes "area (Suc (Suc 0)) addr stop" and "ent (Suc (Suc 0)) (ld64 m) (ld64 m ep) F"
  shows "\<exists>L. dumps m (walk_pud_entry lit the_levels ep addr stop) L \<and> covers (unat addr) L (unat stop) \<and>
    agrees (look (Suc (Suc 0)) (ld64 m) (ld64 m ep)) L"
proof (cases "ld64 m ep = 0")
  case True
  then show ?thesis
    by (intro leaf_entry_lists [OF assms(1), of 2 _ 0]) (auto simp: leaf_def walk_pud_entry_def entry_simps)
next
  case False
  then have e: "ld64 m ep AND 3 = 3" "tbl (Suc 0) (ld64 m) (paddr (ld64 m ep)) F"
    using assms(2) by (auto simp: ent_Suc)
  from pmd.loop_lists [OF assms(1) e(2)] False e(1) show ?thesis
    by (elim table_entry_lists) (auto simp: walk_pud_entry_def walk_pmd_def pmd_index_slot ltab_def entry_simps)
qed

lemma walk_pgd_entry_lists:
  assumes "area (Suc (Suc 0)) addr stop" and "ent 3 (ld64 m) (ld64 m ep) F"
  shows "\<exists>L. dumps m (walk_pgd_entry lit the_levels ep addr stop) L \<and> covers (unat addr) L (unat stop) \<and>
    agrees (look 3 (ld64 m) (ld64 m ep)) L"
proof (cases "ld64 m ep = 0")
  case True
  then show ?thesis
    by (intro leaf_entry_lists [OF assms(1), of 1 _ 0]) (auto simp: leaf_def walk_pgd_entry_def entry_simps)
next
  case False
  define ep2 where "ep2 = slot (paddr (ld64 m ep)) (idx (Suc (Suc 0)) addr)"
  have e: "ld64 m ep AND 3 = 3" "tbl (Suc (Suc 0)) (ld64 m) (paddr (ld64 m ep)) F"
    using assms(2) False by (auto simp: ent_Suc numeral_3_eq_3)
  obtain F' where "ent (Suc (Suc 0)) (ld64 m) (ld64 m ep2) F'"
    using e(2) unfolding ep2_def by (metis tblE idx_lt)
  from walk_pud_entry_lists [OF assms(1) this] show ?thesis
  proof (rule table_entry_lists)
    have one: "pud_addr_end addr stop = stop"
      using one_block [OF assms(1)] by (simp add: pud_addr_end_eq)
    show "walk_pgd_entry lit the_levels ep addr stop s = walk_pud_entry lit the_levels ep2 addr stop s"
      if "ram s = m" for s
      using that False one
      by (simp add: walk_pgd_entry_def walk_pud_def walk_pud_once pud_index_slot ep2_def numeral_2_eq_2 entry_simps)
    show "look 3 (ld64 m) (ld64 m ep) va = look (Suc (Suc 0)) (ld64 m) (ld64 m ep2) va" if "inr addr stop va" for va
      using e(1) same_block_idx [OF req_block [OF area_Suc [OF assms(1)] that]] req_block [OF assms(1) that]
      by (simp add: numeral_3_eq_3 ep2_def del: look.simps) (simp add: look.simps(2) [of "Suc (Suc 0)"])
  qed
qed

lemma walk_pgd_lists:
  assumes "area (Suc (Suc 0)) start (start + sz)" and "tbl 3 (ld64 m) p F"
  shows "\<exists>L. dumps m (walk_pgd lit the_levels p start sz) L \<and> covers (unat start) L (unat (start + sz)) \<and>
    agrees (ltab 3 (ld64 m) p) L"
proof -
  note a3 = area_Suc [OF assms(1), folded numeral_3_eq_3]
  define ep where "ep = slot p (idx 3 start)"
  obtain F' where "ent 3 (ld64 m) (ld64 m ep) F'"
    using assms(2) unfolding ep_def by (metis tblE idx_lt)
  from walk_pgd_entry_lists [OF assms(1) this] show ?thesis
  proof (rule table_entry_lists)
    have one: "pgd_addr_end start (start + sz) = start + sz"
      using one_block [OF a3] by (simp add: pgd_addr_end_eq numeral_3_eq_3)
    show "walk_pgd lit the_levels p start sz s = walk_pgd_entry lit the_levels ep start (start + sz) s" for s
      using one by (simp add: walk_pgd_def walk_pgd_once pgd_index_slot ep_def)
    show "ltab 3 (ld64 m) p va = look 3 (ld64 m) (ld64 m ep) va" if "inr start (start + sz) va" for va
      using same_block_idx [OF req_block [OF area_Suc [OF a3] that]] req_block [OF a3 that]
      by (simp add: ltab_def ep_def del: look.simps)
  qed
qed

end


section \<open>The dump as a whole\<close>

lemma dump_pgtable_run:
  assumes "lits_in dump_literals lit (ram s)" and "tx_ready s" and "tbl 3 (ld64 (ram s)) (idmap_pg_dir L) F"
  shows "\<exists>ls s'. dump_pgtable lit L (pg_levels, s) = (the_levels, Some (Inr s')) \<and>
    printed s s' (concat (map line_text ls)) \<and> covers 0 ls (unat TOTAL_MEMORY) \<and>
    agrees (translate (ram s) (idmap_pg_dir L)) ls"
proof -
  have "area (Suc (Suc 0)) 0 (0 + TOTAL_MEMORY)"
    by (rule areaI) (simp_all add: page_aligned_def sh_def yios_consts)
  from dump_env.walk_pgd_lists [OF dump_env.intro [OF assms(1)] this assms(3)] obtain ls where
    "dumps (ram s) (walk_pgd lit the_levels (idmap_pg_dir L) 0 TOTAL_MEMORY) ls"
    and "covers 0 ls (unat TOTAL_MEMORY)" and "agrees (translate (ram s) (idmap_pg_dir L)) ls"
    by (auto simp: translate_def [abs_def])
  moreover from this(1) assms(2) obtain s' where
    "walk_pgd lit the_levels (idmap_pg_dir L) 0 TOTAL_MEMORY s = Some (Inr s')" "printed s s' (concat (map line_text ls))"
    by (auto simp: dumps_def)
  ultimately show ?thesis
    by (intro exI [of _ ls] exI [of _ s']) (simp add: dump_pgtable_def Let_def)
qed

text \<open>
  C19: \<^verbatim>\<open>dump_pgtable\<close> describes the page tables. With well-formed tables below \<^verbatim>\<open>idmap_pg_dir\<close>, the
  literals in memory and a line that drains, it ends, leaves memory alone, and prints exactly a
  list of lines that run from 0 to the end of memory without a gap or an overlap; every address
  of a line translates exactly as the entry printed in that line says: to the page of a page
  descriptor or the 2 MB of a section descriptor with its attributes, or not at all. The line of an
  entry of value 0 has no text.
\<close>

theorem dump_pgtable_describes:
  assumes "lits_in dump_literals lit (ram s)" and "tx_ready s" and "tbl 3 (ld64 (ram s)) (idmap_pg_dir L) F"
  shows "\<exists>ls s'. dump_pgtable lit L (pg_levels, s) = (the_levels, Some (Inr s')) \<and>
    printed s s' (concat (map line_text ls)) \<and> covers 0 ls (unat TOTAL_MEMORY) \<and>
    (\<forall>(a, b, l, v) \<in> set ls. \<forall>va. unat a \<le> unat va \<and> unat va < unat b \<longrightarrow>
       translate (ram s) (idmap_pg_dir L) va = leaf l v va)"
  using dump_pgtable_run [OF assms] unfolding agrees_def .

text \<open>A memory with the literals and an empty page directory.\<close>

abbreviation dump_mem :: mem where
  "dump_mem \<equiv> lit_mem dump_literals"

interpretation dump: dump_env "lit_addr dump_literals" dump_mem
proof
  have "length dump_literals \<le> 100"
    by code_simp
  then show "lits_in dump_literals (lit_addr dump_literals) dump_mem"
    by (rule lit_mem_ok) (use dump_literals_short in blast)
qed

lemma dump_mem_zero: "0x90000 \<le> unat a \<Longrightarrow> dump_mem a = 0"
proof -
  have "length dump_literals \<le> 100"
    by code_simp
  then have "\<not> (unat a - 4096) div 64 < length dump_literals" if "0x90000 \<le> unat a"
    using div_le_mono [of "0x80000" "unat a - 4096" 64] that by simp
  then show "0x90000 \<le> unat a \<Longrightarrow> dump_mem a = 0"
    by (simp add: lit_mem_def Let_def)
qed

lemma dump_mem_directory: "tbl 3 (ld64 dump_mem) 0x90000 {0x90000}"
proof (rule tbl_empty(1))
  fix i :: nat
  assume i: "i < 512"
  have "dump_mem (slot 0x90000 i + of_nat j) = 0" if "j < 8" for j
  proof (rule dump_mem_zero)
    have u: "unat (slot 0x90000 i) = 0x90000 + 8 * i"
      using unat_slot [of "0x90000", OF _ i] by (simp add: page_aligned_def)
    have "unat (slot 0x90000 i + of_nat j) = 0x90000 + 8 * i + j"
      using u i that by (subst unat_add_no_wrap) (simp_all add: unat_of_nat_64)
    then show "0x90000 \<le> unat (slot 0x90000 i + of_nat j)" by simp
  qed
  then have "ld64 dump_mem (slot 0x90000 i) = ld64 (\<lambda>_. 0) (slot 0x90000 i)"
    by (intro ld_bytes_cong) simp
  then show "ld64 dump_mem (slot 0x90000 i) = 0" by simp
qed

theorem dump_pgtable_describes_witness:
  "\<exists>ls s'. dump_pgtable (lit_addr dump_literals) boot_layout (pg_levels, \<lparr>dev = idle_dev, trace = [], ram = dump_mem\<rparr>) =
      (the_levels, Some (Inr s')) \<and> covers 0 ls 0x20000000 \<and>
    uart_out (trace s') = concat (map crlf (concat (map line_text ls)))"
proof -
  have "tx_ready \<lparr>dev = idle_dev, trace = [], ram = dump_mem\<rparr>"
    by (rule idle_tx_ready) simp
  with dump_pgtable_describes [of "lit_addr dump_literals" "\<lparr>dev = idle_dev, trace = [], ram = dump_mem\<rparr>" boot_layout "{0x90000}"]
    dump.lits dump_mem_directory
  show ?thesis
    by (auto simp: boot_layout_def printed_def yios_consts)
qed

section \<open>Ranges too small for a unit\<close>

text \<open>
  C39: The loop of \<^verbatim>\<open>print_pgtable\<close> that scales the size of a range ends exactly for ranges of at least
  1024 bytes: for a smaller one the size in KB is 0, which it divides for ever.
\<close>

theorem size_scaling_terminates:
  "(\<exists>r. unit_loop (drop_bit 10 (stop - start)) k = Some r) \<longleftrightarrow> 1024 \<le> unat (stop - start)"
proof -
  have "drop_bit 10 (stop - start) \<noteq> 0 \<longleftrightarrow> 1024 \<le> unat (stop - start)"
    using unat_drop_bit [of 10 "stop - start"] by (auto simp: word_unat_eq_iff div_eq_0_iff)
  then show ?thesis
    using unit_loop_returns [of "drop_bit 10 (stop - start)" k] unit_loop_0 [of k] by fastforce
qed

section \<open>Ranges past one block\<close>

lemma walk_pud_loop_stuck:
  assumes "pud_addr_end start stop \<noteq> stop"
  shows "walk_pud_loop lit P ep start addr stop s \<noteq> Some (Inr s')"
proof
  let ?Q = "\<lambda>((((((lit :: string \<Rightarrow> u64, P :: pg_level list), ep :: u64), start), addr :: u64), stop), s :: machine)
    (r :: fault + machine). pud_addr_end start stop \<noteq> stop \<longrightarrow> r \<noteq> Inr s'"
  assume "walk_pud_loop lit P ep start addr stop s = Some (Inr s')"
  then have "?Q ((((((lit, P), ep), start), addr), stop), s) (Inr s')"
    by (rule walk_pud_loop.raw_induct [where Pa = ?Q, rotated])
      (auto simp: Let_def bind_eq_Some_conv split: sum.split_asm if_split_asm, metis sumE)
  with assms show False by simp
qed

text \<open>
  C40: \<^verbatim>\<open>walk_pud\<close> computes the end of each block from the start of the range and not from the current
  address. For a range that goes past the 1 GB block it starts in, it therefore never returns,
  whatever the tables hold.
\<close>

theorem walk_pud_never_returns:
  assumes "(unat start div 2 ^ 30 + 1) * 2 ^ 30 < unat stop" and "unat stop \<le> 2 ^ 48"
  shows "walk_pud lit P pgdp start stop s \<noteq> Some (Inr s')"
proof -
  define b where "b = (start + 2 ^ 30) AND NOT (mask 30)"
  have "unat start < 2 ^ 48"
    using assms dividend_less_times_div [of "2 ^ 30" "unat start"] by (simp add: algebra_simps)
  then have "unat (start + 2 ^ 30) = unat start + 2 ^ 30"
    by (subst unat_add_no_wrap) simp_all
  then have "unat b = (unat start div 2 ^ 30 + 1) * 2 ^ 30"
    unfolding b_def unat_and_not_mask_div by (simp add: div_add_self2)
  then have "b \<noteq> stop" and "b - 1 < stop - 1"
    using assms by (auto simp: word_less_nat_alt unat_sub_if')
  then have "pud_addr_end start stop \<noteq> stop"
    by (simp add: pud_addr_end_eq Let_def sh_def b_def)
  then show ?thesis
    unfolding walk_pud_def by (rule walk_pud_loop_stuck)
qed

theorem walk_pud_never_returns_witness:
  "\<nexists>s'. walk_pud (lit_addr dump_literals) the_levels 0x90000 0 0x80000000
      \<lparr>dev = idle_dev, trace = [], ram = dump_mem\<rparr> = Some (Inr s')"
  using walk_pud_never_returns [of 0 "0x80000000"] by auto

end
