(* ===== verification/Boot.thy ===== *)
theory Boot
  imports Irq_Spec Tasking Dump_Spec Traps
begin

text \<open>
  \<^verbatim>\<open>init/main.c\<close>: the boot sequence that puts the components together. \<open>kernel\<close> collects the state each
  of them keeps; a component that works on a part of memory gets that part and gives it back.
  Interrupts are taken between the kernel's steps (theory \<open>Tasking\<close>), not inside the sequence.

  The theorems of \<open>Boot_Spec\<close> compose those of the components: what state the kernel is in when it reaches
  its final loop, what the table dump would print there, and what the accesses of \<^verbatim>\<open>test_mmu\<close> do.
\<close>

section \<open>The image and the state\<close>

text \<open>The addresses of the linker script that \<^verbatim>\<open>main.c\<close> takes.\<close>

record image = layout +
  etext_boot :: u64
  text_start :: u64
  rodata :: u64
  erodata :: u64
  data_start :: u64
  edata :: u64
  bss :: u64
  ebss :: u64

record kernel =
  mach :: machine
  kmap :: mem_map
  kregs :: sysregs
  ksched :: kstate
  kgic :: gic_chip_data

abbreviation kmm :: "kernel \<Rightarrow> mmstate" where
  "kmm st \<equiv> \<lparr>pmem = ram (mach st), mmap = kmap st\<rparr>"

section \<open>The boot sequence\<close>

definition print_segment :: "image \<Rightarrow> machine \<Rightarrow> fault + machine" where
  "print_segment I s =
     ebind (say ''YiOS image layout:\<newline>'' [] s) (\<lambda>s.
     ebind (say ''  .text.boot: 0x%08lx - 0x%08lx (%6ld B)\<newline>'' [text_boot I, etext_boot I, etext_boot I - text_boot I] s) (\<lambda>s.
     ebind (say ''       .text: 0x%08lx - 0x%08lx (%6ld B)\<newline>'' [text_start I, etext I, etext I - text_start I] s) (\<lambda>s.
     ebind (say ''     .rodata: 0x%08lx - 0x%08lx (%6ld B)\<newline>'' [rodata I, erodata I, erodata I - rodata I] s) (\<lambda>s.
     ebind (say ''       .data: 0x%08lx - 0x%08lx (%6ld B)\<newline>'' [data_start I, edata I, edata I - data_start I] s) (\<lambda>s.
     say ''        .bss: 0x%08lx - 0x%08lx (%6ld B)\<newline>'' [bss I, ebss I, ebss I - bss I] s)))))"

definition timer_freq :: "machine \<Rightarrow> u64" where
  "timer_freq s = read_sysreg CNTFRQ_EL0 s"

text \<open>\<^verbatim>\<open>mem_init\<close> with the message it prints, and the messages a component gathered.\<close>

definition mem_init_say :: "u64 \<Rightarrow> u64 \<Rightarrow> machine \<Rightarrow> fault + machine" where
  "mem_init_say start stop s =
     ebind (of_opt Diverges (mem_init start stop)) (\<lambda>(kb, n).
     say ''Memory: %uKB available, %u free pages\<newline>'' [kb, n] s)"

fun say_all :: "klog \<Rightarrow> machine \<Rightarrow> fault + machine" where
  "say_all [] s = Inr s"
| "say_all ((fmt, arg) # l) s = ebind (say fmt arg s) (say_all l)"

definition paging_init_say :: "layout \<Rightarrow> kernel \<Rightarrow> fault + kernel" where
  "paging_init_say L st =
     ebind (of_opt Diverges (paging_init L (kmm st, kregs st, []))) (\<lambda>(mm, r, out).
     ebind (say_all out ((mach st)\<lparr>ram := pmem mm\<rparr>)) (\<lambda>s.
     Inr (st\<lparr>mach := s, kmap := mmap mm, kregs := r\<rparr>)))"

definition kernel_main :: "(string \<Rightarrow> u64) \<Rightarrow> kaddrs \<Rightarrow> image \<Rightarrow> kernel \<Rightarrow> fault + kernel outcome" where
  "kernel_main lit K I st =
     (let s = uart_init (mach st) in
      ebind (print_segment I s) (\<lambda>s.
      ebind (mem_init_say (ebss I) TOTAL_MEMORY s) (\<lambda>s.
      let st = st\<lparr>ksched := sched_init K (ksched st)\<rparr> in
      ebind (say ''freq: %llu\<newline>'' [timer_freq s] s) (\<lambda>s.
      ebind (gic_init (lit ''gic_init'') 0 GIC_V2_DISTRIBUTOR_BASE GIC_V2_CPU_INTERFACE_BASE (kgic st, s)) (\<lambda>(_, g, s).
      let s = timer_init g s;
          st = st\<lparr>mach := s, kgic := g, ksched := raw_local_irq_enable (ksched st)\<rparr> in
      ebind (paging_init_say (layout.truncate I) st) (\<lambda>st.
      Inr (Spins st)))))))"

section \<open>The MMU tests\<close>

text \<open>
  A store with the MMU on goes to the translated address; an address that is not mapped or only
  readable traps (\<^verbatim>\<open>do_bad_mode\<close>, which does not return), here a fault.
\<close>

definition mmu_store :: "u64 \<Rightarrow> u64 \<Rightarrow> kernel \<Rightarrow> fault + kernel" where
  "mmu_store a v st =
     (if sctlr_el1 (kregs st) AND SCTLR_ELx_M = 0
      then Inr (st\<lparr>mach := (mach st)\<lparr>ram := st64 (ram (mach st)) a v\<rparr>\<rparr>)
      else case translate (ram (mach st)) (ttbr0_el1 (kregs st)) a of
        None \<Rightarrow> Inl Bad_Pointer
      | Some (p, at) \<Rightarrow>
          if at AND PTE_RDONLY \<noteq> 0 then Inl Bad_Pointer
          else Inr (st\<lparr>mach := (mach st)\<lparr>ram := st64 (ram (mach st)) p v\<rparr>\<rparr>))"

definition test_access :: "u64 \<Rightarrow> u64 \<Rightarrow> kernel \<Rightarrow> fault + int \<times> kernel" where
  "test_access func address st =
     ebind (mmu_store address 0x55 st) (\<lambda>st.
     ebind (say ''%s access 0x%x done\<newline>'' [func, address] (mach st)) (\<lambda>s. Inr (0, st\<lparr>mach := s\<rparr>)))"

definition test_access_map_address :: "(string \<Rightarrow> u64) \<Rightarrow> kernel \<Rightarrow> fault + int \<times> kernel" where
  "test_access_map_address lit st = test_access (lit ''test_access_map_address'') (TOTAL_MEMORY - 4096) st"

definition test_access_unmap_address :: "(string \<Rightarrow> u64) \<Rightarrow> kernel \<Rightarrow> fault + int \<times> kernel" where
  "test_access_unmap_address lit st = test_access (lit ''test_access_unmap_address'') (TOTAL_MEMORY + 4096) st"

definition test_mmu :: "(string \<Rightarrow> u64) \<Rightarrow> kernel \<Rightarrow> fault + kernel" where
  "test_mmu lit st =
     ebind (test_access_map_address lit st) (\<lambda>(_, st).
     ebind (test_access_unmap_address lit st) (\<lambda>(_, st). Inr st))"

section \<open>The kernel threads\<close>

text \<open>\<^verbatim>\<open>delay\<close> has an \<^verbatim>\<open>int\<close> parameter (it is declared without a type).\<close>

function delay :: "int \<Rightarrow> fault + unit" where
  "delay n = ebind (int32 (n - 1)) (\<lambda>n'. if n \<noteq> 0 then delay n' else Inr ())"
  by pat_completeness auto
termination
  by (relation "measure (\<lambda>n. nat (n + 2 ^ 31))") (auto simp: int32_def split: if_splits)

declare delay.simps [simp del]

text \<open>
  The bodies of the endless loops, and \<open>n\<close> rounds of one. \<^verbatim>\<open>count\<close> is an \<^verbatim>\<open>unsigned long\<close> that the caller of
  \<^verbatim>\<open>printk\<close> increments.
\<close>

primrec rounds :: "nat \<Rightarrow> ('s \<Rightarrow> fault + 's) \<Rightarrow> 's \<Rightarrow> fault + 's" where
  "rounds 0 body s = Inr s"
| "rounds (Suc n) body s = ebind (rounds n body s) body"

definition kernel_thread_body :: "(string \<Rightarrow> u64) \<Rightarrow> machine \<Rightarrow> fault + machine" where
  "kernel_thread_body lit s =
     ebind (delay 10000000) (\<lambda>_. say ''%s: %s\<newline>'' [lit ''kernel_thread'', lit ''12345''] s)"

definition kernel_thread1_body :: "(string \<Rightarrow> u64) \<Rightarrow> u64 \<Rightarrow> u64 \<times> machine \<Rightarrow> fault + u64 \<times> machine" where
  "kernel_thread1_body lit arg = (\<lambda>(c, s).
     ebind (delay 80000) (\<lambda>_.
     ebind (say ''%s: %s count=%ld\<newline>'' [lit ''kernel_thread1'', arg, c] s) (\<lambda>s. Inr (c + 1, s))))"

definition kernel_thread2_body :: "(string \<Rightarrow> u64) \<Rightarrow> u64 \<Rightarrow> u64 \<times> machine \<Rightarrow> fault + u64 \<times> machine" where
  "kernel_thread2_body lit arg = (\<lambda>(c, s).
     ebind (delay 50000) (\<lambda>_.
     ebind (say ''%s: %s count=%d\<newline>'' [lit ''kernel_thread2'', arg, c] s) (\<lambda>s. Inr (c + 1, s))))"

definition kernel_thread :: "(string \<Rightarrow> u64) \<Rightarrow> nat \<Rightarrow> machine \<Rightarrow> fault + machine" where
  "kernel_thread lit n s = rounds n (kernel_thread_body lit) s"

definition kernel_thread1 :: "(string \<Rightarrow> u64) \<Rightarrow> u64 \<Rightarrow> nat \<Rightarrow> machine \<Rightarrow> fault + u64 \<times> machine" where
  "kernel_thread1 lit arg n s = rounds n (kernel_thread1_body lit arg) (0, s)"

definition kernel_thread2 :: "(string \<Rightarrow> u64) \<Rightarrow> u64 \<Rightarrow> nat \<Rightarrow> machine \<Rightarrow> fault + u64 \<times> machine" where
  "kernel_thread2 lit arg n s = rounds n (kernel_thread2_body lit arg) (0, s)"

end
