(* ===== verification/Start.thy ===== *)
theory Start
  imports Boot
begin

text \<open>
  The way from the reset of the processor to \<^verbatim>\<open>kernel_main\<close>: \<^verbatim>\<open>arch/arm64/core/start.S\<close> and the serial routines
  of \<^verbatim>\<open>arch/arm64/core/early_uart.S\<close> it calls, with the register values of \<^verbatim>\<open>asm/sysreg.h\<close>. The boot core is
  taken from its exception level to EL1, the \<^verbatim>\<open>.bss\<close> segment is cleared, and the C code starts on the
  first stack.

  A loop of the assembly is a \<^theory_text>\<open>partial_function\<close>: \<^const>\<open>None\<close> is a routine that never comes back.
\<close>

section \<open>Registers\<close>

definition HCR_RW :: u64 where [yios_consts]: "HCR_RW = push_bit 31 1"
definition HCR_HOST_NVHE_FLAGS :: u64 where [yios_consts]: "HCR_HOST_NVHE_FLAGS = HCR_RW"
definition SCTLR_EE_LITTLE_ENDIAN :: u64 where [yios_consts]: "SCTLR_EE_LITTLE_ENDIAN = push_bit 25 0"
definition SCTLR_EOE_LITTLE_ENDIAN :: u64 where [yios_consts]: "SCTLR_EOE_LITTLE_ENDIAN = push_bit 24 0"
definition SCTLR_MMU_DISABLED :: u64 where [yios_consts]: "SCTLR_MMU_DISABLED = push_bit 0 0"
definition SCTLR_VALUE_MMU_DISABLED :: u64 where [yios_consts]:
  "SCTLR_VALUE_MMU_DISABLED = SCTLR_MMU_DISABLED OR SCTLR_EE_LITTLE_ENDIAN OR SCTLR_EOE_LITTLE_ENDIAN"
definition SPSR_MASK_ALL :: u64 where [yios_consts]: "SPSR_MASK_ALL = push_bit 6 7"
definition SPSR_EL1h :: u64 where [yios_consts]: "SPSR_EL1h = push_bit 0 5"
definition SPSR_EL1 :: u64 where [yios_consts]: "SPSR_EL1 = SPSR_MASK_ALL OR SPSR_EL1h"
definition CurrentEL_EL1 :: u64 where [yios_consts]: "CurrentEL_EL1 = push_bit 2 1"
definition CurrentEL_EL2 :: u64 where [yios_consts]: "CurrentEL_EL2 = push_bit 2 2"
definition CurrentEL_EL3 :: u64 where [yios_consts]: "CurrentEL_EL3 = push_bit 2 3"

text \<open>
  The processor before there is a kernel, and the addresses the assembly takes of symbols that
  \<open>image\<close> does not have. \<^verbatim>\<open>boot_string\<close> follows \<^verbatim>\<open>el_string1\<close> and its NUL without padding.
\<close>

record boot_cpu =
  bmach :: machine
  mpidr_el1 :: u64
  current_el :: u64
  daif :: u64
  bregs :: sysregs
  hcr_el2 :: u64
  spsr_el2 :: u64
  elr_el2 :: u64
  elr_el3 :: u64
  vbar_el1 :: u64
  bsp_el0 :: u64
  bsp :: u64

record symbols =
  el_string1 :: u64
  el1_entry_at :: u64
  vectors_at :: u64
  mem_map_at :: u64

definition el_string1_text :: string where
  "el_string1_text = ''Booting at EL''"

definition boot_string_text :: string where
  "boot_string_text = ''- Switch to EL1 -''"

definition boot_string :: "symbols \<Rightarrow> u64" where
  "boot_string A = el_string1 A + of_nat (length el_string1_text + 1)"

text \<open>The relocations \<^verbatim>\<open>adrp x, sym\<close> and \<^verbatim>\<open>:lo12:sym\<close>.\<close>

definition adrp :: "u64 \<Rightarrow> u64" where
  "adrp a = a AND NOT 0xfff"

definition lo12 :: "u64 \<Rightarrow> u64" where
  "lo12 a = a AND 0xfff"

section \<open>The early serial line\<close>

definition init_uart :: "machine \<Rightarrow> machine" where
  "init_uart s =
     (let (w0, s) = readl GPFSEL1 s;
          w0 = w0 AND 0xffff8fff;
          w0 = w0 OR 0x4000;
          w0 = w0 AND 0xfffc7fff;
          w0 = w0 OR 0x20000;
          s = writel w0 GPFSEL1 s;
          s = writel 0 U_CR_REG s;
          s = writel 26 U_IBRD_REG s;
          s = writel 3 U_FBRD_REG s;
          s = writel 0x70 U_LCRH_REG s;
          s = writel 0 U_IMSC_REG s
      in writel 0x301 U_CR_REG s)"

definition put_uart :: "u32 \<Rightarrow> machine \<Rightarrow> machine option" where
  "put_uart w0 s = map_option (writel w0 U_DATA_REG) (poll_clear U_FR_REG 0x20 s)"

text \<open>The loop tests the character after it has sent it: the NUL goes out too.\<close>

partial_function (option) put_string_uart :: "u64 \<Rightarrow> machine \<Rightarrow> machine option" where
  "put_string_uart x4 s =
     (let w0 = ram s x4 in
      put_uart (ucast w0) s \<bind> (\<lambda>s. if w0 \<noteq> 0 then put_string_uart (x4 + 1) s else Some s))"

declare put_string_uart.simps [code]

section \<open>From reset to C\<close>

definition get_CurrentEL :: "symbols \<Rightarrow> boot_cpu \<Rightarrow> boot_cpu option" where
  "get_CurrentEL A b =
     put_string_uart (adrp (el_string1 A) + lo12 (el_string1 A)) (bmach b) \<bind> (\<lambda>s.
     put_uart (ucast (48 + drop_bit 2 (current_el b))) s \<bind> (\<lambda>s.
     map_option (\<lambda>s. b\<lparr>bmach := s\<rparr>) (put_uart 10 s)))"

text \<open>
  \<^verbatim>\<open>eret\<close> from EL2: the level and the interrupt masks come from \<^verbatim>\<open>spsr_el2\<close>, execution goes on at \<^verbatim>\<open>elr_el2\<close>.
\<close>

definition eret_el2 :: "boot_cpu \<Rightarrow> boot_cpu" where
  "eret_el2 b = b\<lparr>current_el := spsr_el2 b AND 0xc, daif := spsr_el2 b AND 0x3c0\<rparr>"

text \<open>
  Where the start code ends: in \<^verbatim>\<open>slave_hang\<close>, at an address some \<^verbatim>\<open>eret\<close> took it to, at an undefined
  instruction (\<^verbatim>\<open>hcr_el2\<close> does not exist below EL2) or in the loop of \<^verbatim>\<open>kernel_main\<close>.
\<close>

datatype started =
    Slave_hang boot_cpu
  | Eret_to u64 boot_cpu
  | Undefined_insn boot_cpu
  | In_kernel boot_cpu kernel

text \<open>
  The C view of the machine \<^verbatim>\<open>kernel_main\<close> starts on. Of the variables in \<^verbatim>\<open>.bss\<close> it reads \<^verbatim>\<open>mem_map\<close> before
  it writes it; \<open>junk\<close> stands for the others.
\<close>

definition kernel_of :: "symbols \<Rightarrow> kernel \<Rightarrow> boot_cpu \<Rightarrow> kernel" where
  "kernel_of A junk b = junk\<lparr>
     mach := bmach b,
     kmap := (\<lambda>i. ucast (ld_bytes 2 (ram (bmach b)) (mem_map_at A + of_nat (2 * i)))),
     kregs := bregs b,
     ksched := (ksched junk)\<lparr>sp_el0 := bsp_el0 b, irq_on := \<not> bit (daif b) 7\<rparr>\<rparr>"

definition el1_entry :: "(string \<Rightarrow> u64) \<Rightarrow> kaddrs \<Rightarrow> image \<Rightarrow> symbols \<Rightarrow> kernel \<Rightarrow> boot_cpu \<Rightarrow> fault + started" where
  "el1_entry lit K I A junk b =
     ebind (of_opt Diverges (put_string_uart (adrp (el_string1 A) + lo12 (boot_string A)) (bmach b))) (\<lambda>s.
     ebind (of_opt Diverges (put_uart 10 s)) (\<lambda>s.
     let b = b\<lparr>vbar_el1 := vectors_at A\<rparr>;
         s = s\<lparr>ram := memset (ram s) (bss I) 0 (ebss I - bss I)\<rparr>;
         b = b\<lparr>bmach := s, bsp_el0 := init_task K, bsp := LOW_MEMORY\<rparr> in
     ebind (kernel_main lit K I (kernel_of A junk b)) (\<lambda>r.
     Inr (case r of Spins st \<Rightarrow> In_kernel b st | Returns st \<Rightarrow> Slave_hang (b\<lparr>bmach := mach st\<rparr>)))))"

definition el2_entry :: "(string \<Rightarrow> u64) \<Rightarrow> kaddrs \<Rightarrow> image \<Rightarrow> symbols \<Rightarrow> kernel \<Rightarrow> boot_cpu \<Rightarrow> fault + started" where
  "el2_entry lit K I A junk b =
     ebind (of_opt Diverges (get_CurrentEL A b)) (\<lambda>b.
     if current_el b < CurrentEL_EL2 then Inr (Undefined_insn b) else
     let b = b\<lparr>hcr_el2 := HCR_HOST_NVHE_FLAGS\<rparr>;
         b = b\<lparr>bregs := (bregs b)\<lparr>sctlr_el1 := SCTLR_VALUE_MMU_DISABLED\<rparr>\<rparr>;
         b = b\<lparr>spsr_el2 := SPSR_EL1\<rparr>;
         b = b\<lparr>elr_el2 := el1_entry_at A\<rparr>;
         b = eret_el2 b in
     if elr_el2 b = el1_entry_at A then el1_entry lit K I A junk b else Inr (Eret_to (elr_el2 b) b))"

definition el3_entry :: "symbols \<Rightarrow> boot_cpu \<Rightarrow> fault + started" where
  "el3_entry A b = ebind (of_opt Diverges (get_CurrentEL A b)) (\<lambda>b. Inr (Eret_to (elr_el3 b) b))"

definition master :: "(string \<Rightarrow> u64) \<Rightarrow> kaddrs \<Rightarrow> image \<Rightarrow> symbols \<Rightarrow> kernel \<Rightarrow> boot_cpu \<Rightarrow> fault + started" where
  "master lit K I A junk b =
     (let b = b\<lparr>bmach := init_uart (bmach b)\<rparr> in
      if current_el b = CurrentEL_EL3 then el3_entry A b else el2_entry lit K I A junk b)"

definition start :: "(string \<Rightarrow> u64) \<Rightarrow> kaddrs \<Rightarrow> image \<Rightarrow> symbols \<Rightarrow> kernel \<Rightarrow> boot_cpu \<Rightarrow> fault + started" where
  "start lit K I A junk b =
     (let b = b\<lparr>daif := daif b OR push_bit 6 2\<rparr> in
      if mpidr_el1 b AND 0xFF = 0 then master lit K I A junk b else Inr (Slave_hang b))"

end
