(* ===== verification/Boot_Spec.thy ===== *)
theory Boot_Spec
  imports Boot
begin

text \<open>
  The boot sequence as a whole: its messages, the memory it leaves alone, and the state it ends in,
  put together from the lemmas of the components. \<open>boot_ready\<close> collects what is assumed of the image
  and the serial line; \<open>boot_kernel\<close> is a machine that meets it.
\<close>

section \<open>Messages\<close>

definition hex8l :: "u64 \<Rightarrow> string" where
  "hex8l n = number_text n 16 8 (- 1) (ZEROPAD OR SMALL)"

definition dec6 :: "u64 \<Rightarrow> string" where
  "dec6 n = number_text n 10 6 (- 1) SIGN"

definition seg_text :: "string \<Rightarrow> u64 \<Rightarrow> u64 \<Rightarrow> string" where
  "seg_text p a b = p @ '': 0x'' @ hex8l a @ '' - 0x'' @ hex8l b @ '' ('' @ dec6 (b - a) @ '' B)\<newline>''"

definition segment_text :: "image \<Rightarrow> string" where
  "segment_text I = ''YiOS image layout:\<newline>'' @
     seg_text ''  .text.boot'' (text_boot I) (etext_boot I) @
     seg_text ''       .text'' (text_start I) (etext I) @
     seg_text ''     .rodata'' (rodata I) (erodata I) @
     seg_text ''       .data'' (data_start I) (edata I) @
     seg_text ''        .bss'' (bss I) (ebss I)"

definition mem_text :: "nat \<Rightarrow> string" where
  "mem_text n = ''Memory: '' @ dec (ucast (of_nat (4 * n) :: u32)) @ ''KB available, '' @ dec (ucast (of_nat n :: u32)) @ '' free pages\<newline>''"

definition freq_text :: "u64 \<Rightarrow> string" where
  "freq_text f = ''freq: '' @ dec f @ ''\<newline>''"

lemma boot_numbers_short: "length (hex8l a) \<le> 68" "length (dec6 b) \<le> 68"
  unfolding hex8l_def dec6_def by (rule number_text_short; simp)+

lemma prints_seg:
  assumes "fmt = p @ '': 0x%08lx - 0x%08lx (%6ld B)\<newline>''" and "plain p" and "length p \<le> 60"
  shows "prints m (\<lambda>s. say fmt [a, b, b - a] s) (seg_text p a b)"
proof (rule prints_say)
  show "myprintf 1024 fmt [a, b, b - a] m = Inr (seg_text p a b, m)"
    by (simp only: assms(1) myprintf_def myprintf_from_plain [OF assms(2)])
      (simp add: emit_def conv_rules seg_text_def hex8l_def dec6_def)
  show "length (seg_text p a b) < 1024"
    using boot_numbers_short(1) [of a] boot_numbers_short(1) [of b] boot_numbers_short(2) [of "b - a"] assms(3)
    unfolding seg_text_def length_append by simp
qed

lemma prints_segment: "prints m (print_segment I) (segment_text I)"
proof -
  have "prints m (\<lambda>s. say ''YiOS image layout:\<newline>'' [] s) ''YiOS image layout:\<newline>''"
    by (rule prints_say) (simp_all add: myprintf_def conv_rules)
  then show ?thesis
    unfolding print_segment_def [abs_def] segment_text_def by (intro prints_bind prints_seg) (simp_all add: plain_def NUL_def)
qed

lemma prints_mem_init:
  assumes "unat start + 4095 < 2 ^ 64" and "PAGE_BALIGN start \<le> stop AND PAGE_MASK"
  shows "prints m (mem_init_say start stop) (mem_text (unat stop div 4096 - (unat start + 4095) div 4096))"
proof -
  define n where "n = unat stop div 4096 - (unat start + 4095) div 4096"
  have u: "(ucast (of_nat k :: u64) :: u32) = of_nat k" for k
    by (rule bit_eqI) (auto simp: bit_simps)
  have "prints m (\<lambda>s. say ''Memory: %uKB available, %u free pages\<newline>'' [of_nat (4 * n), of_nat n] s) (mem_text n)"
  proof (rule prints_say)
    show "myprintf 1024 ''Memory: %uKB available, %u free pages\<newline>'' [of_nat (4 * n), of_nat n] m = Inr (mem_text n, m)"
      by (simp add: myprintf_def conv_rules mem_text_def u del: of_nat_mult)
    show "length (mem_text n) < 1024"
      using dec_short [of "ucast (of_nat (4 * n) :: u32)"] dec_short [of "ucast (of_nat n :: u32)"]
      unfolding mem_text_def length_append by simp
  qed
  moreover have "mem_init_say start stop =
      (\<lambda>s. say ''Memory: %uKB available, %u free pages\<newline>'' [of_nat (4 * n), of_nat n] s)"
    using mem_init_run [OF assms] by (simp add: fun_eq_iff mem_init_say_def n_def of_opt_def Let_def)
  ultimately show ?thesis
    by (simp add: n_def)
qed

lemma prints_freq: "prints m (\<lambda>s. say ''freq: %llu\<newline>'' [f] s) (freq_text f)"
proof (rule prints_say)
  show "myprintf 1024 ''freq: %llu\<newline>'' [f] m = Inr (freq_text f, m)"
    by (simp add: myprintf_def conv_rules freq_text_def)
  show "length (freq_text f) < 1024"
    using dec_short [of f] unfolding freq_text_def length_append by simp
qed

section \<open>Bytes outside the tables\<close>

lemma ld64_bytes:
  assumes "ld64 m b = ld64 m' b" and "i < 8"
  shows "m (b + of_nat i) = m' (b + of_nat i)"
proof (rule bit_word_eqI)
  fix n
  assume "n < LENGTH(8)"
  then have "n < 8" by simp
  then show "bit (m (b + of_nat i)) n = bit (m' (b + of_nat i)) n"
    using arg_cong [OF assms(1), of "\<lambda>w. bit w (8 * i + n)"] assms(2) by (simp add: bit_ld_bytes)
qed

lemma byte_frame:
  assumes "\<And>b. aligned8 b \<Longrightarrow> pg b \<notin> A \<Longrightarrow> ld64 m' b = ld64 m b" and "pg a \<notin> A"
  shows "m' a = m a"
proof -
  define b where "b = a AND NOT (mask 3)"
  have ub: "unat b = 8 * (unat a div 8)"
    unfolding b_def unat_and_not_mask_div by simp
  have "unat (pg b) = unat (pg a)"
    unfolding unat_pg ub by simp
  then have "pg b \<notin> A"
    using assms(2) by (simp only: word_unat_eq_iff [symmetric] simp_thms)
  then have "ld64 m' b = ld64 m b"
    using ub by (intro assms(1)) (simp_all add: aligned8_def)
  moreover have "a = b + of_nat (unat a mod 8)"
  proof -
    have "unat a = unat b + unat a mod 8"
      unfolding ub by simp
    then have "of_nat (unat a) = of_nat (unat b) + (of_nat (unat a mod 8) :: u64)"
      by (metis of_nat_add)
    then show ?thesis
      by (simp add: of_nat_unat_64)
  qed
  ultimately show ?thesis
    using ld64_bytes [of m' b m "unat a mod 8"] by simp
qed

text \<open>The bytes of the literals lie outside a set of pages.\<close>

definition lits_outside :: "string list \<Rightarrow> (string \<Rightarrow> u64) \<Rightarrow> u64 set \<Rightarrow> bool" where
  "lits_outside ls lit A \<longleftrightarrow> (\<forall>t \<in> set ls. \<forall>i \<le> length t. pg (lit t + of_nat i) \<notin> A)"

lemma lits_in_frame:
  assumes "lits_in ls lit m" and "lits_outside ls lit A" and "\<And>a. pg a \<notin> A \<Longrightarrow> m' a = m a"
  shows "lits_in ls lit m'"
  unfolding lits_in_def
proof
  fix t
  assume t: "t \<in> set ls"
  then have "m' (lit t + of_nat i) = m (lit t + of_nat i)" if "i \<le> length t" for i
    using assms(2) that by (intro assms(3)) (simp add: lits_outside_def)
  then show "lit t \<noteq> 0 \<and> c_str m' (lit t) t"
    using lits_inD [OF assms(1) t] by (simp add: c_str_def)
qed

section \<open>The run of the boot sequence\<close>

abbreviation image_layout :: "image \<Rightarrow> layout" where
  "image_layout I \<equiv> layout.truncate I"

lemma image_layout_simps [simp]:
  "idmap_pg_dir (image_layout I) = idmap_pg_dir I" "text_boot (image_layout I) = text_boot I" "etext (image_layout I) = etext I"
  by (simp_all add: layout.truncate_def)

abbreviation image_literals :: "string list" where
  "image_literals \<equiv> [''gic_init'', ''test_access_map_address'', ''test_access_unmap_address''] @ dump_literals"

text \<open>
  What holds before \<^verbatim>\<open>kernel_main\<close>: the serial line drains, the image is laid out as \<open>boot_ok\<close> says and ends
  below the end of memory, and its literals are in memory, outside the pages that become tables.
\<close>

definition boot_ready :: "(string \<Rightarrow> u64) \<Rightarrow> image \<Rightarrow> kernel \<Rightarrow> bool" where
  "boot_ready lit I st \<longleftrightarrow>
     tx_ready (mach st) \<and> boot_ok (image_layout I) (kmm st) \<and>
     PAGE_BALIGN (ebss I) \<le> TOTAL_MEMORY \<and> unat (ebss I) + 4095 < 2 ^ 64 \<and>
     lits_in image_literals lit (ram (mach st)) \<and>
     lits_outside image_literals lit (insert (idmap_pg_dir I) (mm_free (kmm st)))"

definition free_after_image :: "image \<Rightarrow> nat" where
  "free_after_image I = unat TOTAL_MEMORY div 4096 - (unat (ebss I) + 4095) div 4096"

lemma uart_init_frame: "dev (uart_init s) = dev s" "ram (uart_init s) = ram s" "uart_out (trace (uart_init s)) = uart_out (trace s)"
  by (simp_all add: uart_init_def readl_def Let_def yios_consts)

lemma printed_trans: "printed s s1 t1 \<Longrightarrow> printed s1 s2 t2 \<Longrightarrow> printed s s2 (t1 @ t2)"
  by (simp add: printed_def)

lemma paging_init_say_spec:
  assumes "tx_ready (mach st)" and "boot_ok L (kmm st)"
  obtains st' where "paging_init_say L st = Inr st'"
    and "printed ((mach st)\<lparr>ram := ram (mach st')\<rparr>) (mach st') ''enable mmu done\<newline>''"
    and "ksched st' = ksched st" and "kgic st' = kgic st" and "kregs st' = snd (enable_mmu L (cpu_init (kregs st)))"
    and "\<And>va. unat va < 2 ^ 48 \<Longrightarrow> translate (ram (mach st')) (idmap_pg_dir L) va = kernel_space L va"
    and "\<exists>F. tbl 3 (ld64 (ram (mach st'))) (idmap_pg_dir L) F \<and> F \<inter> mm_free (kmm st') = {} \<and>
      F \<subseteq> insert (idmap_pg_dir L) (mm_free (kmm st))"
    and "\<And>a. pg a \<notin> insert (idmap_pg_dir L) (mm_free (kmm st)) \<Longrightarrow> ram (mach st') a = ram (mach st) a"
    and "mm_free (kmm st') \<subseteq> mm_free (kmm st)" and "card (mm_free (kmm st)) \<le> card (mm_free (kmm st')) + 534"
proof (rule paging_init_spec [OF assms(2), of "kregs st" "[]"], goal_cases)
  case (1 mm)
  define s where "s = (mach st)\<lparr>ram := pmem mm\<rparr>"
  have "prints (pmem mm) (\<lambda>s. say ''enable mmu done\<newline>'' [] s) ''enable mmu done\<newline>''"
    by (rule prints_say) (simp_all add: myprintf_def conv_rules)
  moreover have "tx_ready s"
    by (rule iffD1 [OF tx_ready_dev assms(1)]) (simp add: s_def)
  ultimately obtain s' where s': "say ''enable mmu done\<newline>'' [] s = Inr s'" "printed s s' ''enable mmu done\<newline>''"
    by (rule printsE) (simp add: s_def)
  then have r: "ram s' = pmem mm"
    by (simp add: printed_def s_def)
  have fr: "ram s' a = ram (mach st) a" if "pg a \<notin> insert (idmap_pg_dir L) (mm_free (kmm st))" for a
    unfolding r by (rule byte_frame [OF _ that]) (use 1(6) in simp)
  show thesis
  proof (rule that)
    show "paging_init_say L st = Inr (st\<lparr>mach := s', kmap := mmap mm, kregs := snd (enable_mmu L (cpu_init (kregs st)))\<rparr>)"
      using 1(2) s'(1) by (simp add: paging_init_say_def of_opt_def s_def)
  qed (use 1(3,4,5,7) s' r fr in \<open>auto simp: s_def pgtables_def view_def [abs_def] mm_free_def\<close>)
qed


lemma kernel_main_run:
  assumes "boot_ready lit I st"
  obtains st' f t where "kernel_main lit K I st = Inr (Spins st')"
    and "uart_out (trace (mach st')) = uart_out (trace (mach st)) @
      concat (map crlf (segment_text I @ mem_text (free_after_image I) @ freq_text f)) @ t @ concat (map crlf ''enable mmu done\<newline>'')"
    and "tx_ready (mach st')"
    and "\<And>j init. j < unat (gic_irqs (kgic st')) \<Longrightarrow>
      gic_enabled GIC_V2_DISTRIBUTOR_BASE init (trace (mach st')) j = (j < 16 \<or> j = 30)"
    and "32 \<le> unat (gic_irqs (kgic st'))"
    and "ksched st' = raw_local_irq_enable (sched_init K (ksched st))"
    and "kregs st' = snd (enable_mmu (image_layout I) (cpu_init (kregs st)))"
    and "\<And>va. unat va < 2 ^ 48 \<Longrightarrow> translate (ram (mach st')) (idmap_pg_dir I) va = kernel_space (image_layout I) va"
    and "\<exists>F. tbl 3 (ld64 (ram (mach st'))) (idmap_pg_dir I) F \<and> F \<inter> mm_free (kmm st') = {} \<and>
      F \<subseteq> insert (idmap_pg_dir I) (mm_free (kmm st))"
    and "\<And>a. pg a \<notin> insert (idmap_pg_dir I) (mm_free (kmm st)) \<Longrightarrow> ram (mach st') a = ram (mach st) a"
    and "mm_free (kmm st') \<subseteq> mm_free (kmm st)" and "card (mm_free (kmm st)) \<le> card (mm_free (kmm st')) + 534"
    and "raw_cpu_base (kgic st') = GIC_V2_CPU_INTERFACE_BASE" and "unat (gic_irqs (kgic st')) \<le> 1020"
proof -
  define m where "m = ram (mach st)"
  have b: "tx_ready (mach st)" "boot_ok (image_layout I) (kmm st)" "PAGE_BALIGN (ebss I) \<le> TOTAL_MEMORY"
    "unat (ebss I) + 4095 < 2 ^ 64" and lits: "lits_in image_literals lit m"
    using assms by (auto simp: boot_ready_def m_def)
  define s0 where "s0 = uart_init (mach st)"
  have s0: "tx_ready s0" "ram s0 = m"
    using b(1) tx_ready_dev [of s0 "mach st"] by (simp_all add: s0_def uart_init_frame m_def)
  from printsE [OF prints_segment s0] obtain s1 where
    s1: "print_segment I s0 = Inr s1" "printed s0 s1 (segment_text I)" .
  then have t1: "tx_ready s1" "ram s1 = m"
    using s0 by (simp_all add: printed_def)
  have "TOTAL_MEMORY AND PAGE_MASK = TOTAL_MEMORY"
    by (simp add: yios_consts PAGE_MASK_def PAGE_SIZE_def)
  with b(3) have "PAGE_BALIGN (ebss I) \<le> TOTAL_MEMORY AND PAGE_MASK"
    by simp
  from printsE [OF prints_mem_init [OF b(4) this, folded free_after_image_def] t1] obtain s2 where
    s2: "mem_init_say (ebss I) TOTAL_MEMORY s1 = Inr s2" "printed s1 s2 (mem_text (free_after_image I))" .
  then have t2: "tx_ready s2" "ram s2 = m"
    using t1 by (simp_all add: printed_def)
  define f where "f = timer_freq s2"
  from printsE [OF prints_freq t2] obtain s3 where
    s3: "say ''freq: %llu\<newline>'' [f] s2 = Inr s3" "printed s2 s3 (freq_text f)" .
  then have t3: "tx_ready s3" "ram s3 = m"
    using t2 by (simp_all add: printed_def)
  note p03 = printed_trans [OF s1(2) printed_trans [OF s2(2) s3(2)]]
  have gl: "lit ''gic_init'' \<noteq> 0" "c_str (ram s3) (lit ''gic_init'') ''gic_init''"
    using lits_inD [OF lits, of "''gic_init''"] t3 by simp_all
  obtain g s4 t where
    g: "gic_init (lit ''gic_init'') 0 GIC_V2_DISTRIBUTOR_BASE GIC_V2_CPU_INTERFACE_BASE (kgic st, s3) = Inr (0, g, s4)"
    and cb: "raw_cpu_base g = GIC_V2_CPU_INTERFACE_BASE"
    and s5: "ram (timer_init g s4) = m" "dev (timer_init g s4) = dev s3"
      "uart_out (trace (timer_init g s4)) = uart_out (trace s3) @ t" "32 \<le> unat (gic_irqs g)" "unat (gic_irqs g) \<le> 1020"
    and en: "\<And>j init. j < unat (gic_irqs g) \<Longrightarrow>
      gic_enabled GIC_V2_DISTRIBUTOR_BASE init (trace (timer_init g s4)) j = (j < 16 \<or> j = 30)"
    using irq_setup_spec [OF t3(1) gl(2,1), of "kgic st"] t3(2) by auto
  define st1 where "st1 = st\<lparr>mach := timer_init g s4, kgic := g, ksched := raw_local_irq_enable (sched_init K (ksched st))\<rparr>"
  have k1: "kmm st1 = kmm st"
    using s5(1) by (simp add: st1_def m_def)
  have "tx_ready (mach st1)"
    using t3(1) tx_ready_dev [OF s5(2)] by (simp add: st1_def)
  then obtain st' where run: "paging_init_say (image_layout I) st1 = Inr st'"
    and st': "printed ((mach st1)\<lparr>ram := ram (mach st')\<rparr>) (mach st') ''enable mmu done\<newline>''"
      "ksched st' = ksched st1" "kgic st' = kgic st1" "kregs st' = snd (enable_mmu (image_layout I) (cpu_init (kregs st1)))"
    and tr: "\<And>va. unat va < 2 ^ 48 \<Longrightarrow> translate (ram (mach st')) (idmap_pg_dir I) va = kernel_space (image_layout I) va"
    and tb: "\<exists>F. tbl 3 (ld64 (ram (mach st'))) (idmap_pg_dir I) F \<and> F \<inter> mm_free (kmm st') = {} \<and>
      F \<subseteq> insert (idmap_pg_dir I) (mm_free (kmm st))"
    and sub: "mm_free (kmm st') \<subseteq> mm_free (kmm st)" and cd: "card (mm_free (kmm st)) \<le> card (mm_free (kmm st')) + 534"
    and fr: "\<And>a. pg a \<notin> insert (idmap_pg_dir I) (mm_free (kmm st)) \<Longrightarrow> ram (mach st') a = ram (mach st) a"
  proof (rule paging_init_say_spec [of st1 "image_layout I"], goal_cases)
    case (2 st')
    then show ?case
      using k1 s5(1) by (intro that [of st']) (simp_all add: m_def st1_def)
  qed (use b(2) k1 in simp_all)
  have "kernel_main lit K I st = Inr (Spins st')"
    using s1(1) s2(1) s3(1) g run
    by (simp add: kernel_main_def s0_def f_def st1_def Let_def)
  then show thesis
  proof (rule that [of st' f t, OF _ _ _ _ _ _ _ tr tb fr sub cd])
    show "gic_enabled GIC_V2_DISTRIBUTOR_BASE init (trace (mach st')) j = (j < 16 \<or> j = 30)"
      if "j < unat (gic_irqs (kgic st'))" for j init
      using that en [of j init] st'(1,3) s5(5) enabled_bus [of j init "trace (mach st')"]
        enabled_bus [of j init "trace (timer_init g s4)"]
      by (simp add: printed_def st1_def)
  qed (use st' s5 p03 cb in \<open>simp_all add: printed_def st1_def s0_def uart_init_frame\<close>)
qed


lemma boot_literals:
  assumes "boot_ready lit I st" and "\<And>a. pg a \<notin> insert (idmap_pg_dir I) (mm_free (kmm st)) \<Longrightarrow> m a = ram (mach st) a"
  shows "lits_in image_literals lit m"
proof (rule lits_in_frame [OF _ _ assms(2)])
  show "lits_in image_literals lit (ram (mach st))"
    and "lits_outside image_literals lit (insert (idmap_pg_dir I) (mm_free (kmm st)))"
    using assms(1) by (simp_all only: boot_ready_def)
qed

section \<open>Properties of the booted kernel\<close>


text \<open>
  C20: What \<^verbatim>\<open>dump_pgtable\<close> (its call at the end of \<^verbatim>\<open>kernel_main\<close> is commented out) prints on the booted
  kernel: it ends and prints lines that run from 0 to the end of memory, each of which describes
  its addresses exactly as the kernel's address space has them; the line of an unmapped entry has no
  text.
\<close>

theorem booted_kernel_dump:
  assumes "boot_ready lit I st"
  shows "\<exists>st' ls s'. kernel_main lit K I st = Inr (Spins st') \<and>
    dump_pgtable lit (image_layout I) (pg_levels, mach st') = (the_levels, Some (Inr s')) \<and>
    printed (mach st') s' (concat (map line_text ls)) \<and> covers 0 ls (unat TOTAL_MEMORY) \<and>
    (\<forall>(a, b, l, v) \<in> set ls. \<forall>va. unat a \<le> unat va \<and> unat va < unat b \<longrightarrow> kernel_space (image_layout I) va = leaf l v va)"
proof (rule kernel_main_run [OF assms, of K], goal_cases)
  case (1 st' f t)
  have "lits_in image_literals lit (ram (mach st'))"
    by (rule boot_literals [OF assms 1(10)])
  then have lits: "lits_in dump_literals lit (ram (mach st'))"
    by (simp add: lits_in_def)
  from 1(9) obtain F where "tbl 3 (ld64 (ram (mach st'))) (idmap_pg_dir (image_layout I)) F"
    by auto
  from dump_pgtable_run [OF lits 1(3) this] obtain ls s' where
    d: "dump_pgtable lit (image_layout I) (pg_levels, mach st') = (the_levels, Some (Inr s'))"
      "printed (mach st') s' (concat (map line_text ls))" "covers 0 ls (unat TOTAL_MEMORY)"
    and a: "agrees (translate (ram (mach st')) (idmap_pg_dir I)) ls"
    by auto
  have "agrees (kernel_space (image_layout I)) ls"
    by (rule agrees_cong [OF a, of 0 TOTAL_MEMORY]) (use d(3) 1(8) in \<open>auto simp: inr_def yios_consts\<close>)
  then show ?case
    using 1(1) d unfolding agrees_def by blast
qed


lemma attrs_writable: "attrs PAGE_KERNEL AND PTE_RDONLY = 0"
  by (simp add: attrs_def yios_consts PTE_ADDR_MASK_def PTE_ATTRINDX_def)

lemma test_page:
  assumes "boot_ok L s"
  shows "kernel_space L (TOTAL_MEMORY - 4096) = Some (TOTAL_MEMORY - 4096, attrs PAGE_KERNEL)"
    and "kernel_space L (TOTAL_MEMORY + 4096) = None"
proof -
  have e: "PAGE_BALIGN (etext L) < TOTAL_MEMORY" "etext L < TOTAL_MEMORY"
    using assms by (auto simp: boot_ok_def)
  have "unat (etext L) < 0x20000000"
    using e(2) by (simp add: word_less_nat_alt yios_consts)
  then have "unat (PAGE_BALIGN (etext L)) = 4096 * ((unat (etext L) + 4095) div 4096)"
    by (subst unat_PAGE_BALIGN) simp_all
  moreover have "unat (PAGE_BALIGN (etext L)) < 0x20000000"
    using e(1) by (simp add: word_less_nat_alt yios_consts)
  ultimately have "unat (PAGE_BALIGN (etext L)) \<le> 0x1ffff000"
    by simp
  then have le: "PAGE_BALIGN (etext L) \<le> 0x1ffff000"
    by (simp add: word_le_nat_alt)
  then show "kernel_space L (TOTAL_MEMORY - 4096) = Some (TOTAL_MEMORY - 4096, attrs PAGE_KERNEL)"
    by (simp add: kernel_space_def TOTAL_MEMORY_def leD)
  have "PAGE_BALIGN (etext L) \<le> 0x20001000"
    using le by (rule order_trans) simp
  then show "kernel_space L (TOTAL_MEMORY + 4096) = None"
    by (simp add: kernel_space_def TOTAL_MEMORY_def PBASE_def leD)
qed

lemma test_page_frame:
  assumes "pg b \<notin> {TOTAL_MEMORY - 4096}"
  shows "st64 m (TOTAL_MEMORY - 4096) v b = m b"
proof (rule byte_frame [OF _ assms])
  fix c
  assume "aligned8 c" "pg c \<notin> {TOTAL_MEMORY - 4096}"
  then have "c \<noteq> TOTAL_MEMORY - 4096"
    by (auto simp: pg_def yios_consts PAGE_MASK_def PAGE_SIZE_def)
  then show "ld64 (st64 m (TOTAL_MEMORY - 4096) v) c = ld64 m c"
    using \<open>aligned8 c\<close> dw.ld_st [of "TOTAL_MEMORY - 4096" c] by (simp add: aligned8_def yios_consts)
qed

lemma hex_test_page: "number_text 0x1ffff000 16 (- 1) (- 1) SMALL = ''1ffff000''"
  by (simp add: number_text_def digits_text_def digs.simps [of 16] magnitude_def sign_text_def prefix_text_def
      digit_chars_def lower_digits_def set_flag_def flag_defs)

text \<open>
  C25: The accesses of \<^verbatim>\<open>test_mmu\<close> on the booted kernel, on a core with 4 KB granules: the store to the last
  page of memory goes through, is there afterwards and is reported; the store behind the end of
  memory traps.
\<close>

theorem mmu_tests_outcome:
  assumes "boot_ready lit I st" and "drop_bit 28 (id_aa64mmfr0_el1 (kregs st)) AND 0xf = 0"
    and "lits_outside image_literals lit {TOTAL_MEMORY - 4096}"
  shows "\<exists>st' st2. kernel_main lit K I st = Inr (Spins st') \<and>
    test_access_map_address lit st' = Inr (0, st2) \<and> ld64 (ram (mach st2)) (TOTAL_MEMORY - 4096) = 0x55 \<and>
    uart_out (trace (mach st2)) = uart_out (trace (mach st')) @
      concat (map crlf ''test_access_map_address access 0x1ffff000 done\<newline>'') \<and>
    test_access_unmap_address lit st' = Inl Bad_Pointer"
proof (rule kernel_main_run [OF assms(1), of K], goal_cases)
  case (1 st' f t)
  define a where "a = TOTAL_MEMORY - 4096"
  have bo: "boot_ok (image_layout I) (kmm st)"
    using assms(1) by (simp add: boot_ready_def)
  have r: "ttbr0_el1 (kregs st') = idmap_pg_dir I" "sctlr_el1 (kregs st') AND SCTLR_ELx_M \<noteq> 0"
    using assms(2) 1(7)
    by (simp_all add: enable_mmu_def cpu_init_def Let_def ID_AA64MMFR0_TGRAN4_SHIFT_def ID_AA64MMFR0_TGRAN4_SUPPORTED_def SCTLR_ELx_M_def)
  have tr: "translate (ram (mach st')) (idmap_pg_dir I) a = Some (a, attrs PAGE_KERNEL)"
    "translate (ram (mach st')) (idmap_pg_dir I) (TOTAL_MEMORY + 4096) = None"
    using 1(8) [of a] 1(8) [of "TOTAL_MEMORY + 4096"] test_page [OF bo] by (simp_all add: a_def yios_consts)
  define m where "m = st64 (ram (mach st')) a 0x55"
  define s1 where "s1 = (mach st')\<lparr>ram := m\<rparr>"
  have ms: "mmu_store a 0x55 st' = Inr (st'\<lparr>mach := s1\<rparr>)"
    using r tr(1) attrs_writable by (simp add: mmu_store_def s1_def m_def)
  have "m b = ram (mach st') b" if "pg b \<notin> {a}" for b
    unfolding m_def a_def by (rule test_page_frame) (use that in \<open>simp add: a_def\<close>)
  from lits_in_frame [OF boot_literals [OF assms(1) 1(10)] assms(3) [folded a_def] this]
  have fn: "lit ''test_access_map_address'' \<noteq> 0" "c_str m (lit ''test_access_map_address'') ''test_access_map_address''"
    by (simp_all add: lits_in_def)
  have hx: "number_text (ucast (ucast a :: u32)) 16 (- 1) (- 1) SMALL = ''1ffff000''"
    using hex_test_page by (simp add: a_def TOTAL_MEMORY_def)
  have "prints m (\<lambda>s. say ''%s access 0x%x done\<newline>'' [lit ''test_access_map_address'', a] s)
      ''test_access_map_address access 0x1ffff000 done\<newline>''"
    by (rule prints_say) (use fn hx in \<open>simp_all add: myprintf_def conv_rules\<close>)
  moreover have "tx_ready s1"
    by (rule iffD1 [OF tx_ready_dev 1(3)]) (simp add: s1_def)
  ultimately obtain s2 where s2: "say ''%s access 0x%x done\<newline>'' [lit ''test_access_map_address'', a] s1 = Inr s2"
    "printed s1 s2 ''test_access_map_address access 0x1ffff000 done\<newline>''"
    by (rule printsE) (simp add: s1_def)
  have "test_access_map_address lit st' = Inr (0, st'\<lparr>mach := s2\<rparr>)"
    using ms s2(1) by (simp add: test_access_map_address_def test_access_def a_def)
  moreover have "test_access_unmap_address lit st' = Inl Bad_Pointer"
    using r tr(2) by (simp add: test_access_unmap_address_def test_access_def mmu_store_def)
  moreover have "ld64 (ram s2) a = 0x55"
    using s2(2) by (simp add: printed_def s1_def m_def ld64_st64_same)
  ultimately show ?case
    using 1(1) s2(2) by (intro exI [of _ st'] exI [of _ "st'\<lparr>mach := s2\<rparr>"]) (simp add: a_def [symmetric] printed_def s1_def)
qed


section \<open>A machine that boots\<close>

definition boot_image :: image where
  "boot_image = \<lparr>text_boot = 0x80000, etext = 0x8a123, idmap_pg_dir = 0x90000, etext_boot = 0x80100, text_start = 0x81000,
     rodata = 0x8b000, erodata = 0x8c000, data_start = 0x8c000, edata = 0x8d000, bss = 0x8d000, ebss = 0x93001\<rparr>"

definition boot_kernel :: kernel where
  "boot_kernel = \<lparr>mach = \<lparr>dev = idle_dev, trace = [], ram = lit_mem image_literals\<rparr>, kmap = (\<lambda>_. 0), kregs = boot_regs,
     ksched = ks fs0, kgic = gic0\<rparr>"

lemma image_literals_short:
  "length image_literals \<le> 100" "t \<in> set image_literals \<Longrightarrow> length t \<le> 60 \<and> CHR 0x00 \<notin> set t"
proof -
  show "length image_literals \<le> 100"
    by code_simp
  show "t \<in> set image_literals \<Longrightarrow> length t \<le> 60 \<and> CHR 0x00 \<notin> set t"
    using dump_literals_short [of t] by auto
qed

lemma literals_low:
  assumes "length ls \<le> 100" and "\<And>t. t \<in> set ls \<Longrightarrow> length t \<le> 60 \<and> CHR 0x00 \<notin> set t"
    and "\<And>p. p \<in> A \<Longrightarrow> 0x4000 \<le> unat p"
  shows "lits_outside ls (lit_addr ls) A"
  unfolding lits_outside_def
proof (intro ballI allI impI)
  fix t i
  assume t: "t \<in> set ls" and i: "i \<le> length t"
  define a where "a = lit_addr ls t + of_nat i"
  have "pos_of t ls < 100" "i \<le> 60"
    using pos_of_nth [OF t] assms(1) assms(2) [OF t] i by linarith+
  moreover have "a = of_nat (4096 + 64 * pos_of t ls + i)"
    by (simp add: a_def lit_addr_def)
  ultimately have "unat a < 0x4000"
    by (simp only:) (subst unat_of_nat_64, simp_all)
  then have "unat (pg a) < 0x4000"
    by (simp add: unat_pg)
  then show "pg a \<notin> A"
    using assms(3) [of "pg a"] by linarith
qed

lemma image_literals_low:
  assumes "\<And>p. p \<in> A \<Longrightarrow> 0x4000 \<le> unat p"
  shows "lits_outside image_literals (lit_addr image_literals) A"
  by (rule literals_low) (use image_literals_short assms in auto)

lemma boot_pages_high: "p \<in> insert (idmap_pg_dir boot_image) (mm_free (kmm (boot_kernel\<lparr>mach := s\<rparr>))) \<Longrightarrow> 0x4000 \<le> unat p"
proof -
  assume "p \<in> insert (idmap_pg_dir boot_image) (mm_free (kmm (boot_kernel\<lparr>mach := s\<rparr>)))"
  then consider "p = 0x90000" | "p \<in> mm_free boot_mm"
    by (auto simp: boot_image_def mm_free_def boot_kernel_def boot_mm_def)
  then show ?thesis
    using boot_mm_low [of p] by cases (simp, force)
qed

text \<open>The machine with more literals in memory boots too.\<close>

lemma literal_kernel_ready:
  assumes ls: "length ls \<le> 100" "\<And>t. t \<in> set ls \<Longrightarrow> length t \<le> 60 \<and> CHR 0x00 \<notin> set t" "set image_literals \<subseteq> set ls"
  defines "k \<equiv> boot_kernel\<lparr>mach := (mach boot_kernel)\<lparr>ram := lit_mem ls\<rparr>\<rparr>"
  shows "boot_ready (lit_addr ls) boot_image k" and "lits_in ls (lit_addr ls) (ram (mach k))"
    and "lits_outside ls (lit_addr ls) (insert (idmap_pg_dir boot_image) (mm_free (kmm k)))"
proof -
  have f: "mm_free (kmm k) = mm_free boot_mm"
    by (simp add: mm_free_def k_def boot_kernel_def boot_mm_def)
  have l: "image_layout boot_image = boot_layout"
    by (simp add: layout.truncate_def boot_image_def boot_layout_def)
  show li: "lits_in ls (lit_addr ls) (ram (mach k))"
    using lit_mem_ok [OF ls(1,2)] by (simp add: k_def)
  show lo: "lits_outside ls (lit_addr ls) (insert (idmap_pg_dir boot_image) (mm_free (kmm k)))"
    by (rule literals_low [OF ls(1,2)]) (use boot_pages_high in \<open>unfold k_def\<close>)
  have "lits_in image_literals (lit_addr ls) (ram (mach k))"
      "lits_outside image_literals (lit_addr ls) (insert (idmap_pg_dir boot_image) (mm_free (kmm k)))"
    using li lo ls(3) unfolding lits_in_def lits_outside_def by blast+
  moreover have "boot_ok (image_layout boot_image) (kmm k)"
    using boot_mm_ok by (simp add: boot_ok_def f l)
  moreover have "tx_ready (mach k)"
    by (rule idle_tx_ready) (simp add: k_def boot_kernel_def)
  ultimately show "boot_ready (lit_addr ls) boot_image k"
    unfolding boot_ready_def
    by (simp add: boot_image_def TOTAL_MEMORY_def PAGE_BALIGN_def BALIGN_def round_mask_def PAGE_SIZE_def)
qed

lemma boot_kernel_ready: "boot_ready (lit_addr image_literals) boot_image boot_kernel"
  using literal_kernel_ready(1) [OF image_literals_short subset_refl] by (simp add: boot_kernel_def)


theorem booted_kernel_dump_witness:
  "\<exists>st' ls s'. kernel_main (lit_addr image_literals) K0 boot_image boot_kernel = Inr (Spins st') \<and>
    dump_pgtable (lit_addr image_literals) boot_layout (pg_levels, mach st') = (the_levels, Some (Inr s')) \<and>
    covers 0 ls 0x20000000"
proof -
  have "image_layout boot_image = boot_layout"
    by (simp add: layout.truncate_def boot_image_def boot_layout_def)
  then show ?thesis
    using booted_kernel_dump [OF boot_kernel_ready, of K0] by (auto simp: TOTAL_MEMORY_def)
qed

theorem mmu_tests_outcome_witness:
  "\<exists>st' st2. kernel_main (lit_addr image_literals) K0 boot_image boot_kernel = Inr (Spins st') \<and>
    test_access_map_address (lit_addr image_literals) st' = Inr (0, st2) \<and>
    test_access_unmap_address (lit_addr image_literals) st' = Inl Bad_Pointer"
proof -
  have "lits_outside image_literals (lit_addr image_literals) {TOTAL_MEMORY - 4096}"
    by (rule image_literals_low) (simp add: TOTAL_MEMORY_def)
  then show ?thesis
    using mmu_tests_outcome [OF boot_kernel_ready, of K0] by (auto simp: boot_kernel_def boot_regs_def)
qed


end
