(* ===== verification/Start_Spec.thy ===== *)
theory Start_Spec
  imports Start Boot_Spec
begin

text \<open>
  What the start code does: its serial routines are those of the driver (so the locale of the
  console applies to them), the boot core arrives in \<^verbatim>\<open>kernel_main\<close> at EL1 with the state that \<open>boot_ready\<close>
  asks for, and the other ways through the code end before the kernel. \<open>image_ok\<close> is the order of
  the segments in the linker script.
\<close>

section \<open>The early serial line\<close>

lemma ucast_ord: "ucast (ord c :: u8) = (ord c :: u32)"
  using of_char_lt_256 [of c] by (simp add: ord_def unsigned_of_nat take_bit_nat_eq_self)

lemma put_uart_send: "of_opt Diverges (put_uart (ord c) s) = uart_send c s"
proof -
  have "push_bit 5 1 = (0x20 :: u32)"
    by simp
  then show ?thesis
    unfolding uart_send_def put_uart_def by (cases "poll_clear U_FR_REG 0x20 s") (simp_all add: of_opt_def)
qed

definition sends :: "machine \<Rightarrow> machine \<Rightarrow> string \<Rightarrow> bool" where
  "sends s s' txt \<longleftrightarrow> tx_ready s' \<and> uart_rest s' = uart_rest s \<and> uart_out (trace s') = uart_out (trace s) @ txt"

lemma sends_trans: "sends s s1 t1 \<Longrightarrow> sends s1 s2 t2 \<Longrightarrow> sends s s2 (t1 @ t2)"
  by (simp add: sends_def)

lemma put_uart_ok:
  assumes "tx_ready s"
  obtains s' where "put_uart (ord c) s = Some s'" and "sends s s' [c]"
proof -
  obtain s' where "uart_send c s = Inr s'" "sends s s' [c]"
    using uart_send_ok [OF assms, of c] by (auto simp: sends_def)
  then show thesis
    using put_uart_send [of c s] that by (cases "put_uart (ord c) s") (auto simp: of_opt_def)
qed

lemma c_str_Cons:
  assumes "c_str m a (c # cs)"
  shows "m a = ord c" and "c \<noteq> CHR 0x00" and "c_str m (a + 1) cs"
proof -
  show "m a = ord c" "c \<noteq> CHR 0x00"
    using assms by (auto simp: c_str_def)
  have "m (a + 1 + of_nat i) = ord (cs ! i)" if "i < length cs" for i
    using assms that unfolding c_str_def by (auto simp: add.assoc dest!: spec [of _ "Suc i"])
  then show "c_str m (a + 1) cs"
    using assms by (simp add: c_str_def add.assoc)
qed

lemma put_string_uart_sends:
  assumes "tx_ready s" and "c_str (ram s) a cs"
  obtains s' where "put_string_uart a s = Some s'" and "sends s s' (cs @ [CHR 0x00])"
  using assms
proof (induction cs arbitrary: a s thesis)
  case Nil
  then have "ram s a = ord (CHR 0x00)"
    by (simp add: c_str_def)
  moreover obtain s' where "put_uart (ord (CHR 0x00)) s = Some s'" "sends s s' [CHR 0x00]"
    using put_uart_ok [OF Nil.prems(2)] .
  ultimately show ?case
    using Nil.prems(1) [of s'] ucast_ord [of "CHR 0x00"] by (simp add: put_string_uart.simps [of a])
next
  case (Cons c cs)
  note c = c_str_Cons [OF Cons.prems(3)]
  obtain s1 where s1: "put_uart (ord c) s = Some s1" "sends s s1 [c]"
    using put_uart_ok [OF Cons.prems(2)] .
  then have "tx_ready s1" "c_str (ram s1) (a + 1) cs"
    using c(3) uart_rest_eqD [of s1 s] by (simp_all add: sends_def)
  then obtain s2 where "put_string_uart (a + 1) s1 = Some s2" "sends s1 s2 (cs @ [CHR 0x00])"
    using Cons.IH by blast
  moreover from this(2) have "sends s s2 ((c # cs) @ [CHR 0x00])"
    using sends_trans [OF s1(2)] by simp
  ultimately show ?case
    using Cons.prems(1) [of s2] s1(1) c(1,2) ucast_ord [of c] by (simp add: put_string_uart.simps [of a])
qed

section \<open>Addresses\<close>

lemma numeral_2_pow_64: "(2 :: nat) ^ 64 = 18446744073709551616"
  by simp

lemma adrp_lo12:
  assumes "unat a div 4096 = unat b div 4096"
  shows "adrp a + lo12 b = b"
proof -
  have m: "(0xfff :: u64) = mask 12"
    by (simp add: mask_eq_exp_minus_1)
  have "unat (adrp a) = 4096 * (unat b div 4096)" "unat (lo12 b) = unat b mod 4096"
    using unat_and_not_mask_div [of a 12] unat_and_mask [of b 12] assms by (simp_all add: adrp_def lo12_def m)
  then have "of_nat (unat (adrp a)) + of_nat (unat (lo12 b)) = (of_nat (unat b) :: u64)"
    by (simp only: of_nat_add [symmetric] mult_div_mod_eq)
  then show ?thesis
    by (simp only: of_nat_unat_64)
qed

lemma adrp_boot_string:
  assumes "unat (el_string1 A) mod 4096 + 14 < 4096"
  shows "adrp (el_string1 A) + lo12 (boot_string A) = boot_string A"
proof (rule adrp_lo12)
  have "unat (el_string1 A) div 4096 < 4503599627370496"
    using unat_lt_64 [of "el_string1 A"] by (intro less_mult_imp_div_less) simp
  then have "unat (el_string1 A) + 14 < 2 ^ 64"
    unfolding numeral_2_pow_64 using assms mult_div_mod_eq [of 4096 "unat (el_string1 A)"] by linarith
  then have "unat (boot_string A) = unat (el_string1 A) + 14"
    by (simp add: boot_string_def el_string1_text_def unat_add_no_wrap)
  then show "unat (el_string1 A) div 4096 = unat (boot_string A) div 4096"
    using assms by (simp only:) (subst div_add1_eq, simp)
qed

lemma below_fill:
  assumes "a < lo" and "lo \<le> hi"
  shows "\<not> unat (a - lo) < unat (hi - lo :: u64)"
proof
  assume l: "unat (a - lo) < unat (hi - lo)"
  have h: "unat (hi - lo) = unat hi - unat lo"
    using assms(2) by (rule unat_sub)
  have "unat lo + unat (a - lo) < 2 ^ 64"
    unfolding numeral_2_pow_64 using l h unat_lt_64 [of hi] by linarith
  then have "unat (lo + (a - lo)) = unat lo + unat (a - lo)"
    by (intro unat_add_no_wrap) simp
  then have "unat lo \<le> unat a"
    by simp
  then show False
    using assms(1) by (simp add: word_less_nat_alt)
qed

section \<open>The start code\<close>

lemma get_CurrentEL_run:
  assumes "tx_ready (bmach b)" and "c_str (ram (bmach b)) (el_string1 A) el_string1_text"
    and "ucast (48 + drop_bit 2 (current_el b)) = (ord c :: u32)"
  obtains s' where "get_CurrentEL A b = Some (b\<lparr>bmach := s'\<rparr>)"
    and "sends (bmach b) s' (el_string1_text @ [CHR 0x00, c, CHR ''\<newline>''])"
proof -
  obtain s1 where s1: "put_string_uart (el_string1 A) (bmach b) = Some s1"
      "sends (bmach b) s1 (el_string1_text @ [CHR 0x00])"
    using put_string_uart_sends [OF assms(1,2)] .
  then obtain s2 where s2: "put_uart (ord c) s1 = Some s2" "sends s1 s2 [c]"
    using put_uart_ok [of s1] by (auto simp: sends_def)
  then obtain s3 where s3: "put_uart (ord (CHR ''\<newline>'')) s2 = Some s3" "sends s2 s3 [CHR ''\<newline>'']"
    using put_uart_ok [of s2] by (auto simp: sends_def)
  have "ord (CHR ''\<newline>'') = (10 :: u32)"
    by (simp add: ord_def)
  then have "get_CurrentEL A b = Some (b\<lparr>bmach := s3\<rparr>)"
    using s1(1) s2(1) s3(1) assms(3) by (simp add: get_CurrentEL_def adrp_lo12)
  then show thesis
    using sends_trans [OF s1(2) sends_trans [OF s2(2) s3(2)]] that by simp
qed

lemma init_uart_frame: "dev (init_uart s) = dev s" "ram (init_uart s) = ram s" "uart_out (trace (init_uart s)) = uart_out (trace s)"
  by (simp_all add: init_uart_def readl_def Let_def yios_consts)

text \<open>
  The order of the segments in the linker script: text, read-only data with the literals, data
  with the page directory, \<^verbatim>\<open>.bss\<close> with \<^verbatim>\<open>mem_map\<close>, all below the pages of the allocator.
\<close>

definition image_ok :: "(string \<Rightarrow> u64) \<Rightarrow> image \<Rightarrow> symbols \<Rightarrow> bool" where
  "image_ok lit I A \<longleftrightarrow>
     text_boot I < etext I \<and> etext I \<le> idmap_pg_dir I \<and> page_aligned (idmap_pg_dir I) \<and>
     (\<forall>t \<in> set image_literals. unat (lit t) + length t < unat (idmap_pg_dir I)) \<and>
     idmap_pg_dir I < bss I \<and> bss I \<le> mem_map_at A \<and> unat (mem_map_at A) + 2 * NR_PAGES \<le> unat (ebss I) \<and>
     ebss I \<le> LOW_MEMORY"

lemma mem_map_cleared:
  assumes "image_ok lit I A" and "i < NR_PAGES"
  shows "ld_bytes 2 (fill m (bss I) (unat (ebss I - bss I)) 0) (mem_map_at A + of_nat (2 * i)) = 0"
proof -
  have o: "unat (bss I) \<le> unat (mem_map_at A)" "unat (mem_map_at A) + 2 * NR_PAGES \<le> unat (ebss I)"
    using assms(1) by (auto simp: image_ok_def word_le_nat_alt)
  then have n: "unat (ebss I - bss I) = unat (ebss I) - unat (bss I)"
    by (intro unat_sub) (simp add: word_le_nat_alt)
  have "unat (mem_map_at A + of_nat j - bss I) < unat (ebss I - bss I)" if "j < 2 * NR_PAGES" for j
  proof -
    have "unat (mem_map_at A + of_nat j) = unat (mem_map_at A) + j"
    proof -
      have "unat (of_nat j :: u64) = j"
        using that by (intro unat_of_nat_64) (simp add: NR_PAGES_def)
      moreover from this have "unat (mem_map_at A) + unat (of_nat j :: u64) < 2 ^ 64"
        unfolding numeral_2_pow_64 using that o unat_lt_64 [of "ebss I"] by linarith
      ultimately show ?thesis
        by (simp add: unat_add_no_wrap)
    qed
    moreover from this have "unat (mem_map_at A + of_nat j - bss I) = unat (mem_map_at A + of_nat j) - unat (bss I)"
      using o by (intro unat_sub) (simp add: word_le_nat_alt)
    ultimately show ?thesis
      using that o n by linarith
  qed
  from this [of "2 * i"] this [of "Suc (2 * i)"] assms(2) show ?thesis
    by (simp add: numeral_2_eq_2 fill_def algebra_simps)
qed

lemma image_ok_nat:
  assumes "image_ok lit I A"
  shows "unat (text_boot I) < unat (etext I)" and "unat (etext I) \<le> unat (idmap_pg_dir I)"
    and "unat (idmap_pg_dir I) < unat (bss I)" and "unat (bss I) \<le> unat (ebss I)" and "unat (ebss I) \<le> 0x400000"
  using assms by (auto simp: image_ok_def word_less_nat_alt word_le_nat_alt LOW_MEMORY_def)

lemma literal_below:
  assumes "image_ok lit I A" and "t \<in> set image_literals" and "i \<le> length t"
  shows "unat (lit t + of_nat i) < unat (idmap_pg_dir I)"
proof -
  have l: "unat (lit t) + length t < unat (idmap_pg_dir I)"
    using assms(1,2) by (simp only: image_ok_def)
  moreover have "unat (idmap_pg_dir I) < 0x400000"
    using image_ok_nat [OF assms(1)] by linarith
  ultimately have "unat (lit t) + i < 2 ^ 64"
    unfolding numeral_2_pow_64 using assms(3) by linarith
  moreover from this have "unat (of_nat i :: u64) = i"
    by (intro unat_of_nat_64) simp
  ultimately show ?thesis
    using l assms(3) by (subst unat_add_no_wrap) simp_all
qed

lemma image_layout_ok:
  assumes "image_ok lit I A" and "mm_free s = pool"
  shows "boot_ok (image_layout I) s"
proof -
  note o = image_ok_nat [OF assms(1)]
  have e: "unat (etext I) < 0x400000"
    using o by linarith
  then have "unat (PAGE_BALIGN (etext I)) = 4096 * ((unat (etext I) + 4095) div 4096)"
    by (subst unat_PAGE_BALIGN) simp_all
  then have "unat (PAGE_BALIGN (etext I)) < 0x20000000"
    using e by simp
  moreover have "card pool = 131072"
    using card_all_free by (simp add: pool_def free_pages_def lessThan_def)
  moreover have "idmap_pg_dir I \<notin> pool"
    using o by (auto simp: pool_def unat_page_of)
  ultimately show ?thesis
    using e assms(1,2) by (simp add: boot_ok_def image_ok_def word_less_nat_alt TOTAL_MEMORY_def)
qed

text \<open>The state in which \<^verbatim>\<open>el1_entry\<close> calls \<^verbatim>\<open>kernel_main\<close> is the one the boot sequence needs.\<close>

lemma kernel_of_ready:
  assumes ok: "image_ok lit I A" and "tx_ready (bmach b)" and lits: "lits_in image_literals lit m"
    and m: "ram (bmach b) = memset m (bss I) 0 (ebss I - bss I)"
  shows "boot_ready lit I (kernel_of A junk b)" and "mm_free (kmm (kernel_of A junk b)) = pool"
proof -
  note o = image_ok_nat [OF ok]
  have le: "bss I \<le> ebss I"
    using o(4) by (simp add: word_le_nat_alt)
  then have "unat (ebss I - bss I) \<le> 0x400000"
    using o by (subst unat_sub) linarith+
  then have f: "ram (bmach b) = fill m (bss I) (unat (ebss I - bss I)) 0"
    using m by (simp add: memset_fill)
  show free: "mm_free (kmm (kernel_of A junk b)) = pool"
    using mem_map_cleared [OF ok] by (auto simp: mm_free_def free_pages_def pool_def kernel_of_def f)
  have low: "ram (bmach b) a = m a" if "unat a < unat (idmap_pg_dir I)" for a
  proof -
    have "\<not> unat (a - bss I) < unat (ebss I - bss I)"
      using that o(3) by (intro below_fill [OF _ le]) (simp add: word_less_nat_alt)
    then show ?thesis
      by (simp add: f fill_def)
  qed
  have "lits_in image_literals lit (ram (bmach b))"
    unfolding lits_in_def
  proof
    fix t
    assume t: "t \<in> set image_literals"
    show "lit t \<noteq> 0 \<and> c_str (ram (bmach b)) (lit t) t"
      using lits_inD [OF lits t] low literal_below [OF ok t] by (simp add: c_str_def)
  qed
  moreover have "lits_outside image_literals lit (insert (idmap_pg_dir I) pool)"
    unfolding lits_outside_def
  proof (intro ballI allI impI)
    fix t i
    assume t: "t \<in> set image_literals" and i: "i \<le> length t"
    have "unat (pg (lit t + of_nat i)) \<le> unat (lit t + of_nat i)"
      by (simp add: unat_pg)
    then have "unat (pg (lit t + of_nat i)) < unat (idmap_pg_dir I)"
      using literal_below [OF ok t i] by linarith
    then show "pg (lit t + of_nat i) \<notin> insert (idmap_pg_dir I) pool"
      using o by (auto simp: pool_def unat_page_of)
  qed
  moreover have "PAGE_BALIGN (ebss I) \<le> TOTAL_MEMORY"
  proof -
    have "unat (PAGE_BALIGN (ebss I)) = 4096 * ((unat (ebss I) + 4095) div 4096)"
      using o(5) by (subst unat_PAGE_BALIGN) simp_all
    then show ?thesis
      using o(5) by (simp add: word_le_nat_alt TOTAL_MEMORY_def)
  qed
  moreover have "mach (kernel_of A junk b) = bmach b"
    by (simp add: kernel_of_def)
  ultimately show "boot_ready lit I (kernel_of A junk b)"
    using assms(2) o(5) free image_layout_ok [OF ok free] unfolding boot_ready_def by simp
qed

definition start_ready :: "(string \<Rightarrow> u64) \<Rightarrow> image \<Rightarrow> symbols \<Rightarrow> boot_cpu \<Rightarrow> bool" where
  "start_ready lit I A b \<longleftrightarrow>
     tx_ready (bmach b) \<and> image_ok lit I A \<and> lits_in image_literals lit (ram (bmach b)) \<and>
     c_str (ram (bmach b)) (el_string1 A) el_string1_text \<and> c_str (ram (bmach b)) (boot_string A) boot_string_text"

lemma sends_frame: "sends s s' t \<Longrightarrow> tx_ready s' \<and> ram s' = ram s \<and> dev s' = dev s"
  by (simp add: sends_def uart_rest_def)

text \<open>The part all levels share: the line is set up and the level printed.\<close>

lemma announced:
  assumes "tx_ready (bmach b)" and "c_str (ram (bmach b)) (el_string1 A) el_string1_text"
    and "ucast (48 + drop_bit 2 (current_el b)) = (ord c :: u32)"
  obtains s where "get_CurrentEL A (b\<lparr>daif := d, bmach := init_uart (bmach b)\<rparr>) = Some (b\<lparr>daif := d, bmach := s\<rparr>)"
    and "tx_ready s" and "ram s = ram (bmach b)"
    and "uart_out (trace s) = uart_out (trace (bmach b)) @ el_string1_text @ [CHR 0x00, c, CHR ''\<newline>'']"
proof -
  define b1 where "b1 = b\<lparr>daif := d, bmach := init_uart (bmach b)\<rparr>"
  have "tx_ready (bmach b1)"
    using assms(1) tx_ready_dev [of "bmach b1" "bmach b"] by (simp add: b1_def init_uart_frame)
  then obtain s where s: "get_CurrentEL A b1 = Some (b1\<lparr>bmach := s\<rparr>)"
    "sends (bmach b1) s (el_string1_text @ [CHR 0x00, c, CHR ''\<newline>''])"
    using get_CurrentEL_run [of b1 A c] assms(2,3) by (auto simp: b1_def init_uart_frame)
  then show thesis
    using that [of s] sends_frame [OF s(2)] by (simp add: b1_def init_uart_frame sends_def)
qed

lemma el1_entry_run:
  assumes "tx_ready (bmach b)" and "c_str (ram (bmach b)) (boot_string A) boot_string_text"
    and "unat (el_string1 A) mod 4096 + 14 < 4096"
  obtains s where "tx_ready s" and "ram s = memset (ram (bmach b)) (bss I) 0 (ebss I - bss I)"
    and "uart_out (trace s) = uart_out (trace (bmach b)) @ boot_string_text @ [CHR 0x00, CHR ''\<newline>'']"
    and "el1_entry lit K I A junk b =
      (let b = b\<lparr>vbar_el1 := vectors_at A, bmach := s, bsp_el0 := init_task K, bsp := LOW_MEMORY\<rparr> in
       ebind (kernel_main lit K I (kernel_of A junk b)) (\<lambda>r.
       Inr (case r of Spins st \<Rightarrow> In_kernel b st | Returns st \<Rightarrow> Slave_hang (b\<lparr>bmach := mach st\<rparr>))))"
proof -
  obtain s1 where s1: "put_string_uart (boot_string A) (bmach b) = Some s1"
    "sends (bmach b) s1 (boot_string_text @ [CHR 0x00])"
    using put_string_uart_sends [OF assms(1,2)] .
  obtain s2 where s2: "put_uart (ord (CHR ''\<newline>'')) s1 = Some s2" "sends s1 s2 [CHR ''\<newline>'']"
    using put_uart_ok [of s1 "CHR ''\<newline>''"] sends_frame [OF s1(2)] by blast
  note f = sends_trans [OF s1(2) s2(2)]
  define s where "s = s2\<lparr>ram := memset (ram s2) (bss I) 0 (ebss I - bss I)\<rparr>"
  have "tx_ready s"
    using sends_frame [OF f] tx_ready_dev [of s s2] by (simp add: s_def)
  moreover have "ord (CHR ''\<newline>'') = (10 :: u32)"
    by (simp add: ord_def)
  ultimately show thesis
    using that [of s] s1(1) s2(1) sends_frame [OF f] f adrp_boot_string [OF assms(3)]
    by (simp add: el1_entry_def of_opt_def Let_def s_def sends_def cong: outcome.case_cong)
qed

lemma start_run:
  assumes "start_ready lit I A b" and "mpidr_el1 b AND 0xFF = 0" and "current_el b = CurrentEL_EL2"
    and "unat (el_string1 A) mod 4096 + 14 < 4096"
  obtains b' where "start lit K I A junk b = ebind (kernel_main lit K I (kernel_of A junk b')) (\<lambda>r.
      Inr (case r of Spins st \<Rightarrow> In_kernel b' st | Returns st \<Rightarrow> Slave_hang (b'\<lparr>bmach := mach st\<rparr>)))"
    and "boot_ready lit I (kernel_of A junk b')" and "mm_free (kmm (kernel_of A junk b')) = pool"
    and "current_el b' = CurrentEL_EL1" and "bit (hcr_el2 b') 31" and "vbar_el1 b' = vectors_at A" and "bsp b' = LOW_MEMORY"
    and "bsp_el0 b' = init_task K" and "uart_out (trace (bmach b')) = uart_out (trace (bmach b)) @
      ''Booting at EL'' @ [CHR 0x00] @ ''2\<newline>- Switch to EL1 -'' @ [CHR 0x00] @ ''\<newline>''"
proof -
  have r: "tx_ready (bmach b)" "image_ok lit I A" "lits_in image_literals lit (ram (bmach b))"
    "c_str (ram (bmach b)) (el_string1 A) el_string1_text" "c_str (ram (bmach b)) (boot_string A) boot_string_text"
    using assms(1) by (simp_all only: start_ready_def)
  define d where "d = daif b OR push_bit 6 2"
  have "ucast (48 + drop_bit 2 (current_el b)) = (ord (CHR ''2'') :: u32)"
    using assms(3) by (simp add: CurrentEL_EL2_def ord_def)
  from announced [OF r(1,4) this] obtain s where
    s: "get_CurrentEL A (b\<lparr>daif := d, bmach := init_uart (bmach b)\<rparr>) = Some (b\<lparr>daif := d, bmach := s\<rparr>)"
      "tx_ready s" "ram s = ram (bmach b)"
      "uart_out (trace s) = uart_out (trace (bmach b)) @ el_string1_text @ [CHR 0x00, CHR ''2'', CHR ''\<newline>'']" .
  define b2 where "b2 = b\<lparr>bmach := s, hcr_el2 := HCR_HOST_NVHE_FLAGS,
    bregs := (bregs b)\<lparr>sctlr_el1 := SCTLR_VALUE_MMU_DISABLED\<rparr>, spsr_el2 := SPSR_EL1, elr_el2 := el1_entry_at A,
    current_el := SPSR_EL1 AND 0xc, daif := SPSR_EL1 AND 0x3c0\<rparr>"
  have "start lit K I A junk b = el1_entry lit K I A junk b2"
    using assms(2,3) s(1)
    by (simp add: start_def master_def el2_entry_def Let_def of_opt_def b2_def d_def eret_el2_def CurrentEL_EL2_def CurrentEL_EL3_def)
  moreover obtain s' where s': "tx_ready s'" "ram s' = memset (ram (bmach b)) (bss I) 0 (ebss I - bss I)"
    "uart_out (trace s') = uart_out (trace s) @ boot_string_text @ [CHR 0x00, CHR ''\<newline>'']"
    "el1_entry lit K I A junk b2 =
      (let b = b2\<lparr>vbar_el1 := vectors_at A, bmach := s', bsp_el0 := init_task K, bsp := LOW_MEMORY\<rparr> in
       ebind (kernel_main lit K I (kernel_of A junk b)) (\<lambda>r.
       Inr (case r of Spins st \<Rightarrow> In_kernel b st | Returns st \<Rightarrow> Slave_hang (b\<lparr>bmach := mach st\<rparr>))))"
    using el1_entry_run [of b2 A I lit K junk] s r(5) assms(4) by (auto simp: b2_def)
  define b' where "b' = b2\<lparr>vbar_el1 := vectors_at A, bmach := s', bsp_el0 := init_task K, bsp := LOW_MEMORY\<rparr>"
  have "tx_ready (bmach b')" "ram (bmach b') = memset (ram (bmach b)) (bss I) 0 (ebss I - bss I)"
    using s'(1,2) by (simp_all add: b'_def)
  note kernel_of_ready [OF r(2) this(1) r(3) this(2), of junk]
  moreover note s'(4) [unfolded Let_def, folded b'_def]
  ultimately show thesis
    using that [of b'] s'(3) s(4) by (simp add: b'_def b2_def el_string1_text_def boot_string_text_def yios_consts)
qed

section \<open>Properties\<close>


text \<open>
  C35: The other ways through the start code never reach the kernel. A core other than the first hangs
  before it touches a device. Entered at EL3 the code prints its level and executes an \<^verbatim>\<open>eret\<close> for
  which it has set neither the return address nor the state, so it goes wherever \<^verbatim>\<open>elr_el3\<close> happens
  to point. Entered at EL1 it prints its level, goes on as if at EL2 and runs into an undefined
  instruction.
\<close>

theorem start_other_ways:
  assumes "tx_ready (bmach b)" and "c_str (ram (bmach b)) (el_string1 A) el_string1_text"
  shows "(mpidr_el1 b AND 0xFF \<noteq> 0 \<longrightarrow> (\<exists>b'. start lit K I A junk b = Inr (Slave_hang b') \<and> bmach b' = bmach b)) \<and>
    (mpidr_el1 b AND 0xFF = 0 \<and> current_el b = CurrentEL_EL3 \<longrightarrow>
      (\<exists>b'. start lit K I A junk b = Inr (Eret_to (elr_el3 b) b') \<and>
        uart_out (trace (bmach b')) = uart_out (trace (bmach b)) @ ''Booting at EL'' @ [CHR 0x00] @ ''3\<newline>'')) \<and>
    (mpidr_el1 b AND 0xFF = 0 \<and> current_el b = CurrentEL_EL1 \<longrightarrow>
      (\<exists>b'. start lit K I A junk b = Inr (Undefined_insn b') \<and>
        uart_out (trace (bmach b')) = uart_out (trace (bmach b)) @ ''Booting at EL'' @ [CHR 0x00] @ ''1\<newline>''))"
proof (intro conjI impI)
  show "\<exists>b'. start lit K I A junk b = Inr (Slave_hang b') \<and> bmach b' = bmach b" if "mpidr_el1 b AND 0xFF \<noteq> 0"
    using that by (simp add: start_def)
  note ways = CurrentEL_EL1_def CurrentEL_EL2_def CurrentEL_EL3_def ord_def start_def master_def el3_entry_def el2_entry_def
    of_opt_def el_string1_text_def
  show "\<exists>b'. start lit K I A junk b = Inr (Eret_to (elr_el3 b) b') \<and>
      uart_out (trace (bmach b')) = uart_out (trace (bmach b)) @ ''Booting at EL'' @ [CHR 0x00] @ ''3\<newline>''"
    if "mpidr_el1 b AND 0xFF = 0 \<and> current_el b = CurrentEL_EL3"
    by (rule announced [OF assms, of "CHR ''3''" "daif b OR push_bit 6 2"]) (use that in \<open>auto simp: ways\<close>)
  show "\<exists>b'. start lit K I A junk b = Inr (Undefined_insn b') \<and>
      uart_out (trace (bmach b')) = uart_out (trace (bmach b)) @ ''Booting at EL'' @ [CHR 0x00] @ ''1\<newline>''"
    if "mpidr_el1 b AND 0xFF = 0 \<and> current_el b = CurrentEL_EL1"
    by (rule announced [OF assms, of "CHR ''1''" "daif b OR push_bit 6 2"]) (use that in \<open>auto simp: ways\<close>)
qed

text \<open>
  C38: The start code sets the serial line up exactly as the driver does: the two make the same accesses
  with the same values in the same order, except that only the driver sets the pull resistors of
  the pins.
\<close>

theorem init_uart_agrees:
  "\<exists>tr. trace (uart_init s) = trace s @ tr \<and>
     trace (init_uart s) = trace s @ filter (\<lambda>e. case e of Rd a v \<Rightarrow> a \<noteq> GPIO_PUP_PDN_CNTRL_REG0
       | Wr a v \<Rightarrow> a \<noteq> GPIO_PUP_PDN_CNTRL_REG0 | Msr r v \<Rightarrow> True) tr"
proof -
  have masks: "(0xffff8fff :: u32) = - 28673" "(0xfffc7fff :: u32) = - 229377"
    by simp_all
  show ?thesis
    by (intro exI [of _ "drop (length (trace s)) (trace (uart_init s))"])
      (simp add: init_uart_def uart_init_def readl_def Let_def yios_consts masks)
qed

text \<open>
  \<^verbatim>\<open>el1_entry\<close> takes the page of \<^verbatim>\<open>el_string1\<close> but the offset of \<^verbatim>\<open>boot_string\<close>: if a page ends between the two
  strings, what it prints is a page before the string.
\<close>

lemma adrp_other_page:
  assumes "4096 \<le> unat (el_string1 A) mod 4096 + 14" and "unat (el_string1 A) + 14 < 2 ^ 64"
  shows "adrp (el_string1 A) + lo12 (boot_string A) = boot_string A - 4096"
proof -
  have u: "unat (boot_string A) = unat (el_string1 A) + 14"
    using assms(2) by (simp add: boot_string_def el_string1_text_def unat_add_no_wrap)
  have "(unat (el_string1 A) mod 4096 + 14) div 4096 = 1"
    using assms(1) by (intro div_nat_eqI) simp_all
  then have d: "unat (boot_string A) div 4096 = Suc (unat (el_string1 A) div 4096)"
    unfolding u by (subst div_add1_eq) simp
  have "4096 \<le> unat (boot_string A)"
    using d by (metis Suc_not_Zero div_less not_le)
  then have v: "unat (boot_string A - 4096) = unat (boot_string A) - 4096"
    by (subst unat_sub) (simp_all add: word_le_nat_alt)
  have "unat (el_string1 A) div 4096 = unat (boot_string A - 4096) div 4096"
    unfolding v using d le_div_geq [of 4096 "unat (boot_string A)"] \<open>4096 \<le> unat (boot_string A)\<close> by simp
  then have "adrp (el_string1 A) + lo12 (boot_string A - 4096) = boot_string A - 4096"
    by (rule adrp_lo12)
  moreover have "lo12 (boot_string A - 4096) = lo12 (boot_string A)"
  proof -
    have m: "(0xfff :: u64) = mask 12"
      by (simp add: mask_eq_exp_minus_1)
    have "unat (lo12 (boot_string A - 4096)) = unat (lo12 (boot_string A))"
      using v \<open>4096 \<le> unat (boot_string A)\<close> by (simp add: lo12_def m unat_and_mask le_mod_geq)
    then show ?thesis
      by (simp only: word_unat_eq_iff)
  qed
  ultimately show ?thesis
    by simp
qed

section \<open>A machine that starts\<close>

definition start_image :: image where
  "start_image = \<lparr>text_boot = 0x80000, etext = 0x8a123, idmap_pg_dir = 0x90000, etext_boot = 0x80100, text_start = 0x80100,
     rodata = 0x8b000, erodata = 0x8c000, data_start = 0x8c000, edata = 0x91000, bss = 0x91000, ebss = 0xd2000\<rparr>"

definition start_symbols :: symbols where
  "start_symbols = \<lparr>el_string1 = 0x8000, el1_entry_at = 0x80040, vectors_at = 0x81000, mem_map_at = 0x91000\<rparr>"

definition start_text :: string where
  "start_text = el_string1_text @ [CHR 0x00] @ boot_string_text @ [CHR 0x00]"

definition start_mem :: mem where
  "start_mem a = (if unat (a - 0x8000) < length start_text then ord (start_text ! unat (a - 0x8000)) else lit_mem image_literals a)"

definition start_cpu :: "u64 \<Rightarrow> u64 \<Rightarrow> boot_cpu" where
  "start_cpu core el = \<lparr>bmach = \<lparr>dev = idle_dev, trace = [], ram = start_mem\<rparr>, mpidr_el1 = core, current_el = el, daif = 0,
     bregs = boot_regs, hcr_el2 = 0, spsr_el2 = 0, elr_el2 = 0, elr_el3 = 0x1234, vbar_el1 = 0, bsp_el0 = 0, bsp = 0\<rparr>"

lemma start_text_length: "length el_string1_text = 13" "length boot_string_text = 17" "length start_text = 32"
  by (simp_all add: el_string1_text_def boot_string_text_def start_text_def)

lemma start_mem_at:
  assumes "i < 32"
  shows "start_mem (0x8000 + of_nat i) = ord (start_text ! i)"
proof -
  have "unat (of_nat i :: u64) = i"
    using assms by (intro unat_of_nat_64) simp
  then show ?thesis
    using assms by (simp add: start_mem_def start_text_length)
qed

lemma start_strings:
  "c_str start_mem 0x8000 el_string1_text" "c_str start_mem (boot_string start_symbols) boot_string_text"
proof -
  have nul: "CHR 0x00 \<notin> set el_string1_text" "CHR 0x00 \<notin> set boot_string_text"
    by (simp_all add: el_string1_text_def boot_string_text_def)
  have "start_mem (0x8000 + of_nat i) = ord (el_string1_text ! i)" if "i < 13" for i
    using that start_mem_at [of i] by (simp add: start_text_def nth_append start_text_length)
  moreover have "start_mem (0x8000 + of_nat 13) = 0"
    by (subst start_mem_at) (simp_all add: start_text_def nth_append start_text_length)
  ultimately show "c_str start_mem 0x8000 el_string1_text"
    using nul by (simp add: c_str_def start_text_length)
  have b: "boot_string start_symbols + of_nat i = 0x8000 + of_nat (14 + i)" for i
    by (simp add: boot_string_def start_symbols_def start_text_length)
  have "start_mem (boot_string start_symbols + of_nat i) = ord (boot_string_text ! i)" if "i < 17" for i
    unfolding b using that by (subst start_mem_at) (simp_all add: start_text_def nth_append start_text_length)
  moreover have "start_mem (boot_string start_symbols + of_nat 17) = 0"
    unfolding b by (subst start_mem_at) (simp_all add: start_text_def nth_append start_text_length)
  ultimately show "c_str start_mem (boot_string start_symbols) boot_string_text"
    using nul by (simp add: c_str_def start_text_length)
qed

lemma start_literals: "lits_in image_literals (lit_addr image_literals) start_mem"
proof (rule lits_in_frame [of _ _ "lit_mem image_literals" "{0x8000}"])
  show "lits_in image_literals (lit_addr image_literals) (lit_mem image_literals)"
    by (rule lit_mem_ok [OF image_literals_short])
  show "lits_outside image_literals (lit_addr image_literals) {0x8000}"
    by (rule image_literals_low) simp
  show "start_mem a = lit_mem image_literals a" if "pg a \<notin> {0x8000}" for a
  proof -
    have "\<not> unat (a - 0x8000) < 32"
    proof
      define d where "d = a - 0x8000"
      assume "unat (a - 0x8000) < 32"
      then have "unat d < 32" and "a = 0x8000 + d"
        by (simp_all add: d_def)
      then have "unat a = 0x8000 + unat d"
        by (simp add: unat_add_no_wrap)
      then have "unat (pg a) = 0x8000"
        using \<open>unat d < 32\<close> by (simp add: unat_pg)
      then show False
        using that by (simp add: word_unat_eq_iff)
    qed
    then show ?thesis
      by (simp add: start_mem_def start_text_length)
  qed
qed

lemma start_image_ok: "image_ok (lit_addr image_literals) start_image start_symbols"
proof -
  have "unat (lit_addr image_literals t) + length t < 0x90000" if t: "t \<in> set image_literals" for t
  proof -
    have "pos_of t image_literals < 100" "length t \<le> 60"
      using pos_of_nth [OF t] image_literals_short(1) image_literals_short(2) [OF t] by linarith+
    then show ?thesis
      unfolding lit_addr_def by (subst unat_of_nat_64) simp_all
  qed
  then show ?thesis
    unfolding image_ok_def
    by (intro conjI ballI) (simp_all only: start_image_def start_symbols_def, simp_all add: page_aligned_def NR_PAGES_def LOW_MEMORY_def)
qed

lemma start_cpu_ready: "start_ready (lit_addr image_literals) start_image start_symbols (start_cpu c el)"
proof -
  have "tx_ready (bmach (start_cpu c el))"
    by (rule idle_tx_ready) (simp add: start_cpu_def)
  then show ?thesis
    using start_strings start_literals start_image_ok unfolding start_ready_def by (simp add: start_cpu_def start_symbols_def)
qed


theorem start_other_ways_witness:
  "(\<exists>b'. start (lit_addr image_literals) K0 start_image start_symbols boot_kernel (start_cpu 1 CurrentEL_EL2) = Inr (Slave_hang b')) \<and>
   (\<exists>b'. start (lit_addr image_literals) K0 start_image start_symbols boot_kernel (start_cpu 0 CurrentEL_EL3) = Inr (Eret_to 0x1234 b')) \<and>
   (\<exists>b'. start (lit_addr image_literals) K0 start_image start_symbols boot_kernel (start_cpu 0 CurrentEL_EL1) = Inr (Undefined_insn b'))"
proof -
  have c: "tx_ready (bmach (start_cpu c el))" "c_str (ram (bmach (start_cpu c el))) (el_string1 start_symbols) el_string1_text" for c el
    using start_cpu_ready [of c el] by (simp_all only: start_ready_def)
  show ?thesis
    using start_other_ways [OF c, of 1 CurrentEL_EL2 "lit_addr image_literals" K0 start_image boot_kernel]
      start_other_ways [OF c, of 0 CurrentEL_EL3 "lit_addr image_literals" K0 start_image boot_kernel]
      start_other_ways [OF c, of 0 CurrentEL_EL1 "lit_addr image_literals" K0 start_image boot_kernel]
    by (auto simp: start_cpu_def)
qed

end
