(* ===== verification/Entry.thy ===== *)
theory Entry
  imports Tasking
begin

text \<open>
  The exception entry code of \<^verbatim>\<open>arch/arm64/core/entry.S\<close>: the vector table, the macros \<^verbatim>\<open>trap_entry\<close> and
  \<^verbatim>\<open>trap_exit\<close> that save and restore the interrupted registers on the stack, and the first instructions
  of a new thread in \<^verbatim>\<open>ret_from_fork\<close>. The general registers are a function of their number; the frame
  is in byte-addressed memory at the offsets \<^verbatim>\<open>asm-offsets.c\<close> gives the assembler.
\<close>

section \<open>The vector table\<close>

definition BAD_SYNC :: int where [yios_consts]: "BAD_SYNC = 0"
definition BAD_IRQ :: int where [yios_consts]: "BAD_IRQ = 1"
definition BAD_FIQ :: int where [yios_consts]: "BAD_FIQ = 2"
definition BAD_ERROR :: int where [yios_consts]: "BAD_ERROR = 3"

text \<open>
  What a vector leads to: \<^verbatim>\<open>do_bad_mode\<close> with a reason, or one of the C handlers between \<^verbatim>\<open>trap_entry\<close> and
  \<^verbatim>\<open>trap_exit\<close>; only \<^verbatim>\<open>el1_irq\<close> may preempt before the exit.
\<close>

datatype vector =
    Invalid int
  | Do_sync
  | Do_irq bool

definition vector_table :: "vector list" where
  "vector_table =
    [Invalid BAD_SYNC, Invalid BAD_IRQ, Invalid BAD_FIQ, Invalid BAD_ERROR,
     Invalid BAD_SYNC, Do_irq True, Invalid BAD_FIQ, Invalid BAD_ERROR,
     Do_sync, Do_irq False, Invalid BAD_FIQ, Invalid BAD_ERROR,
     Invalid BAD_SYNC, Invalid BAD_IRQ, Invalid BAD_FIQ, Invalid BAD_ERROR]"

section \<open>Saving and restoring the interrupted context\<close>

record core =
  gpr :: "nat \<Rightarrow> u64"
  core_sp :: u64
  elr_el1 :: u64
  spsr_el1 :: u64
  core_mem :: mem

definition set_gpr :: "nat \<Rightarrow> u64 \<Rightarrow> core \<Rightarrow> core" where
  "set_gpr i v c = c\<lparr>gpr := (gpr c)(i := v)\<rparr>"

text \<open>\<^verbatim>\<open>stp\<close> and \<^verbatim>\<open>ldp\<close> with an offset from the stack pointer.\<close>

definition stp :: "nat \<Rightarrow> nat \<Rightarrow> u64 \<Rightarrow> core \<Rightarrow> core" where
  "stp i j off c =
     c\<lparr>core_mem := st64 (st64 (core_mem c) (core_sp c + off) (gpr c i)) (core_sp c + off + 8) (gpr c j)\<rparr>"

definition ldp :: "nat \<Rightarrow> nat \<Rightarrow> u64 \<Rightarrow> core \<Rightarrow> core" where
  "ldp i j off c =
     set_gpr j (ld64 (core_mem c) (core_sp c + off + 8)) (set_gpr i (ld64 (core_mem c) (core_sp c + off)) c)"

definition trap_entry :: "core \<Rightarrow> core" where
  "trap_entry c =
     (let c = c\<lparr>core_sp := core_sp c - STACK_FRAME_SIZE\<rparr>;
          c = fold (\<lambda>i. stp (2 * i) (2 * i + 1) (16 * of_nat i)) [0..<15] c;
          c = set_gpr 21 (core_sp c + STACK_FRAME_SIZE) c;
          c = set_gpr 22 (elr_el1 c) c;
          c = set_gpr 23 (spsr_el1 c) c;
          c = stp 30 21 S_LR c
      in stp 22 23 S_PC c)"

definition trap_exit :: "core \<Rightarrow> core" where
  "trap_exit c =
     (let c = ldp 21 22 S_PC c;
          c = c\<lparr>elr_el1 := gpr c 21\<rparr>;
          c = c\<lparr>spsr_el1 := gpr c 22\<rparr>;
          c = fold (\<lambda>i. ldp (2 * i) (2 * i + 1) (16 * of_nat i)) [0..<15] c;
          c = set_gpr 30 (ld64 (core_mem c) (core_sp c + S_LR)) c
      in c\<lparr>core_sp := core_sp c + STACK_FRAME_SIZE\<rparr>)"

section \<open>A new thread\<close>

text \<open>
  \<^verbatim>\<open>ret_from_fork\<close> runs \<^verbatim>\<open>schedule_tail\<close>, which keeps the callee-saved registers, and calls the function in
  \<^verbatim>\<open>x19\<close> with the argument in \<^verbatim>\<open>x20\<close>. Without a function, and when the function returns, \<^verbatim>\<open>ret_to_user\<close> follows,
  which is not written yet and goes to \<^verbatim>\<open>do_bad_mode\<close>.
\<close>

datatype entered = Calls u64 u64 | Bad_mode int

definition ret_to_user :: entered where
  "ret_to_user = Bad_mode BAD_ERROR"

definition start_thread :: "kstate \<Rightarrow> entered \<times> kstate" where
  "start_thread s =
     (let s = schedule_tail s in
      (if x19 (cpu s) = 0 then ret_to_user else Calls (x19 (cpu s)) (x20 (cpu s)), s))"

end
