(* ===== verification/Entry_Spec.thy ===== *)
theory Entry_Spec
  imports Entry
begin

text \<open>
  The trap frame: what \<^verbatim>\<open>trap_entry\<close> stores where, and that \<^verbatim>\<open>trap_exit\<close> brings the interrupted context back
  whatever ran in between, as long as it left the frame and the stack pointer alone.
\<close>

section \<open>Doublewords of the frame\<close>

definition fslot :: "u64 \<Rightarrow> nat \<Rightarrow> u64" where
  "fslot p k = p + of_nat (8 * k)"

lemma aligned8_fslot:
  assumes "aligned8 p"
  shows "aligned8 (fslot p k)"
proof -
  have "unat (fslot p k) = (unat p + 8 * k mod 2 ^ 64) mod 2 ^ 64"
    by (simp only: fslot_def unat_word_ariths unat_of_nat take_bit_eq_mod) simp
  then have "unat (fslot p k) mod 8 = (unat p + 8 * k mod 2 ^ 64) mod 8"
    using mod_mod_cancel [of 8 "2 ^ 64" "unat p + 8 * k mod 2 ^ 64"] by simp
  moreover have "8 * k mod 2 ^ 64 mod 8 = (0 :: nat)"
    using mod_mod_cancel [of 8 "2 ^ 64" "8 * k"] by simp
  moreover have "unat p mod 8 = 0"
    using assms by (simp add: aligned8_def)
  ultimately show ?thesis
    unfolding aligned8_def by (metis add_0 mod_add_eq mod_0)
qed

lemma fslot_inj: "k < 100 \<Longrightarrow> l < 100 \<Longrightarrow> fslot p k = fslot p l \<longleftrightarrow> k = l"
proof
  assume kl: "k < 100" "l < 100" and "fslot p k = fslot p l"
  then have "unat (of_nat (8 * k) :: u64) = unat (of_nat (8 * l) :: u64)"
    by (simp only: fslot_def add_left_cancel)
  with kl show "k = l"
    by (simp add: unat_of_nat_64 del: of_nat_mult)
qed simp

lemma fslot_Suc: "fslot p k + 8 = fslot p (Suc k)"
  by (simp add: fslot_def algebra_simps)

definition frame_word :: "core \<Rightarrow> nat \<Rightarrow> u64" where
  "frame_word c k = ld64 (core_mem c) (fslot (core_sp c) k)"

lemma stp_simps [simp]:
  "gpr (stp i j off c) = gpr c" "core_sp (stp i j off c) = core_sp c"
  "elr_el1 (stp i j off c) = elr_el1 c" "spsr_el1 (stp i j off c) = spsr_el1 c"
  by (simp_all add: stp_def)

lemma set_gpr_simps [simp]:
  "gpr (set_gpr i v c) = (gpr c)(i := v)" "core_sp (set_gpr i v c) = core_sp c" "core_mem (set_gpr i v c) = core_mem c"
  "elr_el1 (set_gpr i v c) = elr_el1 c" "spsr_el1 (set_gpr i v c) = spsr_el1 c"
  by (simp_all add: set_gpr_def)

lemma frame_set_gpr [simp]: "frame_word (set_gpr i v c) k = frame_word c k"
  by (simp add: frame_word_def)

lemma frame_stp:
  assumes "aligned8 (core_sp c)" and "k < 99" and "l < 100"
  shows "frame_word (stp i j (of_nat (8 * k)) c) l =
    (if l = k then gpr c i else if l = Suc k then gpr c j else frame_word c l)"
proof -
  have "core_mem (stp i j (of_nat (8 * k)) c) =
      st64 (st64 (core_mem c) (fslot (core_sp c) k) (gpr c i)) (fslot (core_sp c) (Suc k)) (gpr c j)"
    unfolding fslot_Suc [symmetric] by (simp add: stp_def fslot_def)
  then show ?thesis
    using assms by (simp add: frame_word_def dw.ld_st aligned8_fslot fslot_inj)
qed

section \<open>Saving\<close>

lemma frame_store_pairs:
  assumes "aligned8 (core_sp c)" and "n \<le> 15"
  defines "c' \<equiv> fold (\<lambda>i. stp (2 * i) (2 * i + 1) (16 * of_nat i)) [0..<n] c"
  shows "gpr c' = gpr c \<and> core_sp c' = core_sp c \<and> elr_el1 c' = elr_el1 c \<and> spsr_el1 c' = spsr_el1 c \<and>
    (\<forall>l < 2 * n. frame_word c' l = gpr c l)"
  using assms(2) unfolding c'_def
proof (induction n)
  case (Suc n)
  define d where "d = fold (\<lambda>i. stp (2 * i) (2 * i + 1) (16 * of_nat i)) [0..<n] c"
  have d: "gpr d = gpr c" "core_sp d = core_sp c" "elr_el1 d = elr_el1 c" "spsr_el1 d = spsr_el1 c"
    "\<And>l. l < 2 * n \<Longrightarrow> frame_word d l = gpr c l"
    using Suc by (simp_all add: d_def)
  have o: "(16 * of_nat n :: u64) = of_nat (8 * (2 * n))"
    by simp
  have "frame_word (stp (2 * n) (2 * n + 1) (16 * of_nat n) d) l = gpr c l" if "l < 2 * Suc n" for l
    unfolding o using that Suc.prems assms(1) d by (subst frame_stp) (auto simp: less_Suc_eq)
  moreover have "fold (\<lambda>i. stp (2 * i) (2 * i + 1) (16 * of_nat i)) [0..<Suc n] c = stp (2 * n) (2 * n + 1) (16 * of_nat n) d"
    by (simp add: d_def)
  ultimately show ?case
    using d by (simp only: stp_simps) simp
qed simp

lemma trap_entry_frame:
  assumes "aligned8 (core_sp c)"
  shows "core_sp (trap_entry c) = core_sp c - STACK_FRAME_SIZE"
    and "\<And>k. k \<le> 30 \<Longrightarrow> frame_word (trap_entry c) k = gpr c k"
    and "frame_word (trap_entry c) 31 = core_sp c" and "frame_word (trap_entry c) 32 = elr_el1 c"
    and "frame_word (trap_entry c) 33 = spsr_el1 c"
proof -
  define c0 where "c0 = c\<lparr>core_sp := core_sp c - STACK_FRAME_SIZE\<rparr>"
  define c1 where "c1 = fold (\<lambda>i. stp (2 * i) (2 * i + 1) (16 * of_nat i)) [0..<15] c0"
  define c2 where "c2 = set_gpr 23 (spsr_el1 c1) (set_gpr 22 (elr_el1 c1) (set_gpr 21 (core_sp c1 + STACK_FRAME_SIZE) c1))"
  have e: "trap_entry c = stp 22 23 (of_nat (8 * 32)) (stp 30 21 (of_nat (8 * 30)) c2)"
    by (simp add: trap_entry_def Let_def c0_def c1_def c2_def yios_consts S_X_def)
  have "core_sp c0 = fslot (core_sp c) (2 ^ 61 - 34)"
    by (simp add: c0_def fslot_def yios_consts S_X_def)
  then have a0: "aligned8 (core_sp c0)"
    using aligned8_fslot [OF assms] by simp
  have f1: "gpr c1 = gpr c" "core_sp c1 = core_sp c - STACK_FRAME_SIZE" "elr_el1 c1 = elr_el1 c" "spsr_el1 c1 = spsr_el1 c"
    and w1: "\<And>l. l < 30 \<Longrightarrow> frame_word c1 l = gpr c l"
    using frame_store_pairs [OF a0, of 15] by (simp_all add: c1_def c0_def)
  then have a2: "aligned8 (core_sp c2)"
    using a0 by (simp add: c2_def c0_def)
  show "core_sp (trap_entry c) = core_sp c - STACK_FRAME_SIZE"
    by (simp add: e c2_def f1)
  have w: "frame_word (trap_entry c) l = (if l = 32 then elr_el1 c else if l = 33 then spsr_el1 c
      else if l = 30 then gpr c 30 else if l = 31 then core_sp c else gpr c l)" if "l < 34" for l
  proof -
    have "frame_word (trap_entry c) l = (if l = 32 then gpr c2 22 else if l = Suc 32 then gpr c2 23
        else if l = 30 then gpr c2 30 else if l = Suc 30 then gpr c2 21 else frame_word c2 l)"
      unfolding e using that a2 frame_stp [of "stp 30 21 (of_nat (8 * 30)) c2" 32 l 22 23] frame_stp [of c2 30 l 30 21]
      by (simp only: stp_simps)
    then show ?thesis
      using that w1 [of l] by (auto simp: c2_def f1)
  qed
  show "frame_word (trap_entry c) k = gpr c k" if "k \<le> 30" for k
    using that w [of k] by auto
  show "frame_word (trap_entry c) 31 = core_sp c" "frame_word (trap_entry c) 32 = elr_el1 c"
    "frame_word (trap_entry c) 33 = spsr_el1 c"
    using w [of 31] w [of 32] w [of 33] by simp_all
qed

section \<open>Restoring\<close>

lemma ldp_simps [simp]:
  "core_sp (ldp i j off c) = core_sp c" "core_mem (ldp i j off c) = core_mem c"
  "elr_el1 (ldp i j off c) = elr_el1 c" "spsr_el1 (ldp i j off c) = spsr_el1 c"
  by (simp_all add: ldp_def)

lemma gpr_ldp:
  "gpr (ldp i j (of_nat (8 * k)) c) = (gpr c)(i := frame_word c k, j := frame_word c (Suc k))"
  unfolding ldp_def frame_word_def fslot_Suc [symmetric] by (simp add: fslot_def)

lemma load_pairs:
  defines "ld n c \<equiv> fold (\<lambda>i. ldp (2 * i) (2 * i + 1) (16 * of_nat i)) [0..<n] c"
  shows "core_sp (ld n c) = core_sp c \<and> core_mem (ld n c) = core_mem c \<and> elr_el1 (ld n c) = elr_el1 c \<and>
    spsr_el1 (ld n c) = spsr_el1 c \<and> (\<forall>l. gpr (ld n c) l = (if l < 2 * n then frame_word c l else gpr c l))"
proof (induction n)
  case 0
  show ?case by (simp add: ld_def)
next
  case (Suc n)
  have s: "ld (Suc n) c = ldp (2 * n) (2 * n + 1) (of_nat (8 * (2 * n))) (ld n c)"
    by (simp add: ld_def)
  have "frame_word (ld n c) k = frame_word c k" for k
    using Suc by (simp add: frame_word_def)
  then show ?case
    using Suc unfolding s gpr_ldp by (auto simp: less_Suc_eq)
qed

lemma trap_exit_spec:
  shows "core_sp (trap_exit c) = core_sp c + STACK_FRAME_SIZE" and "core_mem (trap_exit c) = core_mem c"
    and "elr_el1 (trap_exit c) = frame_word c 32" and "spsr_el1 (trap_exit c) = frame_word c 33"
    and "\<And>k. k \<le> 30 \<Longrightarrow> gpr (trap_exit c) k = frame_word c k"
proof -
  define c1 where "c1 = ldp 21 22 (of_nat (8 * 32)) c"
  define c2 where "c2 = c1\<lparr>elr_el1 := gpr c1 21, spsr_el1 := gpr c1 22\<rparr>"
  define c3 where "c3 = fold (\<lambda>i. ldp (2 * i) (2 * i + 1) (16 * of_nat i)) [0..<15] c2"
  have e: "trap_exit c = (set_gpr 30 (frame_word c3 30) c3)\<lparr>core_sp := core_sp c3 + STACK_FRAME_SIZE\<rparr>"
    by (simp add: trap_exit_def Let_def c1_def c2_def c3_def frame_word_def fslot_def yios_consts S_X_def)
  have g1: "gpr c1 21 = frame_word c 32" "gpr c1 22 = frame_word c 33"
    unfolding c1_def gpr_ldp by simp_all
  have f2: "frame_word c2 k = frame_word c k" for k
    by (simp add: c2_def c1_def frame_word_def)
  have c3: "core_sp c3 = core_sp c" "core_mem c3 = core_mem c" "elr_el1 c3 = frame_word c 32" "spsr_el1 c3 = frame_word c 33"
    "\<And>l. l < 30 \<Longrightarrow> gpr c3 l = frame_word c l"
    using load_pairs [of 15 c2] f2 g1 by (simp_all add: c3_def c2_def c1_def)
  then show "core_sp (trap_exit c) = core_sp c + STACK_FRAME_SIZE" "core_mem (trap_exit c) = core_mem c"
    "elr_el1 (trap_exit c) = frame_word c 32" "spsr_el1 (trap_exit c) = frame_word c 33"
    by (simp_all add: e)
  have "frame_word c3 30 = frame_word c 30"
    using c3 by (simp add: frame_word_def)
  then show "gpr (trap_exit c) k = frame_word c k" if "k \<le> 30" for k
    using that c3(5) [of k] by (auto simp: e)
qed

section \<open>Properties\<close>

text \<open>
  C14: An interrupt is invisible to the code it interrupts. \<^verbatim>\<open>trap_entry\<close> puts the registers, the stack
  pointer, the return address and the processor state into the frame where \<^verbatim>\<open>struct pt_regs\<close> has them;
  after any code that leaves the stack pointer and the 34 doublewords of the frame as they were,
  \<^verbatim>\<open>trap_exit\<close> restores every general register, the stack pointer, and the address and state the exception
  return goes to.
\<close>

theorem trap_frame_roundtrip:
  assumes "aligned8 (core_sp c)" and "core_sp c' = core_sp (trap_entry c)"
    and "\<forall>k < 34. frame_word c' k = frame_word (trap_entry c) k"
  shows "frame_word (trap_entry c) 31 = core_sp c \<and> core_mem (trap_exit c') = core_mem c' \<and>
    (\<forall>k \<le> 30. gpr (trap_exit c') k = gpr c k) \<and> core_sp (trap_exit c') = core_sp c \<and>
    elr_el1 (trap_exit c') = elr_el1 c \<and> spsr_el1 (trap_exit c') = spsr_el1 c"
  using assms(2,3) trap_entry_frame [OF assms(1)] trap_exit_spec(1-4) [of c'] trap_exit_spec(5) [of _ c'] by simp

definition core0 :: core where
  "core0 = \<lparr>gpr = (\<lambda>i. of_nat i * 3), core_sp = 0x401000, elr_el1 = 0x80704, spsr_el1 = 5, core_mem = (\<lambda>_. 0xff)\<rparr>"

theorem trap_frame_roundtrip_witness:
  "let c' = (trap_entry core0)\<lparr>gpr := (\<lambda>_. 0), elr_el1 := 0\<rparr>
   in gpr (trap_exit c') 21 = 63 \<and> core_sp (trap_exit c') = 0x401000 \<and> elr_el1 (trap_exit c') = 0x80704"
proof -
  define c' where "c' = (trap_entry core0)\<lparr>gpr := (\<lambda>_. 0), elr_el1 := 0\<rparr>"
  have "aligned8 (core_sp core0)"
    by (simp add: core0_def aligned8_def)
  moreover have "frame_word c' k = frame_word (trap_entry core0) k" for k
    by (simp add: c'_def frame_word_def)
  ultimately have "(\<forall>k \<le> 30. gpr (trap_exit c') k = gpr core0 k) \<and> core_sp (trap_exit c') = core_sp core0 \<and>
      elr_el1 (trap_exit c') = elr_el1 core0"
    using trap_frame_roundtrip [of core0 c'] by (simp add: c'_def)
  then show ?thesis
    unfolding Let_def c'_def [symmetric] by (simp add: core0_def)
qed

text \<open>
  C15: A forked thread starts in its function. When the processor switches to a task \<^verbatim>\<open>do_fork\<close> created with
  \<^verbatim>\<open>PF_KTHREAD\<close>, it continues in \<^verbatim>\<open>ret_from_fork\<close> on the child's stack, turns interrupts on and calls the function
  with the argument given to \<^verbatim>\<open>do_fork\<close>. A task created without the flag has no function: it goes straight to
  \<^verbatim>\<open>ret_to_user\<close>, which is \<^verbatim>\<open>do_bad_mode\<close>.
\<close>

theorem forked_thread_starts:
  assumes "fork_inv K fs ts rs" and "kaddrs_ok K" and "free_pages (mm fs) \<noteq> {}" and "0 \<in> set (g_task fs)" and "fn \<noteq> 0"
  shows "\<exists>p n fs'. do_fork K clone_flags fn arg fs = (n, fs') \<and> p \<noteq> current (ks fs') \<and>
    (let s = cpu_switch_to K (current (ks fs')) p (ks fs'); (e, s') = start_thread s
     in pc (cpu s) = ret_from_fork K \<and> sp (cpu s) = task_pt_regs p \<and> current s' = p \<and> irq_on s' \<and>
        e = (if clone_flags AND PF_KTHREAD \<noteq> 0 then Calls fn arg else Bad_mode 3))"
proof (rule do_fork_spec [OF assms(1-4), of clone_flags fn arg], goal_cases)
  case (1 p n fs')
  have "current (ks fs') \<in> ring_tasks K rs"
    using assms(1) 1(14) by (simp add: fork_inv_def sched_inv_def preempt_inv_def)
  moreover have "p \<notin> ring_tasks K rs"
    using 1(2) free_pages_pool assms(1,2) by (auto simp: ring_tasks_def fork_inv_def kaddrs_ok_def)
  ultimately have "p \<noteq> current (ks fs')"
    by auto
  with 1(1,10) assms(5) show ?case
    by (intro exI [of _ p] exI [of _ n] exI [of _ fs'])
      (auto simp: cpu_switch_to_def start_thread_def schedule_tail_def irq_defs upd_task_def child_ctx_def zero_context_def
        ret_to_user_def BAD_ERROR_def Let_def)
qed

theorem forked_thread_starts_witness:
  "\<exists>p n fs'. do_fork K0 PF_KTHREAD 0x80700 0x12345 fs0 = (n, fs') \<and>
    fst (start_thread (cpu_switch_to K0 0x90000 p (ks fs'))) = Calls 0x80700 0x12345"
proof -
  have c: "current (ks fs') = 0x90000" if "do_fork K0 PF_KTHREAD 0x80700 0x12345 fs0 = (n, fs')" for n fs'
    by (rule do_fork_spec [OF fs0_inv K0_ok fs0_simps(4,3), of PF_KTHREAD "0x80700" "0x12345"]) (use that in simp)
  obtain p n fs' where "do_fork K0 PF_KTHREAD 0x80700 0x12345 fs0 = (n, fs')"
    and "let s = cpu_switch_to K0 (current (ks fs')) p (ks fs'); (e, s') = start_thread s
       in e = (if PF_KTHREAD AND PF_KTHREAD \<noteq> 0 then Calls 0x80700 0x12345 else Bad_mode 3)"
    using forked_thread_starts [OF fs0_inv K0_ok fs0_simps(4,3), of "0x80700" PF_KTHREAD "0x12345"]
    by (auto simp: Let_def case_prod_beta)
  with c [of n fs'] show ?thesis
    by (auto simp: Let_def case_prod_beta PF_KTHREAD_def)
qed

end
