(* ===== verification/Threads.thy ===== *)
theory Threads
  imports Boot
begin

text \<open>
  The kernel threads of \<^verbatim>\<open>init/main.c\<close>: a round of their loops returns and prints one line.
\<close>

lemma delay_returns: "0 \<le> n \<Longrightarrow> n < 2 ^ 31 \<Longrightarrow> delay n = Inr ()"
proof (induction n rule: delay.induct)
  case (1 n)
  show ?case
  proof (cases "n = 0")
    case True
    then show ?thesis
      by (subst delay.simps) (simp add: int32_def)
  next
    case False
    with 1 show ?thesis
      by (subst delay.simps) (simp add: int32_def)
  qed
qed

lemma delay_negative: "n < 0 \<Longrightarrow> - (2 ^ 31) \<le> n \<Longrightarrow> delay n = Inl Signed_Overflow"
proof (induction n rule: delay.induct)
  case (1 n)
  then show ?case
    by (subst delay.simps) (cases "- (2 ^ 31) \<le> n - 1"; simp add: int32_def)
qed

definition thread_literals :: "string list" where
  "thread_literals = [''kernel_thread'', ''kernel_thread1'', ''kernel_thread2'', ''12345'', ''abcde'']"

text \<open>The line of a thread: \<^verbatim>\<open>kernel_thread1\<close> prints the whole count, \<^verbatim>\<open>kernel_thread2\<close> its low 32 bits, signed.\<close>

definition count_line :: "string \<Rightarrow> string \<Rightarrow> u64 \<Rightarrow> string" where
  "count_line name a c = name @ '': '' @ a @ '' count='' @ number_text c 10 (- 1) (- 1) SIGN @ ''\<newline>''"

lemma count_line_short: "length name \<le> 60 \<Longrightarrow> length a \<le> 500 \<Longrightarrow> length (count_line name a c) < 1024"
  using number_text_short [of 10 "- 1" "- 1" c SIGN] unfolding count_line_def length_append by simp

lemma prints_thread1:
  assumes "c_str m f name" "f \<noteq> 0" "length name \<le> 60" and "c_str m p a" "p \<noteq> 0" "length a \<le> 500"
  shows "prints m (\<lambda>s. say ''%s: %s count=%ld\<newline>'' [f, p, c] s) (count_line name a c)"
  using assms
  by (intro prints_say count_line_short) (simp_all add: myprintf_def conv_rules count_line_def)

lemma prints_thread2:
  assumes "c_str m f name" "f \<noteq> 0" "length name \<le> 60" and "c_str m p a" "p \<noteq> 0" "length a \<le> 500"
  shows "prints m (\<lambda>s. say ''%s: %s count=%d\<newline>'' [f, p, c] s) (count_line name a (scast (ucast c :: u32)))"
  using assms
  by (intro prints_say count_line_short) (simp_all add: myprintf_def conv_rules count_line_def)

text \<open>A round of either thread.\<close>

lemma thread1_round:
  assumes "tx_ready x" and "lits_in thread_literals lit (ram x)" and "c_str (ram x) p a" and "p \<noteq> 0" and "length a \<le> 500"
  shows "\<exists>x'. kernel_thread1_body lit p (c, x) = Inr (c + 1, x') \<and> printed x x' (count_line ''kernel_thread1'' a c)"
proof -
  have "lit ''kernel_thread1'' \<noteq> 0" "c_str (ram x) (lit ''kernel_thread1'') ''kernel_thread1''"
    using lits_inD [OF assms(2), of "''kernel_thread1''"] by (simp_all add: thread_literals_def)
  from printsE [OF prints_thread1 [OF this(2,1) _ assms(3-5)] assms(1) refl] obtain x' where
    "say ''%s: %s count=%ld\<newline>'' [lit ''kernel_thread1'', p, c] x = Inr x'"
    "printed x x' (count_line ''kernel_thread1'' a c)"
    by auto
  moreover have "delay 80000 = Inr ()"
    by (rule delay_returns) simp_all
  ultimately show ?thesis
    by (simp add: kernel_thread1_body_def)
qed

lemma thread2_round:
  assumes "tx_ready x" and "lits_in thread_literals lit (ram x)" and "c_str (ram x) p a" and "p \<noteq> 0" and "length a \<le> 500"
  shows "\<exists>x'. kernel_thread2_body lit p (c, x) = Inr (c + 1, x') \<and>
    printed x x' (count_line ''kernel_thread2'' a (scast (ucast c :: u32)))"
proof -
  have "lit ''kernel_thread2'' \<noteq> 0" "c_str (ram x) (lit ''kernel_thread2'') ''kernel_thread2''"
    using lits_inD [OF assms(2), of "''kernel_thread2''"] by (simp_all add: thread_literals_def)
  from printsE [OF prints_thread2 [OF this(2,1) _ assms(3-5)] assms(1) refl] obtain x' where
    "say ''%s: %s count=%d\<newline>'' [lit ''kernel_thread2'', p, c] x = Inr x'"
    "printed x x' (count_line ''kernel_thread2'' a (scast (ucast c :: u32)))"
    by auto
  moreover have "delay 50000 = Inr ()"
    by (rule delay_returns) simp_all
  ultimately show ?thesis
    by (simp add: kernel_thread2_body_def)
qed

text \<open>Rounds of a loop that prints a line for its counter and counts on.\<close>

lemma rounds_print:
  assumes "\<And>c s. tx_ready s \<Longrightarrow> ram s = m \<Longrightarrow> \<exists>s'. body (c, s) = Inr (c + 1, s') \<and> printed s s' (line c)"
    and "tx_ready s" and "ram s = m"
  shows "\<exists>s'. rounds n body (0 :: u64, s) = Inr (of_nat n, s') \<and>
    printed s s' (concat (map (\<lambda>i. line (of_nat i)) [0..<n]))"
proof (induction n)
  case 0
  show ?case
    using assms(2) by (simp add: printed_def)
next
  case (Suc n)
  then obtain s1 where s1: "rounds n body (0, s) = Inr (of_nat n, s1)"
    "printed s s1 (concat (map (\<lambda>i. line (of_nat i)) [0..<n]))"
    by blast
  then have "tx_ready s1" "ram s1 = m"
    using assms(3) by (simp_all add: printed_def)
  from assms(1) [OF this, of "of_nat n"] obtain s2 where
    "body (of_nat n, s1) = Inr (of_nat n + 1, s2)" "printed s1 s2 (line (of_nat n))"
    by blast
  with s1 show ?case
    by (auto simp: printed_def add.commute)
qed

text \<open>
  C26: The kernel threads. Every round of \<^verbatim>\<open>kernel_thread1\<close> and \<^verbatim>\<open>kernel_thread2\<close> comes to its end, whatever
  the count: after any number of rounds the thread has printed one line per round, numbered from
  0 on without a gap (the second thread prints the count as an \<^verbatim>\<open>int\<close>), and changed nothing else.
\<close>

theorem threads_print:
  assumes "tx_ready s" and "lits_in thread_literals lit (ram s)" and "c_str (ram s) p a" and "p \<noteq> 0" and "length a \<le> 500"
  shows "\<exists>s' s''. kernel_thread1 lit p n s = Inr (of_nat n, s') \<and>
    printed s s' (concat (map (\<lambda>i. count_line ''kernel_thread1'' a (of_nat i)) [0..<n])) \<and>
    kernel_thread2 lit p n s = Inr (of_nat n, s'') \<and>
    printed s s'' (concat (map (\<lambda>i. count_line ''kernel_thread2'' a (scast (of_nat i :: u32))) [0..<n]))"
proof -
  have u: "(ucast (of_nat k :: u64) :: u32) = of_nat k" for k
    by (rule bit_eqI) (auto simp: bit_simps)
  have b1: "\<exists>x'. kernel_thread1_body lit p (c, x) = Inr (c + 1, x') \<and> printed x x' (count_line ''kernel_thread1'' a c)"
    and b2: "\<exists>x'. kernel_thread2_body lit p (c, x) = Inr (c + 1, x') \<and> printed x x' (count_line ''kernel_thread2'' a (scast (ucast c :: u32)))"
    if "tx_ready x" "ram x = ram s" for c x
    using thread1_round [of x lit p a c] thread2_round [of x lit p a c] that assms(2-5) by simp_all
  show ?thesis
    using rounds_print [of "ram s", OF b1 assms(1) refl, of n] rounds_print [of "ram s", OF b2 assms(1) refl, of n]
    unfolding kernel_thread1_def kernel_thread2_def u by blast
qed

theorem threads_print_witness:
  "\<exists>s' s''. kernel_thread1 (lit_addr thread_literals) (lit_addr thread_literals ''12345'') 3
      \<lparr>dev = idle_dev, trace = [], ram = lit_mem thread_literals\<rparr> = Inr (3, s') \<and>
    kernel_thread2 (lit_addr thread_literals) (lit_addr thread_literals ''12345'') 3
      \<lparr>dev = idle_dev, trace = [], ram = lit_mem thread_literals\<rparr> = Inr (3, s'')"
proof -
  have l: "lits_in thread_literals (lit_addr thread_literals) (lit_mem thread_literals)"
    by (rule lit_mem_ok) (auto simp: thread_literals_def)
  moreover have "tx_ready \<lparr>dev = idle_dev, trace = [], ram = lit_mem thread_literals\<rparr>"
    by (rule idle_tx_ready) simp
  moreover have "lit_addr thread_literals ''12345'' \<noteq> 0" "c_str (lit_mem thread_literals) (lit_addr thread_literals ''12345'') ''12345''"
    using lits_inD [OF l, of "''12345''"] by (simp_all add: thread_literals_def)
  ultimately show ?thesis
    using threads_print [of "\<lparr>dev = idle_dev, trace = [], ram = lit_mem thread_literals\<rparr>" "lit_addr thread_literals"
        "lit_addr thread_literals ''12345''" "''12345''" 3] by auto
qed

end
