(* ===== verification/System.thy ===== *)
theory System
  imports Boot_Spec Entry_Spec Threads
begin

text \<open>
  The running kernel: the components of \<open>Boot\<close> after \<^verbatim>\<open>kernel_main\<close> has reached its loop, together with the
  tasks of \<open>Tasking\<close>, the interrupt controller and the kernel threads. \<open>sys_step\<close> lets interrupts, calls of
  \<^verbatim>\<open>schedule\<close>, forks and rounds of the threads happen in any order; what the components promise each other
  is an invariant of that machine.
\<close>

section \<open>The state\<close>

record system =
  smach :: machine
  sgic :: gic_chip_data
  sfs :: fstate

definition g_task_init :: "kaddrs \<Rightarrow> u64 list" where
  "g_task_init K = init_task K # replicate (NR_TASK - 1) 0"

text \<open>The system \<^verbatim>\<open>kernel_main\<close> leaves; \<open>junk\<close> is what the memory of future trap frames holds.\<close>

definition booted :: "kaddrs \<Rightarrow> (u64 \<Rightarrow> pt_regs) \<Rightarrow> kernel \<Rightarrow> system" where
  "booted K junk st =
     \<lparr>smach = mach st, sgic = kgic st,
      sfs = \<lparr>ks = ksched st, mm = kmap st, g_task = g_task_init K, frames = junk\<rparr>\<rparr>"

section \<open>Steps\<close>

text \<open>
  An interrupt: \<^verbatim>\<open>do_irq\<close> works on the devices and leaves the tasks alone, then \<^verbatim>\<open>el1_irq\<close> preempts the
  running task if that is asked for.
\<close>

definition system_irq :: "kaddrs \<Rightarrow> system \<Rightarrow> fault + system" where
  "system_irq K y =
     ebind (do_irq (sgic y) (smach y)) (\<lambda>s.
     ebind (el1_irq K (\<lambda>k. k) (ks (sfs y))) (\<lambda>k.
     Inr (y\<lparr>smach := s, sfs := (sfs y)\<lparr>ks := k\<rparr>\<rparr>)))"

definition system_fork :: "kaddrs \<Rightarrow> u64 \<Rightarrow> u64 \<Rightarrow> u64 \<Rightarrow> system \<Rightarrow> int \<times> system" where
  "system_fork K clone_flags fn arg y =
     (let (pid, fs) = do_fork K clone_flags fn arg (sfs y) in (pid, y\<lparr>sfs := fs\<rparr>))"

definition system_say :: "string \<Rightarrow> system \<Rightarrow> fault + system" where
  "system_say fmt y = ebind (say fmt [] (smach y)) (\<lambda>s. Inr (y\<lparr>smach := s\<rparr>))"

text \<open>
  The test of \<^verbatim>\<open>do_fork\<close> in \<^verbatim>\<open>kernel_main\<close>, which the source has between \<^verbatim>\<open>#if 0\<close> and \<^verbatim>\<open>#endif\<close>. The addresses of
  the two functions are arguments.
\<close>

definition test_fork :: "(string \<Rightarrow> u64) \<Rightarrow> kaddrs \<Rightarrow> u64 \<Rightarrow> u64 \<Rightarrow> system \<Rightarrow> fault + system" where
  "test_fork lit K thread1 thread2 y =
     (let (pid, y) = system_fork K PF_KTHREAD thread1 (lit ''12345'') y in
      ebind (if pid < 0 then system_say ''create kthread1 failed\<newline>'' y else Inr y) (\<lambda>y.
      let (pid, y) = system_fork K PF_KTHREAD thread2 (lit ''abcde'') y in
      if pid < 0 then system_say ''create kthread2 failed\<newline>'' y else Inr y))"

inductive sys_step :: "(string \<Rightarrow> u64) \<Rightarrow> kaddrs \<Rightarrow> system \<Rightarrow> system \<Rightarrow> bool" for lit :: "string \<Rightarrow> u64" and K :: kaddrs where
  irq: "irq_on (ks (sfs y)) \<Longrightarrow> system_irq K y = Inr y' \<Longrightarrow> sys_step lit K y y'"
| sched: "schedule K (ks (sfs y)) = Inr k \<Longrightarrow> sys_step lit K y (y\<lparr>sfs := (sfs y)\<lparr>ks := k\<rparr>\<rparr>)"
| fork: "system_fork K clone_flags fn arg y = (r, y') \<Longrightarrow> sys_step lit K y y'"
| thread1: "kernel_thread1_body lit (lit ''12345'') (c, smach y) = Inr (c', s) \<Longrightarrow> sys_step lit K y (y\<lparr>smach := s\<rparr>)"
| thread2: "kernel_thread2_body lit (lit ''abcde'') (c, smach y) = Inr (c', s) \<Longrightarrow> sys_step lit K y (y\<lparr>smach := s\<rparr>)"

text \<open>
  What the image has to provide beyond \<open>boot_ready\<close>: \<^verbatim>\<open>init_task\<close> as \<^verbatim>\<open>init/init_task.c\<close> initialises it, running,
  and the literals of the threads outside the pages that become tables.
\<close>

definition tasks_ready :: "(string \<Rightarrow> u64) \<Rightarrow> kaddrs \<Rightarrow> image \<Rightarrow> kernel \<Rightarrow> bool" where
  "tasks_ready lit K I st \<longleftrightarrow>
     kaddrs_ok K \<and> tasks (ksched st) (init_task K) = init_task_data (init_task K) \<and>
     current (ksched st) = init_task K \<and> log (ksched st) = [] \<and>
     lits_in thread_literals lit (ram (mach st)) \<and>
     lits_outside thread_literals lit (insert (idmap_pg_dir I) (mm_free (kmm st)))"

inductive sys_reachable :: "(string \<Rightarrow> u64) \<Rightarrow> kaddrs \<Rightarrow> image \<Rightarrow> system \<Rightarrow> bool"
  for lit :: "string \<Rightarrow> u64" and K :: kaddrs and I :: image where
  boot: "boot_ready lit I st \<Longrightarrow> tasks_ready lit K I st \<Longrightarrow> kernel_main lit K I st = Inr (Spins st') \<Longrightarrow>
    sys_reachable lit K I (booted K junk st')"
| step: "sys_reachable lit K I y \<Longrightarrow> sys_step lit K y y' \<Longrightarrow> sys_reachable lit K I y'"

section \<open>The invariant\<close>

text \<open>
  \<open>tasks_part\<close>: the tasks are consistent, nothing asks for a reschedule and the scheduler reported
  nothing. \<open>space_part\<close>: the tables give the kernel's address space and are made of pages \<open>F\<close> that
  are neither free nor a task's. \<open>device_part\<close>: the serial line drains, the threads' literals are in
  memory and exactly the software interrupts and the timer's are enabled.
\<close>

definition tasks_part :: "kaddrs \<Rightarrow> system \<Rightarrow> u64 list \<Rightarrow> u64 list \<Rightarrow> bool" where
  "tasks_part K y ts rs \<longleftrightarrow>
     fork_inv K (sfs y) ts rs \<and> log (ks (sfs y)) = [] \<and>
     (\<forall>p \<in> ring_tasks K rs. need_resched (tasks (ks (sfs y)) p) = 0)"

definition space_part :: "image \<Rightarrow> system \<Rightarrow> u64 list \<Rightarrow> u64 set \<Rightarrow> bool" where
  "space_part I y rs F \<longleftrightarrow>
     tbl 3 (ld64 (ram (smach y))) (idmap_pg_dir I) F \<and> F \<inter> free_pages (mm (sfs y)) = {} \<and> F \<inter> set rs = {} \<and>
     (\<forall>va. unat va < 2 ^ 48 \<longrightarrow> translate (ram (smach y)) (idmap_pg_dir I) va = kernel_space (image_layout I) va)"

definition device_part :: "(string \<Rightarrow> u64) \<Rightarrow> system \<Rightarrow> bool" where
  "device_part lit y \<longleftrightarrow>
     tx_ready (smach y) \<and> lits_in thread_literals lit (ram (smach y)) \<and>
     raw_cpu_base (sgic y) = GIC_V2_CPU_INTERFACE_BASE \<and>
     unat (gic_irqs (sgic y)) \<le> 1020 \<and>
     (\<forall>init. \<forall>j < unat (gic_irqs (sgic y)).
        gic_enabled GIC_V2_DISTRIBUTOR_BASE init (trace (smach y)) j = (j < 16 \<or> j = 30))"

definition sys_inv :: "(string \<Rightarrow> u64) \<Rightarrow> kaddrs \<Rightarrow> image \<Rightarrow> system \<Rightarrow> bool" where
  "sys_inv lit K I y \<longleftrightarrow> (\<exists>ts rs F. tasks_part K y ts rs \<and> space_part I y rs F) \<and> device_part lit y"

lemma booted_simps [simp]:
  "smach (booted K junk st) = mach st" "sgic (booted K junk st) = kgic st" "ks (sfs (booted K junk st)) = ksched st"
  "mm (sfs (booted K junk st)) = kmap st" "g_task (sfs (booted K junk st)) = g_task_init K"
  by (simp_all add: booted_def)

lemma booted_tasks:
  assumes "tasks_ready lit K I st" and k: "ksched st' = raw_local_irq_enable (sched_init K (ksched st))"
  shows "tasks_part K (booted K junk st') [] []"
proof -
  have K: "kaddrs_ok K" and T: "tasks (ksched st') (init_task K) = init_task_data (init_task K)"
    and c: "current (ksched st') = init_task K" "log (ksched st') = []"
    using assms by (simp_all add: tasks_ready_def sched_init_def irq_defs)
  have l: "lring (nodes (ksched st')) (rq_head K) []" and n: "nr_running (g_rq (ksched st')) = 0"
    using k by (simp_all add: sched_init_def irq_defs kl.rep_init)
  have r: "ring (\<lambda>p. next_task (tasks (ksched st') p)) (\<lambda>p. prev_task (tasks (ksched st') p)) (init_task K) []"
    using T by (simp add: ring_def init_task_data_def)
  have "sched_inv K (ksched st') [] []"
    using K T c l n r
    by (simp add: sched_inv_def queue_inv_def preempt_inv_def ring_tasks_def kaddrs_ok_def init_task_data_def task_ok_def yios_consts)
  then show ?thesis
    using T c by (simp add: tasks_part_def fork_inv_def ring_tasks_def g_task_init_def init_task_data_def NR_TASK_def)
qed

lemma boot_inv:
  assumes "boot_ready lit I st" and t: "tasks_ready lit K I st" and m: "kernel_main lit K I st = Inr (Spins st')"
  shows "sys_inv lit K I (booted K junk st')"
proof (rule kernel_main_run [OF assms(1), of K], goal_cases)
  case (1 st2 f o)
  then have s: "st2 = st'"
    using m by simp
  note R = 1 [unfolded s]
  obtain F where "tbl 3 (ld64 (ram (mach st'))) (idmap_pg_dir I) F" "F \<inter> mm_free (kmm st') = {}"
    using R(9) by blast
  then have "space_part I (booted K junk st') [] F"
    using R(8) by (simp add: space_part_def mm_free_def)
  moreover have "lits_in thread_literals lit (ram (mach st))"
      "lits_outside thread_literals lit (insert (idmap_pg_dir I) (mm_free (kmm st)))"
    using t by (simp_all add: tasks_ready_def)
  from lits_in_frame [OF this R(10)] have "device_part lit (booted K junk st')"
    using R(3,4,13,14) by (simp add: device_part_def)
  ultimately show ?case
    using booted_tasks [OF t R(6), of junk] unfolding sys_inv_def by blast
qed

text \<open>The steps of the threads and of \<^verbatim>\<open>do_irq\<close> touch neither memory nor the enable registers.\<close>

definition same_machine :: "machine \<Rightarrow> machine \<Rightarrow> bool" where
  "same_machine s s' \<longleftrightarrow> dev s' = dev s \<and> ram s' = ram s \<and>
     (\<forall>init. \<forall>j < 1020. gic_enabled GIC_V2_DISTRIBUTOR_BASE init (trace s') j = gic_enabled GIC_V2_DISTRIBUTOR_BASE init (trace s) j)"

lemma same_machine_inv:
  assumes "same_machine (smach y) s"
  shows "tasks_part K (y\<lparr>smach := s\<rparr>) ts rs = tasks_part K y ts rs"
    and "space_part I (y\<lparr>smach := s\<rparr>) rs F = space_part I y rs F"
    and "device_part lit y \<Longrightarrow> device_part lit (y\<lparr>smach := s\<rparr>)"
  using assms tx_ready_dev [of s "smach y"]
  by (auto simp: same_machine_def tasks_part_def space_part_def device_part_def)

lemma printed_same: "printed s s' t \<Longrightarrow> same_machine s s'"
  using enabled_bus [of _ _ "trace s'"] enabled_bus [of _ _ "trace s"] by (simp add: printed_def same_machine_def)

lemma irq_io_keeps:
  assumes "j < 1024"
  shows "gic_enabled DIST init (tr @ [Rd a v] @ (if b then [Msr r w] else []) @ [Wr (CPUIF + GIC_CPU_EOI) x]) j = gic_enabled DIST init tr j"
proof -
  have "CPUIF + GIC_CPU_EOI \<noteq> DIST + of_nat k" if "k < 4096" for k
    using that by (auto simp: yios_consts word_unat_eq_iff unat_word_ariths unat_of_nat_64 simp del: of_nat_add)
  from this [of "0x100 + 4 * (j div 32)"] this [of "0x180 + 4 * (j div 32)"] assms show ?thesis
    unfolding gic_enabled_append
    by (intro effect_keep) (auto simp: enables_def disables_def simp del: of_nat_add of_nat_mult)
qed

lemma do_irq_same:
  assumes "device_part lit y"
  obtains s where "do_irq (sgic y) (smach y) = Inr s" and "same_machine (smach y) s"
proof -
  define v where "v = dev_read (dev (smach y)) (trace (smach y)) (CPUIF + GIC_CPU_INTACK)"
  have "tx_ready (smach y)" "raw_cpu_base (sgic y) = CPUIF"
    using assms by (simp_all add: device_part_def)
  from do_irq_run [OF this v_def] obtain s where s: "do_irq (sgic y) (smach y) = Inr s" "ram s = ram (smach y)" "dev s = dev (smach y)"
    "bus (trace s) = bus (trace (smach y)) @ [Rd (CPUIF + GIC_CPU_INTACK) v] @
      (if v AND 0x3ff = 30 then [Msr CNTP_TVAL_EL0 62500000] else []) @ [Wr (CPUIF + GIC_CPU_EOI) (v AND 0x3ff)]"
    by blast
  have "gic_enabled DIST init (trace s) j = gic_enabled DIST init (trace (smach y)) j" if "j < 1020" for init j
  proof -
    have j: "j < 1024"
      using that by simp
    have "gic_enabled DIST init (trace s) j = gic_enabled DIST init (bus (trace s)) j"
      using enabled_bus [OF j] by simp
    also have "\<dots> = gic_enabled DIST init (bus (trace (smach y))) j"
      unfolding s(4) by (rule irq_io_keeps [OF j])
    also have "\<dots> = gic_enabled DIST init (trace (smach y)) j"
      by (rule enabled_bus [OF j])
    finally show ?thesis .
  qed
  then show thesis
    using that [of s] s(1-3) by (simp add: same_machine_def)
qed

lemma system_irq_run:
  assumes "tasks_part K y ts rs" and "device_part lit y" and "irq_on (ks (sfs y))"
  obtains s where "system_irq K y = Inr (y\<lparr>smach := s\<rparr>)" and "do_irq (sgic y) (smach y) = Inr s" and "same_machine (smach y) s"
proof -
  have "current (ks (sfs y)) \<in> ring_tasks K rs"
    using assms(1) by (simp add: tasks_part_def fork_inv_def sched_inv_def preempt_inv_def)
  then have "need_resched (tasks (ks (sfs y)) (current (ks (sfs y)))) = 0"
    using assms(1) by (simp add: tasks_part_def)
  then have "el1_irq K (\<lambda>k. k) (ks (sfs y)) = Inr (ks (sfs y))"
    using assms(3) by (simp add: el1_irq_def Let_def)
  moreover obtain s where "do_irq (sgic y) (smach y) = Inr s" "same_machine (smach y) s"
    by (rule do_irq_same [OF assms(2)])
  ultimately show thesis
    using that [of s] by (simp add: system_irq_def)
qed

lemma sched_step_inv:
  assumes t: "tasks_part K y ts rs" and r: "schedule K (ks (sfs y)) = Inr k"
  shows "tasks_part K (y\<lparr>sfs := (sfs y)\<lparr>ks := k\<rparr>\<rparr>) ts rs"
proof -
  have i: "fork_inv K (sfs y) ts rs"
    using t by (simp add: tasks_part_def)
  note R = fork_inv_ready [OF i]
  have ne: "ts \<noteq> []"
    using r schedule_empty [OF _ R(3)] R(2) by fastforce
  show ?thesis
  proof (rule schedule_spec [OF R(2)], goal_cases)
    case (3 s')
    then have "k = s'"
      using r by simp
    with 3(2,5,6,9) t fork_inv_ks [OF i, of s'] R(1) show ?case
      by (auto simp: tasks_part_def)
  qed (use R ne in simp_all)
qed

lemma fork_part_inv:
  assumes t: "tasks_part K y ts rs" and k: "kaddrs_ok K" and sp: "space_part I y rs F"
    and d: "system_fork K clone_flags fn arg y = (r, y')"
  shows "\<exists>ts' rs'. tasks_part K y' ts' rs' \<and> space_part I y' rs' F"
proof -
  have i: "fork_inv K (sfs y) ts rs"
    using t by (simp add: tasks_part_def)
  have y': "y' = y\<lparr>sfs := snd (do_fork K clone_flags fn arg (sfs y))\<rparr>"
    using d by (auto simp: system_fork_def split: prod.splits)
  show ?thesis
  proof (cases "0 \<in> set (g_task (sfs y)) \<and> free_pages (mm (sfs y)) \<noteq> {}")
    case True
    then have fr: "free_pages (mm (sfs y)) \<noteq> {}" and sl: "0 \<in> set (g_task (sfs y))"
      by auto
    show ?thesis
    proof (rule do_fork_spec [OF i k fr sl, of clone_flags fn arg], goal_cases)
      case (1 p n fs')
      have "tasks_part K y' (p # ts) (rs @ [p])"
        using t 1(1,4,15,19) by (auto simp: tasks_part_def y' ring_tasks_def)
      moreover have "space_part I y' (rs @ [p]) F"
        using sp 1(1,2,5) by (auto simp: space_part_def y')
      ultimately show ?case
        by blast
    qed
  next
    case False
    then have "snd (do_fork K clone_flags fn arg (sfs y)) = sfs y \<or>
        snd (do_fork K clone_flags fn arg (sfs y)) = (sfs y)\<lparr>mm := snd (get_free_page (mm (sfs y)))\<rparr>"
      using do_fork_no_page [of "sfs y" K clone_flags fn arg] do_fork_no_slot [of "sfs y" K clone_flags fn arg] by auto
    then have "tasks_part K y' ts rs" "space_part I y' rs F"
      using t sp free_pages_get [of "mm (sfs y)"] by (auto simp: y' tasks_part_def space_part_def fork_inv_def)
    then show ?thesis
      by blast
  qed
qed

lemma thread_same:
  assumes "device_part lit y"
  shows "kernel_thread1_body lit (lit ''12345'') (c, smach y) = Inr (c', s) \<Longrightarrow> same_machine (smach y) s"
    and "kernel_thread2_body lit (lit ''abcde'') (c, smach y) = Inr (c', s) \<Longrightarrow> same_machine (smach y) s"
proof -
  have tx: "tx_ready (smach y)" and l: "lits_in thread_literals lit (ram (smach y))"
    using assms by (simp_all add: device_part_def)
  have a: "lit ''12345'' \<noteq> 0" "c_str (ram (smach y)) (lit ''12345'') ''12345''"
    "lit ''abcde'' \<noteq> 0" "c_str (ram (smach y)) (lit ''abcde'') ''abcde''"
    using lits_inD [OF l, of "''12345''"] lits_inD [OF l, of "''abcde''"] by (simp_all add: thread_literals_def)
  show "same_machine (smach y) s" if "kernel_thread1_body lit (lit ''12345'') (c, smach y) = Inr (c', s)"
    using thread1_round [OF tx l a(2,1), of c] that by (auto intro: printed_same)
  show "same_machine (smach y) s" if "kernel_thread2_body lit (lit ''abcde'') (c, smach y) = Inr (c', s)"
    using thread2_round [OF tx l a(4,3), of c] that by (auto intro: printed_same)
qed

lemma sys_step_inv:
  assumes "sys_inv lit K I y" and "kaddrs_ok K" and "sys_step lit K y y'"
  shows "sys_inv lit K I y'"
proof -
  obtain ts rs F where t: "tasks_part K y ts rs" and s: "space_part I y rs F" and d: "device_part lit y"
    using assms(1) by (auto simp: sys_inv_def)
  have machine: "sys_inv lit K I (y\<lparr>smach := x\<rparr>)" if "same_machine (smach y) x" for x
    using t s same_machine_inv [OF that] d unfolding sys_inv_def by blast
  from assms(3) show ?thesis
  proof cases
    case irq
    then show ?thesis
      using system_irq_run [OF t d] machine by (metis sum.inject(2))
  next
    case (sched k)
    then show ?thesis
      using sched_step_inv [OF t, of k] s d by (auto simp: sys_inv_def space_part_def device_part_def)
  next
    case (fork clone_flags fn arg r)
    have "device_part lit y'"
      using fork d by (auto simp: system_fork_def device_part_def split: prod.splits)
    then show ?thesis
      using fork_part_inv [OF t assms(2) s fork] unfolding sys_inv_def by blast
  qed (use machine thread_same [OF d] in blast)+
qed

lemma sys_reachable_inv: "sys_reachable lit K I y \<Longrightarrow> sys_inv lit K I y \<and> kaddrs_ok K"
proof (induction rule: sys_reachable.induct)
  case (boot st st' junk)
  then show ?case
    using boot_inv [of lit I st K st' junk] by (auto simp: tasks_ready_def)
next
  case (step y y')
  then show ?case
    using sys_step_inv by blast
qed

section \<open>Properties\<close>

text \<open>
  C4: The components keep their promises to each other while the kernel runs. In every state reached from
  the end of \<^verbatim>\<open>kernel_main\<close> by interrupts, calls of \<^verbatim>\<open>schedule\<close>, forks and rounds of the kernel threads, in any
  order: the tasks and the run queue are consistent and no scheduling bug was reported; the page
  tables are intact and still translate exactly as \<^verbatim>\<open>paging_init\<close> set them up; no page is at the same
  time part of a table, a task's and free; and of the interrupts exactly the software-generated ones
  and the timer's are enabled.
\<close>

theorem running_kernel_invariant:
  assumes "sys_reachable lit K I y"
  shows "(\<exists>ts rs F. fork_inv K (sfs y) ts rs \<and> log (ks (sfs y)) = [] \<and>
      tbl 3 (ld64 (ram (smach y))) (idmap_pg_dir I) F \<and>
      F \<inter> free_pages (mm (sfs y)) = {} \<and> F \<inter> set rs = {} \<and> set rs \<inter> free_pages (mm (sfs y)) = {}) \<and>
    (\<forall>va. unat va < 2 ^ 48 \<longrightarrow> translate (ram (smach y)) (idmap_pg_dir I) va = kernel_space (image_layout I) va) \<and>
    (\<forall>init. \<forall>j < unat (gic_irqs (sgic y)).
       gic_enabled GIC_V2_DISTRIBUTOR_BASE init (trace (smach y)) j = (j < 16 \<or> j = 30))"
proof -
  from sys_reachable_inv [OF assms] obtain ts rs F where
    "tasks_part K y ts rs" "space_part I y rs F" "device_part lit y"
    by (auto simp: sys_inv_def)
  moreover from this(1) have "set rs \<inter> free_pages (mm (sfs y)) = {}"
    by (simp add: tasks_part_def fork_inv_def)
  ultimately show ?thesis
    unfolding tasks_part_def space_part_def device_part_def by blast
qed

text \<open>
  C5: Interrupts are always served. In every reachable state with interrupts on, an interrupt is taken,
  acknowledged, handled and ended, and the interrupted task goes on: the tasks, the allocator and
  memory are exactly as before. For the timer's number the timer is set again and a line is
  printed; for any other number, a spurious one included, nothing else happens.
\<close>

theorem interrupts_served:
  assumes "sys_reachable lit K I y" and "irq_on (ks (sfs y))"
    and "v = dev_read (dev (smach y)) (trace (smach y)) (GIC_V2_CPU_INTERFACE_BASE + GIC_CPU_INTACK)"
  shows "\<exists>s f. system_irq K y = Inr (y\<lparr>smach := s\<rparr>) \<and> ram s = ram (smach y) \<and>
    bus (trace s) = bus (trace (smach y)) @ [Rd (GIC_V2_CPU_INTERFACE_BASE + GIC_CPU_INTACK) v] @
      (if v AND 0x3ff = 30 then [Msr CNTP_TVAL_EL0 62500000] else []) @
      [Wr (GIC_V2_CPU_INTERFACE_BASE + GIC_CPU_EOI) (v AND 0x3ff)] \<and>
    uart_out (trace s) = uart_out (trace (smach y)) @ (if v AND 0x3ff = 30 then concat (map crlf (tick_text f)) else [])"
proof -
  from sys_reachable_inv [OF assms(1)] obtain ts rs where t: "tasks_part K y ts rs" and d: "device_part lit y"
    by (auto simp: sys_inv_def)
  have "tx_ready (smach y)" "raw_cpu_base (sgic y) = GIC_V2_CPU_INTERFACE_BASE"
    using d by (simp_all add: device_part_def)
  from do_irq_run [OF this assms(3)] system_irq_run [OF t d assms(2)] show ?thesis
    by (metis sum.inject(2))
qed

section \<open>The kernel threads from the boot on\<close>

lemma fork_on_system:
  assumes "fork_inv K (sfs y) ts rs" and "kaddrs_ok K" and "free_pages (mm (sfs y)) \<noteq> {}" and "0 \<in> set (g_task (sfs y))"
  obtains p y' where "system_fork K f fn arg y = (find_empty_task (g_task (sfs y)), y')" and "p \<in> free_pages (mm (sfs y))"
    and "smach y' = smach y" and "fork_inv K (sfs y') (p # ts) (rs @ [p])"
    and "free_pages (mm (sfs y')) = free_pages (mm (sfs y)) - {p}"
    and "g_task (sfs y') = (g_task (sfs y))[nat (find_empty_task (g_task (sfs y))) := p]"
    and "ctx (tasks (ks (sfs y')) p) = child_ctx K f p fn arg" and "pid (tasks (ks (sfs y')) p) = find_empty_task (g_task (sfs y))"
    and "current (ks (sfs y')) = current (ks (sfs y))"
    and "\<And>x. count (tasks (ks (sfs y')) x) = (if x = p then (count (tasks (ks (sfs y)) (current (ks (sfs y)))) + 1) div 2
      else if x = current (ks (sfs y)) then count (tasks (ks (sfs y)) x) div 2 else count (tasks (ks (sfs y)) x))"
    and "\<And>x. x \<noteq> p \<Longrightarrow> ctx (tasks (ks (sfs y')) x) = ctx (tasks (ks (sfs y)) x)"
    and "\<And>x. x \<noteq> p \<Longrightarrow> pid (tasks (ks (sfs y')) x) = pid (tasks (ks (sfs y)) x)"
proof (rule do_fork_spec [OF assms, of f fn arg], goal_cases)
  case (1 p n fs')
  then show ?case
    by (intro that [of "y\<lparr>sfs := fs'\<rparr>" p]) (simp_all add: system_fork_def)
qed

lemma find_empty_init:
  "find_empty_task (g_task_init K) = (if init_task K = 0 then 0 else 1)"
  "init_task K \<noteq> 0 \<Longrightarrow> p \<noteq> 0 \<Longrightarrow> find_empty_task ((g_task_init K)[Suc 0 := p]) = 2"
  by (simp_all add: find_empty_task_def g_task_init_def NR_TASK_def numeral_eq_Suc)

lemma test_fork_run:
  assumes t: "tasks_part K y [] []" and k: "kaddrs_ok K" and g: "g_task (sfs y) = g_task_init K"
    and c: "current (ks (sfs y)) = init_task K" "count (tasks (ks (sfs y)) (init_task K)) = 25"
    and fr: "2 \<le> card (free_pages (mm (sfs y)))"
  obtains p q y' where "test_fork lit K thread1 thread2 y = Inr y'" and "p \<noteq> q" and "p \<noteq> init_task K" and "q \<noteq> init_task K"
    and "smach y' = smach y" and "fork_inv K (sfs y') [q, p] [p, q]" and "current (ks (sfs y')) = init_task K"
    and "pid (tasks (ks (sfs y')) p) = 1" and "pid (tasks (ks (sfs y')) q) = 2"
    and "count (tasks (ks (sfs y')) p) = 13" and "count (tasks (ks (sfs y')) q) = 6" and "count (tasks (ks (sfs y')) (init_task K)) = 6"
    and "ctx (tasks (ks (sfs y')) p) = child_ctx K PF_KTHREAD p thread1 (lit ''12345'')"
    and "ctx (tasks (ks (sfs y')) q) = child_ctx K PF_KTHREAD q thread2 (lit ''abcde'')"
proof -
  have i: "fork_inv K (sfs y) [] []" and k0: "init_task K \<noteq> 0" "init_task K \<notin> pool"
    using t k by (simp_all add: tasks_part_def kaddrs_ok_def)
  have f0: "free_pages (mm (sfs y)) \<noteq> {}"
    using fr by auto
  have s0: "0 \<in> set (g_task (sfs y))"
    by (simp add: g g_task_init_def NR_TASK_def)
  obtain p y1 where p: "p \<in> free_pages (mm (sfs y))"
    and y1: "system_fork K PF_KTHREAD thread1 (lit ''12345'') y = (1, y1)" "smach y1 = smach y" "fork_inv K (sfs y1) [p] [p]"
      "free_pages (mm (sfs y1)) = free_pages (mm (sfs y)) - {p}" "g_task (sfs y1) = (g_task_init K)[Suc 0 := p]"
      "ctx (tasks (ks (sfs y1)) p) = child_ctx K PF_KTHREAD p thread1 (lit ''12345'')" "pid (tasks (ks (sfs y1)) p) = 1"
      "current (ks (sfs y1)) = init_task K"
    and n1: "\<And>x. count (tasks (ks (sfs y1)) x) = (if x = p then 13 else if x = init_task K then 12 else count (tasks (ks (sfs y)) x))"
    by (rule fork_on_system [OF i k f0 s0, of PF_KTHREAD thread1 "lit ''12345''"]) (auto simp: g find_empty_init k0 c)
  have "p \<in> pool"
    using p free_pages_pool by blast
  then have p0: "p \<noteq> 0" "p \<noteq> init_task K"
    using k0 pool_props [of p] by auto
  have "card (free_pages (mm (sfs y1))) = card (free_pages (mm (sfs y))) - 1"
    unfolding y1(4) by (rule card_Diff_singleton [OF p])
  then have f1: "free_pages (mm (sfs y1)) \<noteq> {}"
    using fr by auto
  have s1: "0 \<in> set (g_task (sfs y1))"
    unfolding y1(5) by (simp add: g_task_init_def NR_TASK_def numeral_eq_Suc)
  have e1: "find_empty_task (g_task (sfs y1)) = 2" "count (tasks (ks (sfs y1)) (init_task K)) = 12"
    using find_empty_init(2) [OF k0(1) p0(1)] n1 [of "init_task K"] p0(2) by (simp_all add: y1(5))
  obtain q y2 where q: "q \<in> free_pages (mm (sfs y1))"
    and y2: "system_fork K PF_KTHREAD thread2 (lit ''abcde'') y1 = (2, y2)" "smach y2 = smach y1" "fork_inv K (sfs y2) [q, p] [p, q]"
      "ctx (tasks (ks (sfs y2)) q) = child_ctx K PF_KTHREAD q thread2 (lit ''abcde'')" "pid (tasks (ks (sfs y2)) q) = 2"
      "current (ks (sfs y2)) = init_task K"
    and n2: "\<And>x. count (tasks (ks (sfs y2)) x) = (if x = q then 6 else if x = init_task K then 6 else count (tasks (ks (sfs y1)) x))"
    and o2: "\<And>x. x \<noteq> q \<Longrightarrow> ctx (tasks (ks (sfs y2)) x) = ctx (tasks (ks (sfs y1)) x)"
      "\<And>x. x \<noteq> q \<Longrightarrow> pid (tasks (ks (sfs y2)) x) = pid (tasks (ks (sfs y1)) x)"
    by (rule fork_on_system [OF y1(3) k f1 s1, of PF_KTHREAD thread2 "lit ''abcde''"]) (auto simp: e1 y1(8))
  have q0: "q \<noteq> init_task K" "p \<noteq> q"
    using q k0 free_pages_pool y1(4) by auto
  show thesis
    by (rule that [of y2 p q]) (use y1 y2 p0 q0 n1 n2 o2 in \<open>simp_all add: test_fork_def\<close>)
qed

text \<open>The task with the larger count is chosen, and runs with the context \<^verbatim>\<open>do_fork\<close> gave it.\<close>

lemma schedule_picks:
  assumes i: "fork_inv K fs [q, p] rs" and c: "count (tasks (ks fs) q) < count (tasks (ks fs) p)" "count (tasks (ks fs) p) \<noteq> 0"
    and n: "p \<noteq> current (ks fs)" "p \<noteq> q"
  obtains k where "schedule K (ks fs) = Inr k" and "current k = p" and "irq_on k" and "cpu k = ctx (tasks (ks fs) p)"
proof -
  note R = fork_inv_ready [OF i]
  show thesis
  proof (rule schedule_spec [OF R(2)], goal_cases)
    case (3 k)
    have "count (tasks k x) = count (tasks (ks fs) x)" for x
      using 3(10) R(1) c(2) by simp
    then have "current k = p"
      using 3(3) c(1) n(2) R(1) by (auto simp: first_best_Cons)
    then show ?case
      using 3(1,7) n(1) that [of k] by simp
  qed (use R in simp_all)
qed

lemma thread1_rounds:
  assumes "tx_ready s" and "lits_in thread_literals lit (ram s)"
  shows "\<exists>s'. kernel_thread1 lit (lit ''12345'') n s = Inr (of_nat n, s') \<and>
    printed s s' (concat (map (\<lambda>i. count_line ''kernel_thread1'' ''12345'' (of_nat i)) [0..<n]))"
proof -
  have l: "lit ''12345'' \<noteq> 0" "c_str (ram s) (lit ''12345'') ''12345''"
    using lits_inD [OF assms(2), of "''12345''"] by (simp_all add: thread_literals_def)
  have "\<exists>x'. kernel_thread1_body lit (lit ''12345'') (c, x) = Inr (c + 1, x') \<and> printed x x' (count_line ''kernel_thread1'' ''12345'' c)"
    if "tx_ready x" "ram x = ram s" for c x
    using thread1_round [of x lit "lit ''12345''" "''12345''" c] that assms(2) l by simp
  from rounds_print [of "ram s", OF this assms(1) refl, of n] show ?thesis
    by (simp add: kernel_thread1_def)
qed

text \<open>
  C6: From the boot to running threads. If the test of \<^verbatim>\<open>do_fork\<close> in \<^verbatim>\<open>kernel_main\<close> is run on the booted kernel, both
  forks succeed without a message: the threads get the process numbers 1 and 2, the first half of
  \<^verbatim>\<open>init_task\<close>'s slice of 25 and the second half of what was left. The next call of \<^verbatim>\<open>schedule\<close> therefore
  switches to the first thread, which starts, with interrupts on, in \<^verbatim>\<open>kernel_thread1\<close> with the string it
  was given, and every number of rounds of that function prints its lines.
\<close>

theorem forked_threads_run:
  assumes "boot_ready lit I st" and "tasks_ready lit K I st" and "536 \<le> card (mm_free (kmm st))" and "thread1 \<noteq> 0"
  shows "\<exists>st' p q y k s. kernel_main lit K I st = Inr (Spins st') \<and>
    test_fork lit K thread1 thread2 (booted K junk st') = Inr y \<and> smach y = mach st' \<and> fork_inv K (sfs y) [q, p] [p, q] \<and>
    pid (tasks (ks (sfs y)) p) = 1 \<and> pid (tasks (ks (sfs y)) q) = 2 \<and>
    count (tasks (ks (sfs y)) p) = 13 \<and> count (tasks (ks (sfs y)) q) = 6 \<and> count (tasks (ks (sfs y)) (init_task K)) = 6 \<and>
    schedule K (ks (sfs y)) = Inr k \<and> current k = p \<and> irq_on k \<and> fst (start_thread k) = Calls thread1 (lit ''12345'') \<and>
    kernel_thread1 lit (lit ''12345'') n (smach y) = Inr (of_nat n, s) \<and>
    printed (smach y) s (concat (map (\<lambda>i. count_line ''kernel_thread1'' ''12345'' (of_nat i)) [0..<n]))"
proof (rule kernel_main_run [OF assms(1), of K], goal_cases)
  case (1 st' f o)
  define y0 where "y0 = booted K junk st'"
  have t: "tasks_part K y0 [] []" and k: "kaddrs_ok K"
    using booted_tasks [OF assms(2) 1(6)] assms(2) by (simp_all add: y0_def tasks_ready_def)
  have c: "current (ks (sfs y0)) = init_task K" "count (tasks (ks (sfs y0)) (init_task K)) = 25"
    using 1(6) assms(2) by (simp_all add: y0_def tasks_ready_def sched_init_def irq_defs init_task_data_def yios_consts)
  have g: "g_task (sfs y0) = g_task_init K" "2 \<le> card (free_pages (mm (sfs y0)))"
    using 1(12) assms(3) by (simp_all add: y0_def mm_free_def)
  obtain p q y where y: "test_fork lit K thread1 thread2 y0 = Inr y" "p \<noteq> q" "p \<noteq> init_task K" "q \<noteq> init_task K"
      "smach y = smach y0" "fork_inv K (sfs y) [q, p] [p, q]" "current (ks (sfs y)) = init_task K"
      "pid (tasks (ks (sfs y)) p) = 1" "pid (tasks (ks (sfs y)) q) = 2" "count (tasks (ks (sfs y)) p) = 13"
      "count (tasks (ks (sfs y)) q) = 6" "count (tasks (ks (sfs y)) (init_task K)) = 6"
      "ctx (tasks (ks (sfs y)) p) = child_ctx K PF_KTHREAD p thread1 (lit ''12345'')"
    by (rule test_fork_run [OF t k g(1) c g(2), of lit thread1 thread2])
  obtain k' where k': "schedule K (ks (sfs y)) = Inr k'" "current k' = p" "irq_on k'" "cpu k' = ctx (tasks (ks (sfs y)) p)"
    by (rule schedule_picks [OF y(6)]) (use y in auto)
  have x: "x19 (cpu k') = thread1" "x20 (cpu k') = lit ''12345''"
    by (simp_all add: k'(4) y(13) child_ctx_def PF_KTHREAD_def)
  have "device_part lit y0"
    using boot_inv [OF assms(1,2) 1(1), of junk] by (simp add: sys_inv_def y0_def)
  then obtain s where "kernel_thread1 lit (lit ''12345'') n (smach y) = Inr (of_nat n, s)"
      "printed (smach y) s (concat (map (\<lambda>i. count_line ''kernel_thread1'' ''12345'' (of_nat i)) [0..<n]))"
    using thread1_rounds [of "smach y" lit n] y(5) by (auto simp: device_part_def)
  with 1(1) y k' x assms(4) show ?case
    by (intro exI [of _ st'] exI [of _ p] exI [of _ q] exI [of _ y] exI [of _ k'] exI [of _ s])
      (simp add: y0_def start_thread_def schedule_tail_def irq_defs Let_def)
qed

section \<open>A system that runs\<close>

definition sys_literals :: "string list" where
  "sys_literals = image_literals @ thread_literals"

definition sys_kernel :: kernel where
  "sys_kernel = boot_kernel\<lparr>mach := (mach boot_kernel)\<lparr>ram := lit_mem sys_literals\<rparr>\<rparr>"

lemma sys_literals_short:
  "length sys_literals \<le> 100" "t \<in> set sys_literals \<Longrightarrow> length t \<le> 60 \<and> CHR 0x00 \<notin> set t"
proof -
  show "length sys_literals \<le> 100"
    unfolding sys_literals_def thread_literals_def by code_simp
  show "t \<in> set sys_literals \<Longrightarrow> length t \<le> 60 \<and> CHR 0x00 \<notin> set t"
    using image_literals_short(2) [of t] unfolding sys_literals_def set_append by (auto simp: thread_literals_def)
qed

lemma sys_kernel_ready:
  "boot_ready (lit_addr sys_literals) boot_image sys_kernel" "tasks_ready (lit_addr sys_literals) K0 boot_image sys_kernel"
proof -
  have "set image_literals \<subseteq> set sys_literals"
    unfolding sys_literals_def set_append by blast
  note L = literal_kernel_ready [OF sys_literals_short this, folded sys_kernel_def]
  show "boot_ready (lit_addr sys_literals) boot_image sys_kernel"
    using L(1) by blast
  have "lits_in thread_literals (lit_addr sys_literals) (ram (mach sys_kernel))"
    "lits_outside thread_literals (lit_addr sys_literals) (insert (idmap_pg_dir boot_image) (mm_free (kmm sys_kernel)))"
    using L(2,3) unfolding lits_in_def lits_outside_def sys_literals_def by auto
  moreover have "ksched sys_kernel = ks fs0"
    by (simp add: sys_kernel_def boot_kernel_def)
  moreover have "tasks (ks fs0) (init_task K0) = init_task_data (init_task K0)" "init_task K0 = 0x90000"
    by (simp_all add: fs0_def boot_state_def sched_init_def irq_defs K0_def)
  ultimately show "tasks_ready (lit_addr sys_literals) K0 boot_image sys_kernel"
    using K0_ok by (simp add: tasks_ready_def)
qed

lemma sys_kernel_boots:
  obtains st' where "kernel_main (lit_addr sys_literals) K0 boot_image sys_kernel = Inr (Spins st')"
    and "sys_reachable (lit_addr sys_literals) K0 boot_image (booted K0 (\<lambda>_. zero_frame) st')" and "irq_on (ksched st')"
proof (rule kernel_main_run [OF sys_kernel_ready(1), of K0], goal_cases)
  case (1 st' f o)
  then show ?case
    using sys_reachable.boot [OF sys_kernel_ready 1(2)] by (intro that [of st']) (simp_all add: irq_defs)
qed

theorem running_kernel_invariant_witness:
  "\<exists>y. sys_reachable (lit_addr sys_literals) K0 boot_image y \<and>
    translate (ram (smach y)) 0x90000 0x8a000 = Some (0x8a000, attrs PAGE_KERNNEL_ROX)"
proof (rule sys_kernel_boots)
  fix st'
  assume r: "sys_reachable (lit_addr sys_literals) K0 boot_image (booted K0 (\<lambda>_. zero_frame) st')"
  from running_kernel_invariant [OF r]
  have "translate (ram (mach st')) (idmap_pg_dir boot_image) 0x8a000 = kernel_space (image_layout boot_image) 0x8a000"
    by simp
  with r show ?thesis
    by (intro exI [of _ "booted K0 (\<lambda>_. zero_frame) st'"])
      (simp add: boot_image_def kernel_space_def layout.truncate_def PAGE_MASK_def PAGE_BALIGN_def BALIGN_def round_mask_def PAGE_SIZE_def)
qed

theorem interrupts_served_witness:
  "\<exists>y s. sys_reachable (lit_addr sys_literals) K0 boot_image y \<and> system_irq K0 y = Inr (y\<lparr>smach := s\<rparr>) \<and> ram s = ram (smach y)"
proof (rule sys_kernel_boots)
  fix st'
  assume r: "sys_reachable (lit_addr sys_literals) K0 boot_image (booted K0 (\<lambda>_. zero_frame) st')" and "irq_on (ksched st')"
  then have "irq_on (ks (sfs (booted K0 (\<lambda>_. zero_frame) st')))"
    by simp
  from interrupts_served [OF r this refl] r show ?thesis
    by blast
qed

theorem forked_threads_run_witness:
  "\<exists>st' y k. kernel_main (lit_addr sys_literals) K0 boot_image sys_kernel = Inr (Spins st') \<and>
    test_fork (lit_addr sys_literals) K0 0x80700 0x80740 (booted K0 (\<lambda>_. zero_frame) st') = Inr y \<and>
    schedule K0 (ks (sfs y)) = Inr k \<and> fst (start_thread k) = Calls 0x80700 (lit_addr sys_literals ''12345'')"
proof -
  have "mm_free (kmm sys_kernel) = mm_free boot_mm"
    by (simp add: mm_free_def sys_kernel_def boot_kernel_def boot_mm_def)
  then have "536 \<le> card (mm_free (kmm sys_kernel))"
    by simp
  from forked_threads_run [OF sys_kernel_ready this, of "0x80700" "0x80740" "\<lambda>_. zero_frame" 0] show ?thesis
    by auto
qed

end
