(* ===== verification/Irq_Path.thy ===== *)
theory Irq_Path
  imports System
begin

text \<open>
  An interrupt as the interrupted code sees it: \<^verbatim>\<open>el1_irq\<close> of \<^verbatim>\<open>entry.S\<close> from the vector to the return, with the
  registers and the stack in memory. The C code it calls is that of \<open>System\<close>; which values it leaves in
  the general registers, in its stack frames and in \<^verbatim>\<open>print_buf\<close> is arbitrary.
\<close>

text \<open>
  The bytes that the C code writes beside its modelled stores, its stack frames below the trap frame and
  \<^verbatim>\<open>print_buf\<close>, as a table over memory.
\<close>

definition scratched :: "(u64 \<rightharpoonup> u8) \<Rightarrow> mem \<Rightarrow> mem" where
  "scratched w m = (\<lambda>a. case w a of None \<Rightarrow> m a | Some b \<Rightarrow> b)"

text \<open>
  The exit code runs on the frame that the entry code made only if the same task still runs; when another
  one was switched to, the frame stays on the stack of the task that waits, and the result has no core.
\<close>

definition irq_path ::
  "kaddrs \<Rightarrow> (nat \<Rightarrow> u64) \<Rightarrow> (u64 \<rightharpoonup> u8) \<Rightarrow> core \<Rightarrow> system \<Rightarrow> fault + core option \<times> system" where
  "irq_path K clobbered w c y =
     (let tsk = current (ks (sfs y));
          c = trap_entry (c\<lparr>core_mem := ram (smach y)\<rparr>);
          y = y\<lparr>smach := (smach y)\<lparr>ram := core_mem c\<rparr>\<rparr> in
      ebind (system_irq K y) (\<lambda>y.
      let y = y\<lparr>smach := (smach y)\<lparr>ram := scratched w (ram (smach y))\<rparr>\<rparr> in
      Inr (if current (ks (sfs y)) = tsk then Some (trap_exit (c\<lparr>gpr := clobbered, core_mem := ram (smach y)\<rparr>)) else None, y)))"

section \<open>The frame and the rest of memory\<close>

definition in_frame :: "u64 \<Rightarrow> u64 \<Rightarrow> bool" where
  "in_frame p a \<longleftrightarrow> unat (a - p) < 272"

lemma st64_outside:
  assumes "\<not> in_frame p a" and "unat off \<le> 264"
  shows "st64 m (p + off) v a = m a"
proof -
  define d where "d = a - (p + off)"
  have "\<not> unat d < 8"
  proof
    assume l: "unat d < 8"
    have "a - p = off + d"
      by (simp add: d_def)
    moreover have "unat (off + d) = unat off + unat d"
      using l assms(2) by (intro unat_add_no_wrap) simp
    ultimately show False
      using l assms by (simp add: in_frame_def)
  qed
  then show ?thesis
    by (simp add: store_def d_def)
qed

lemma stp_outside:
  assumes "\<not> in_frame (core_sp c) a" and "unat off \<le> 256"
  shows "core_mem (stp i j off c) a = core_mem c a"
proof -
  have "unat (off + 8) = unat off + 8"
    using assms(2) by (subst unat_add_no_wrap) simp_all
  then have "unat (off + 8) \<le> 264"
    using assms(2) by simp
  with st64_outside [OF assms(1), of "off + 8"] st64_outside [OF assms(1), of off] assms(2) show ?thesis
    by (simp add: stp_def add.assoc)
qed

lemma store_pairs_outside:
  assumes "\<not> in_frame (core_sp c) a" and "n \<le> 15"
  shows "core_mem (fold (\<lambda>i. stp (2 * i) (2 * i + 1) (16 * of_nat i)) [0..<n] c) a = core_mem c a \<and>
    core_sp (fold (\<lambda>i. stp (2 * i) (2 * i + 1) (16 * of_nat i)) [0..<n] c) = core_sp c"
  using assms(2)
proof (induction n)
  case (Suc n)
  then have "unat (16 * of_nat n :: u64) = 16 * n"
    using unat_of_nat_64 [of "16 * n"] by simp
  with Suc assms(1) show ?case
    by (simp add: stp_outside)
qed simp

lemma trap_entry_outside:
  assumes "\<not> in_frame (core_sp c - STACK_FRAME_SIZE) a"
  shows "core_mem (trap_entry c) a = core_mem c a"
proof -
  define c0 where "c0 = c\<lparr>core_sp := core_sp c - STACK_FRAME_SIZE\<rparr>"
  define c1 where "c1 = fold (\<lambda>i. stp (2 * i) (2 * i + 1) (16 * of_nat i)) [0..<15] c0"
  have "core_mem c1 a = core_mem c a" "core_sp c1 = core_sp c - STACK_FRAME_SIZE"
    using store_pairs_outside [of c0 a 15] assms by (simp_all add: c1_def c0_def)
  moreover have "unat S_LR \<le> 256" "unat S_PC \<le> 256"
    by (simp_all add: yios_consts S_X_def)
  ultimately show ?thesis
    unfolding trap_entry_def Let_def c0_def [symmetric] c1_def [symmetric] using assms by (simp add: stp_outside)
qed

lemma frame_word_in_frame:
  assumes "k < 34" and "i < 8"
  shows "in_frame p (fslot p k + of_nat i)"
proof -
  have e: "fslot p k + of_nat i - p = (of_nat (8 * k + i) :: u64)"
    by (simp add: fslot_def)
  have u: "unat (of_nat (8 * k + i) :: u64) = 8 * k + i"
    by (rule unat_of_nat_64) (use assms in simp)
  show ?thesis
    unfolding in_frame_def e u using assms by simp
qed

text \<open>What lies outside the frame does not reach the words in it.\<close>

lemma frame_word_scratched:
  assumes "\<forall>a. in_frame (core_sp c) a \<longrightarrow> w a = None" and "k < 34"
  shows "frame_word (c\<lparr>core_mem := scratched w (core_mem c)\<rparr>) k = frame_word c k"
  unfolding frame_word_def
  by (simp, rule ld_bytes_cong) (simp add: scratched_def assms(1) frame_word_in_frame [OF assms(2)])

section \<open>Property\<close>

text \<open>
  C13: With interrupts on and no reschedule asked for, an interrupt is invisible to the code it interrupts.
  \<^verbatim>\<open>el1_irq\<close> comes back to the same task, whatever \<^verbatim>\<open>do_irq\<close> leaves in the registers and in memory outside the
  272 bytes of the trap frame (its stack frames, \<^verbatim>\<open>print_buf\<close>): all 31 general registers, the stack pointer,
  the return address and the processor state are as before, the tasks and the allocator too, and every
  byte that neither lies in the frame nor is one of those \<^verbatim>\<open>do_irq\<close> writes. The devices see one acknowledge
  and one end of interrupt.
\<close>

theorem irq_transparent:
  assumes "tx_ready (smach y)" and "raw_cpu_base (sgic y) = GIC_V2_CPU_INTERFACE_BASE" and "irq_on (ks (sfs y))"
    and "need_resched (tasks (ks (sfs y)) (current (ks (sfs y)))) = 0" and "aligned8 (core_sp c)"
    and "\<forall>a. unat (a - (core_sp c - 272)) < 272 \<longrightarrow> w a = None"
  shows "\<exists>c' y' v. irq_path K clobbered w c y = Inr (Some c', y') \<and> sfs y' = sfs y \<and> sgic y' = sgic y \<and>
    (\<forall>k \<le> 30. gpr c' k = gpr c k) \<and> core_sp c' = core_sp c \<and> elr_el1 c' = elr_el1 c \<and> spsr_el1 c' = spsr_el1 c \<and>
    core_mem c' = ram (smach y') \<and>
    (\<forall>a. \<not> unat (a - (core_sp c - 272)) < 272 \<longrightarrow>
       ram (smach y') a = (case w a of None \<Rightarrow> ram (smach y) a | Some b \<Rightarrow> b)) \<and>
    bus (trace (smach y')) = bus (trace (smach y)) @ [Rd (GIC_V2_CPU_INTERFACE_BASE + GIC_CPU_INTACK) v] @
      (if v AND 0x3ff = 30 then [Msr CNTP_TVAL_EL0 62500000] else []) @
      [Wr (GIC_V2_CPU_INTERFACE_BASE + GIC_CPU_EOI) (v AND 0x3ff)]"
proof -
  define c1 where "c1 = trap_entry (c\<lparr>core_mem := ram (smach y)\<rparr>)"
  define s1 where "s1 = (smach y)\<lparr>ram := core_mem c1\<rparr>"
  have "tx_ready s1"
    by (rule iffD1 [OF tx_ready_dev assms(1)]) (simp add: s1_def)
  from do_irq_run [OF this assms(2) refl] obtain s2 v where s2: "do_irq (sgic y) s1 = Inr s2" "ram s2 = core_mem c1"
    and b: "bus (trace s2) = bus (trace (smach y)) @ [Rd (CPUIF + GIC_CPU_INTACK) v] @
      (if v AND 0x3ff = 30 then [Msr CNTP_TVAL_EL0 62500000] else []) @ [Wr (CPUIF + GIC_CPU_EOI) (v AND 0x3ff)]"
    by (auto simp: s1_def)
  define s3 where "s3 = s2\<lparr>ram := scratched w (core_mem c1)\<rparr>"
  define c2 where "c2 = c1\<lparr>gpr := clobbered, core_mem := ram s3\<rparr>"
  have "el1_irq K (\<lambda>k. k) (ks (sfs y)) = Inr (ks (sfs y))"
    using assms(3,4) by (simp add: el1_irq_def Let_def)
  then have run: "irq_path K clobbered w c y = Inr (Some (trap_exit c2), y\<lparr>smach := s3\<rparr>)"
    using s2 by (simp add: irq_path_def system_irq_def Let_def c1_def [symmetric] s1_def [symmetric] c2_def s3_def)
  have a: "aligned8 (core_sp (c\<lparr>core_mem := ram (smach y)\<rparr>))"
    using assms(5) by simp
  have F: "STACK_FRAME_SIZE = 272"
    by (simp add: yios_consts S_X_def)
  have sp: "core_sp c1 = core_sp c - 272" "core_sp c2 = core_sp c1"
    using trap_entry_frame(1) [OF a] by (simp_all add: c1_def c2_def F)
  have w: "frame_word c2 k = frame_word c1 k" if "k < 34" for k
    using frame_word_scratched [of c1 w k] that assms(6) by (simp add: c2_def s3_def in_frame_def sp(1) frame_word_def)
  have "ram s3 x = (case w x of None \<Rightarrow> ram (smach y) x | Some b \<Rightarrow> b)" if "\<not> unat (x - (core_sp c - 272)) < 272" for x
    using trap_entry_outside [of "c\<lparr>core_mem := ram (smach y)\<rparr>" x] that
    by (simp add: in_frame_def s3_def scratched_def c1_def F split: option.split)
  moreover note trap_entry_frame [OF a, folded c1_def] trap_exit_spec(1-4) [of c2] trap_exit_spec(5) [of _ c2]
  moreover have "core_mem c2 = ram s3" "bus (trace s3) = bus (trace s2)"
    by (simp_all add: c2_def s3_def)
  ultimately show ?thesis
    using run b w sp F
    by (intro exI [of _ "trap_exit c2"] exI [of _ "y\<lparr>smach := s3\<rparr>"] exI [of _ v]) simp
qed

text \<open>An interrupt whose C code leaves a byte below the frame and another one in a buffer.\<close>

theorem irq_transparent_witness:
  "\<exists>c' y'. irq_path K0 (\<lambda>_. 0) [core_sp core0 - 273 \<mapsto> 7, 0x2000 \<mapsto> 9] core0 \<lparr>smach = hi_machine, sgic = gic0, sfs = fs0\<rparr> =
      Inr (Some c', y') \<and>
    gpr c' 21 = 63 \<and> elr_el1 c' = 0x80704 \<and> ram (smach y') 0x1000 = ord (CHR ''H'') \<and> ram (smach y') 0x2000 = 9"
proof -
  let ?w = "[core_sp core0 - 273 \<mapsto> 7, 0x2000 \<mapsto> 9] :: u64 \<rightharpoonup> u8"
  have "tx_ready hi_machine"
    by (rule idle_tx_ready) (simp add: hi_machine_def)
  moreover have "raw_cpu_base gic0 = GIC_V2_CPU_INTERFACE_BASE" "aligned8 (core_sp core0)"
    by (simp_all add: gic0_def core0_def aligned8_def)
  moreover have "\<forall>a. unat (a - (core_sp core0 - 272)) < 272 \<longrightarrow> ?w a = None"
    by (auto simp: core0_def unsigned_minus_1_eq_mask mask_eq_exp_minus_1)
  ultimately obtain c' y' where
    "irq_path K0 (\<lambda>_. 0) ?w core0 \<lparr>smach = hi_machine, sgic = gic0, sfs = fs0\<rparr> = Inr (Some c', y')"
    and "\<forall>k \<le> 30. gpr c' k = gpr core0 k" "elr_el1 c' = elr_el1 core0"
    and m: "\<forall>a. \<not> unat (a - (core_sp core0 - 272)) < 272 \<longrightarrow>
      ram (smach y') a = (case ?w a of None \<Rightarrow> ram hi_machine a | Some b \<Rightarrow> b)"
    using irq_transparent [of "\<lparr>smach = hi_machine, sgic = gic0, sfs = fs0\<rparr>" core0 ?w K0 "\<lambda>_. 0"] by auto
  moreover have "ram (smach y') 0x1000 = ord (CHR ''H'')" "ram (smach y') 0x2000 = 9"
    using m [rule_format, of "0x1000"] m [rule_format, of "0x2000"] by (simp_all add: core0_def hi_machine_def)
  ultimately show ?thesis
    by (auto simp: core0_def)
qed

end
